theory Spec2Isabelle
  imports Complex_Main "HOL-Library.Log_Nat"
begin

section \<open>JavaScript numbers\<close>

text \<open>
  A JavaScript number is an IEEE 754 binary64 value.  A finite value is kept as the
  rational it denotes; every arithmetic operation computes the exact rational result
  and rounds it to the nearest binary64 value, ties to even, overflowing to an infinity.

  The sign of zero is not tracked: \<open>+0\<close> and \<open>-0\<close> are both \<open>Fin 0\<close>.  They are
  equal under \<open>==\<close> and \<open>!=\<close>, and only a division by zero tells them apart; \<open>Mat22\<close>
  divides by \<open>det\<close> only after the test \<open>det != 0.0\<close>.
\<close>

datatype num = NaN | PInf | NInf | Fin rat

text \<open>\<open>ilog2 a\<close> is \<open>\<lfloor>log\<^sub>2 a\<rfloor>\<close> for a positive rational \<open>a\<close>.\<close>

definition ilog2 :: "rat \<Rightarrow> int" where
  "ilog2 a = (if 1 \<le> a then int (floorlog 2 (nat \<lfloor>a\<rfloor>)) - 1
              else - int (floorlog 2 (nat (\<lceil>1 / a\<rceil> - 1))))"

definition round_half_even :: "rat \<Rightarrow> int" where
  "round_half_even s =
     (let n = \<lfloor>s\<rfloor>; f = s - of_int n in
      if f < 1 / 2 then n else if 1 / 2 < f then n + 1
      else if even n then n else n + 1)"

text \<open>
  Rounding to binary64: 53 significant bits, least exponent \<open>-1022\<close> (below it the
  spacing stays \<open>2\<^sup>-\<^sup>1\<^sup>0\<^sup>7\<^sup>4\<close>, the subnormal numbers), and a result of magnitude
  \<open>2\<^sup>1\<^sup>0\<^sup>2\<^sup>4\<close> or more is an infinity.
\<close>

definition round64 :: "rat \<Rightarrow> num" where
  "round64 q =
     (if q = 0 then Fin 0 else
      let a = \<bar>q\<bar>;
          e = max (ilog2 a) (- 1022);
          u = 2 powi (e - 52);
          r = of_int (round_half_even (a / u)) * u
      in if 2 powi 1024 \<le> r then (if 0 < q then PInf else NInf)
         else Fin (sgn q * r))"

definition is_finite :: "num \<Rightarrow> bool" where
  "is_finite n = (case n of Fin q \<Rightarrow> True | _ \<Rightarrow> False)"

text \<open>The sign of a number that is not \<open>NaN\<close>: \<open>-1\<close>, \<open>0\<close> or \<open>1\<close>.\<close>

definition sign_of :: "num \<Rightarrow> int" where
  "sign_of n = (case n of Fin q \<Rightarrow> (if q = 0 then 0 else if 0 < q then 1 else - 1)
                | PInf \<Rightarrow> 1 | NInf \<Rightarrow> - 1 | NaN \<Rightarrow> 0)"

definition js_neg :: "num \<Rightarrow> num" where
  "js_neg n = (case n of NaN \<Rightarrow> NaN | PInf \<Rightarrow> NInf | NInf \<Rightarrow> PInf | Fin q \<Rightarrow> Fin (- q))"

definition js_mul :: "num \<Rightarrow> num \<Rightarrow> num" where
  "js_mul m n =
     (if m = NaN \<or> n = NaN then NaN
      else case (m, n) of
        (Fin p, Fin q) \<Rightarrow> round64 (p * q)
      | _ \<Rightarrow> (let s = sign_of m * sign_of n
              in if s = 0 then NaN else if 0 < s then PInf else NInf))"

definition js_add :: "num \<Rightarrow> num \<Rightarrow> num" where
  "js_add m n =
     (if m = NaN \<or> n = NaN then NaN
      else case (m, n) of
        (Fin p, Fin q) \<Rightarrow> round64 (p + q)
      | (Fin p, _) \<Rightarrow> n
      | (_, Fin q) \<Rightarrow> m
      | _ \<Rightarrow> (if m = n then m else NaN))"

definition js_sub :: "num \<Rightarrow> num \<Rightarrow> num" where
  "js_sub m n = js_add m (js_neg n)"

text \<open>
  Division.  A zero divisor is taken as \<open>+0\<close>; the embedding of \<open>Mat22\<close> never reaches
  that case.
\<close>

definition js_div :: "num \<Rightarrow> num \<Rightarrow> num" where
  "js_div m n =
     (if m = NaN \<or> n = NaN then NaN
      else case (m, n) of
        (Fin p, Fin q) \<Rightarrow>
          (if q = 0 then (if p = 0 then NaN else if 0 < p then PInf else NInf)
           else round64 (p / q))
      | (Fin p, _) \<Rightarrow> Fin 0
      | (_, Fin q) \<Rightarrow> (if 0 \<le> sign_of m * sign_of n then m else js_neg m)
      | _ \<Rightarrow> NaN)"

text \<open>The operator \<open>!=\<close> on two numbers: \<open>NaN\<close> differs from everything.\<close>

definition js_neq :: "num \<Rightarrow> num \<Rightarrow> bool" where
  "js_neq m n = (m = NaN \<or> n = NaN \<or> m \<noteq> n)"

section \<open>Values, objects and the heap\<close>

text \<open>
  Objects live in a heap and are passed by reference.  The objects of this module have
  at most the properties \<open>x\<close>, \<open>y\<close> (numbers: the components of a \<open>Vec2\<close>) and
  \<open>ex\<close>, \<open>ey\<close> (references: the columns of a \<open>Mat22\<close>); \<open>None\<close> is an absent
  property.  An object may have any subset of the four.
\<close>

type_synonym addr = nat

datatype val = Undefined | Null | Num num | Str string | Ref addr

record obj =
  x :: "num option"
  y :: "num option"
  ex :: "addr option"
  ey :: "addr option"

record heap =
  objs :: "addr \<Rightarrow> obj"
  next_addr :: addr

text \<open>
  What a call can throw: a \<open>TypeError\<close> of the language, an \<open>Error\<close> with its message,
  the failure of \<open>common.assert\<close>.  \<open>Unmodelled\<close> is not thrown by any code: it marks an
  input that the model of a missing helper does not cover.
\<close>

datatype error = TypeError | Error string | AssertionFailed | Unmodelled

type_synonym 'a result = "error + 'a"

definition thn :: "'a result \<Rightarrow> ('a \<Rightarrow> 'b result) \<Rightarrow> 'b result" where
  "thn m f = (case m of Inl e \<Rightarrow> Inl e | Inr v \<Rightarrow> f v)"

definition empty_obj :: obj where
  "empty_obj = \<lparr>x = None, y = None, ex = None, ey = None\<rparr>"

text \<open>A new object takes the next free address.\<close>

definition alloc :: "heap \<Rightarrow> obj \<Rightarrow> addr \<times> heap" where
  "alloc h ob = (next_addr h, \<lparr>objs = (objs h)(next_addr h := ob), next_addr = Suc (next_addr h)\<rparr>)"

definition upd :: "heap \<Rightarrow> addr \<Rightarrow> (obj \<Rightarrow> obj) \<Rightarrow> heap" where
  "upd h a f = h\<lparr>objs := (objs h)(a := f (objs h a))\<rparr>"

definition truthy :: "val \<Rightarrow> bool" where
  "truthy v = (case v of Undefined \<Rightarrow> False | Null \<Rightarrow> False
               | Num n \<Rightarrow> n \<noteq> NaN \<and> n \<noteq> Fin 0 | Str s \<Rightarrow> s \<noteq> [] | Ref a \<Rightarrow> True)"

definition typeof :: "val \<Rightarrow> string" where
  "typeof v = (case v of Undefined \<Rightarrow> ''undefined'' | Null \<Rightarrow> ''object''
               | Num n \<Rightarrow> ''number'' | Str s \<Rightarrow> ''string'' | Ref a \<Rightarrow> ''object'')"

text \<open>
  Reading a property: \<open>v.ex\<close> and \<open>v.ey\<close> give a reference or \<open>undefined\<close>;
  reading from \<open>undefined\<close> or \<open>null\<close> throws a \<open>TypeError\<close>, reading from a
  number or a string gives \<open>undefined\<close>.
\<close>

definition ref_val :: "addr option \<Rightarrow> val" where
  "ref_val r = (case r of None \<Rightarrow> Undefined | Some a \<Rightarrow> Ref a)"

definition get_ref :: "(obj \<Rightarrow> addr option) \<Rightarrow> heap \<Rightarrow> val \<Rightarrow> val result" where
  "get_ref fld h v =
     (case v of Undefined \<Rightarrow> Inl TypeError | Null \<Rightarrow> Inl TypeError
      | Ref a \<Rightarrow> Inr (ref_val (fld (objs h a))) | _ \<Rightarrow> Inr Undefined)"

text \<open>
  The properties \<open>x\<close> and \<open>y\<close> are read for arithmetic only, where JavaScript
  converts the operand to a number: an absent property (\<open>undefined\<close>) is \<open>NaN\<close>.
  \<open>get_num\<close> is the property read followed by that conversion.
\<close>

definition to_number :: "num option \<Rightarrow> num" where
  "to_number n = (case n of None \<Rightarrow> NaN | Some m \<Rightarrow> m)"

definition get_num :: "(obj \<Rightarrow> num option) \<Rightarrow> heap \<Rightarrow> val \<Rightarrow> num result" where
  "get_num fld h v =
     (case v of Undefined \<Rightarrow> Inl TypeError | Null \<Rightarrow> Inl TypeError
      | Ref a \<Rightarrow> Inr (to_number (fld (objs h a))) | _ \<Rightarrow> Inr NaN)"

text \<open>
  Writing a property \<open>v.x = n\<close>: a \<open>TypeError\<close> on \<open>undefined\<close> and \<open>null\<close>, no
  effect on a number or a string.
\<close>

definition set_prop :: "(obj \<Rightarrow> obj) \<Rightarrow> heap \<Rightarrow> val \<Rightarrow> heap result" where
  "set_prop f h v =
     (case v of Undefined \<Rightarrow> Inl TypeError | Null \<Rightarrow> Inl TypeError
      | Ref a \<Rightarrow> Inr (upd h a f) | _ \<Rightarrow> Inr h)"

text \<open>The paths \<open>m.ex.x\<close>, \<open>m.ey.x\<close>, \<open>m.ex.y\<close>, \<open>m.ey.y\<close>, read and written.\<close>

definition ex_x :: "heap \<Rightarrow> val \<Rightarrow> num result" where
  "ex_x h m = thn (get_ref ex h m) (get_num x h)"

definition ey_x :: "heap \<Rightarrow> val \<Rightarrow> num result" where
  "ey_x h m = thn (get_ref ey h m) (get_num x h)"

definition ex_y :: "heap \<Rightarrow> val \<Rightarrow> num result" where
  "ex_y h m = thn (get_ref ex h m) (get_num y h)"

definition ey_y :: "heap \<Rightarrow> val \<Rightarrow> num result" where
  "ey_y h m = thn (get_ref ey h m) (get_num y h)"

definition set_ex_x :: "heap \<Rightarrow> val \<Rightarrow> num \<Rightarrow> heap result" where
  "set_ex_x h m n = thn (get_ref ex h m) (set_prop (\<lambda>ob. ob\<lparr>x := Some n\<rparr>) h)"

definition set_ey_x :: "heap \<Rightarrow> val \<Rightarrow> num \<Rightarrow> heap result" where
  "set_ey_x h m n = thn (get_ref ey h m) (set_prop (\<lambda>ob. ob\<lparr>x := Some n\<rparr>) h)"

definition set_ex_y :: "heap \<Rightarrow> val \<Rightarrow> num \<Rightarrow> heap result" where
  "set_ex_y h m n = thn (get_ref ex h m) (set_prop (\<lambda>ob. ob\<lparr>y := Some n\<rparr>) h)"

definition set_ey_y :: "heap \<Rightarrow> val \<Rightarrow> num \<Rightarrow> heap result" where
  "set_ey_y h m n = thn (get_ref ey h m) (set_prop (\<lambda>ob. ob\<lparr>y := Some n\<rparr>) h)"

section \<open>The companion vector type\<close>

text \<open>
  \<open>Mat22.js\<close> requires the modules \<open>Vec2\<close> and \<open>common\<close>, whose source files are not
  available here.  What \<open>Mat22\<close> uses of them is modelled from the specification, which
  describes \<open>Vec2\<close> as a 2D vector with \<open>x\<close>/\<open>y\<close> components, construction, cloning,
  element-wise absolute value, dot product, addition and a validity predicate.  The
  specification gives the vector type no product: \<open>Vec2.mul\<close>, which \<open>Mat22.mul\<close> calls,
  is not modelled but taken as a parameter of \<open>Mat22.mul\<close>.
\<close>

text \<open>
  Modelled from the spec: \<open>Vec2.isValid(v)\<close>, missing with \<open>Vec2\<close>; a vector is valid
  iff its components are finite, non-NaN numbers.
\<close>

definition Vec2_isValid :: "heap \<Rightarrow> val \<Rightarrow> bool" where
  "Vec2_isValid h v =
     (case v of Ref a \<Rightarrow>
        (case (x (objs h a), y (objs h a)) of
           (Some m, Some n) \<Rightarrow> is_finite m \<and> is_finite n | _ \<Rightarrow> False)
      | _ \<Rightarrow> False)"

text \<open>
  Modelled from the spec: \<open>Vec2.assert(v)\<close>, missing with \<open>Vec2\<close>; it raises when
  \<open>Vec2.isValid\<close> fails, as \<open>Mat22.assert\<close> does for matrices.
\<close>

definition Vec2_assert :: "heap \<Rightarrow> val \<Rightarrow> unit result" where
  "Vec2_assert h v = (if \<not> Vec2_isValid h v then Inl (Error ''Invalid Vec2!'') else Inr ())"

text \<open>
  Modelled from the spec: the constructor of \<open>Vec2\<close>, missing with it; \<open>Vec2(x, y)\<close> and
  \<open>new Vec2(x, y)\<close> build a vector from two numbers, and from no arguments the zero
  vector.  Other argument shapes are not described; the model answers \<open>Unmodelled\<close>.
\<close>

definition Vec2_new :: "heap \<Rightarrow> val \<Rightarrow> val \<Rightarrow> (addr \<times> heap) result" where
  "Vec2_new h a b =
     (case (a, b) of
        (Undefined, _) \<Rightarrow> Inr (alloc h (empty_obj\<lparr>x := Some (Fin 0), y := Some (Fin 0)\<rparr>))
      | (Num m, Num n) \<Rightarrow> Inr (alloc h (empty_obj\<lparr>x := Some m, y := Some n\<rparr>))
      | _ \<Rightarrow> Inl Unmodelled)"

text \<open>
  Modelled from the spec: \<open>Vec2.clone(v)\<close>, missing with \<open>Vec2\<close>; it copies the
  components of \<open>v\<close> into a new vector.
\<close>

definition Vec2_clone :: "heap \<Rightarrow> val \<Rightarrow> (addr \<times> heap) result" where
  "Vec2_clone h v =
     (case v of Undefined \<Rightarrow> Inl TypeError | Null \<Rightarrow> Inl TypeError
      | Ref a \<Rightarrow> Inr (alloc h (empty_obj\<lparr>x := x (objs h a), y := y (objs h a)\<rparr>))
      | _ \<Rightarrow> Inr (alloc h empty_obj))"

text \<open>
  Modelled from the spec: \<open>Vec2.dot(v, w)\<close>, missing with \<open>Vec2\<close>; the dot product
  \<open>v.x * w.x + v.y * w.y\<close>.
\<close>

definition Vec2_dot :: "heap \<Rightarrow> val \<Rightarrow> val \<Rightarrow> num result" where
  "Vec2_dot h v w =
     thn (get_num x h v) (\<lambda>vx.
     thn (get_num x h w) (\<lambda>wx.
     thn (get_num y h v) (\<lambda>vy.
     thn (get_num y h w) (\<lambda>wy.
     Inr (js_add (js_mul vx wx) (js_mul vy wy))))))"

definition js_abs :: "num \<Rightarrow> num" where
  "js_abs n = (case n of NaN \<Rightarrow> NaN | PInf \<Rightarrow> PInf | NInf \<Rightarrow> PInf | Fin q \<Rightarrow> Fin \<bar>q\<bar>)"

text \<open>
  Modelled from the spec: \<open>Vec2.abs(v)\<close>, missing with \<open>Vec2\<close>; a new vector with the
  absolute values of the components of \<open>v\<close>.
\<close>

definition Vec2_abs :: "heap \<Rightarrow> val \<Rightarrow> (addr \<times> heap) result" where
  "Vec2_abs h v =
     thn (get_num x h v) (\<lambda>vx.
     thn (get_num y h v) (\<lambda>vy.
     Vec2_new h (Num (js_abs vx)) (Num (js_abs vy))))"

text \<open>
  Modelled from the spec: \<open>Vec2.add(v, w)\<close>, missing with \<open>Vec2\<close>; the vector addition
  of its two arguments, a new vector \<open>(v.x + w.x, v.y + w.y)\<close>.
\<close>

definition Vec2_add :: "heap \<Rightarrow> val \<Rightarrow> val \<Rightarrow> (addr \<times> heap) result" where
  "Vec2_add h v w =
     thn (get_num x h v) (\<lambda>vx.
     thn (get_num x h w) (\<lambda>wx.
     thn (get_num y h v) (\<lambda>vy.
     thn (get_num y h w) (\<lambda>wy.
     Vec2_new h (Num (js_add vx wx)) (Num (js_add vy wy))))))"

text \<open>
  Modelled from the spec: \<open>common.assert(c)\<close>, missing with the module \<open>common\<close>; the
  shared assertion helper, whose failure is fatal in a debug (assertion-enabled) build and
  which is compiled out otherwise.  The flag \<open>dbg\<close> is the build configuration.
\<close>

definition common_assert :: "bool \<Rightarrow> bool \<Rightarrow> unit result" where
  "common_assert dbg c = (if dbg \<and> \<not> c then Inl AssertionFailed else Inr ())"

text \<open>
  The operator \<open>+\<close> on two objects converts both to strings and concatenates them.  The
  text of a vector is produced by \<open>Vec2.prototype.toString\<close>, which is not part of the
  sources at hand; it is the parameter \<open>str\<close>.  Only the case of two objects occurs in
  \<open>Mat22\<close>.
\<close>

definition js_plus :: "(heap \<Rightarrow> addr \<Rightarrow> string) \<Rightarrow> heap \<Rightarrow> val \<Rightarrow> val \<Rightarrow> val result" where
  "js_plus str h v w =
     (case (v, w) of
        (Ref a, Ref b) \<Rightarrow> Inr (Str (str h a @ str h b))
      | (Num m, Num n) \<Rightarrow> Inr (Num (js_add m n))
      | _ \<Rightarrow> Inl Unmodelled)"

text \<open>
  The operator \<open>in\<close>: \<open>'x' in v\<close> throws a \<open>TypeError\<close> unless \<open>v\<close> is an object.
\<close>

definition has_prop :: "(obj \<Rightarrow> 'a option) \<Rightarrow> heap \<Rightarrow> val \<Rightarrow> bool result" where
  "has_prop fld h v = (case v of Ref a \<Rightarrow> Inr (fld (objs h a) \<noteq> None) | _ \<Rightarrow> Inl TypeError)"

text \<open>The tests \<open>v && 'x' in v && 'y' in v\<close> and \<open>v && 'ex' in v && 'ey' in v\<close>.\<close>

definition has_x_y :: "heap \<Rightarrow> val \<Rightarrow> bool result" where
  "has_x_y h v =
     (if \<not> truthy v then Inr False
      else thn (has_prop x h v) (\<lambda>b. if \<not> b then Inr False else has_prop y h v))"

definition has_ex_ey :: "heap \<Rightarrow> val \<Rightarrow> bool result" where
  "has_ex_ey h v =
     (if \<not> truthy v then Inr False
      else thn (has_prop ex h v) (\<lambda>b. if \<not> b then Inr False else has_prop ey h v))"

section \<open>Mat22\<close>

text \<open>
  \<open>new Mat22(a, b, c, d)\<close>: the new object is allocated, then the constructor body
  runs.  A missing argument is \<open>undefined\<close>.
\<close>

definition Mat22_new :: "heap \<Rightarrow> val \<Rightarrow> val \<Rightarrow> val \<Rightarrow> val \<Rightarrow> (val \<times> heap) result" where
  "Mat22_new h a b c d =
     (let (this, h0) = alloc h empty_obj in
      if typeof a = ''object'' \<and> a \<noteq> Null then
        thn (Vec2_clone h0 a) (\<lambda>(c1, h1).
        thn (Vec2_clone (upd h1 this (\<lambda>ob. ob\<lparr>ex := Some c1\<rparr>)) b) (\<lambda>(c2, h2).
        Inr (Ref this, upd h2 this (\<lambda>ob. ob\<lparr>ey := Some c2\<rparr>))))
      else if typeof a = ''number'' then
        thn (Vec2_new h0 a c) (\<lambda>(c1, h1).
        thn (Vec2_new (upd h1 this (\<lambda>ob. ob\<lparr>ex := Some c1\<rparr>)) b d) (\<lambda>(c2, h2).
        Inr (Ref this, upd h2 this (\<lambda>ob. ob\<lparr>ey := Some c2\<rparr>))))
      else
        thn (Vec2_new h0 Undefined Undefined) (\<lambda>(c1, h1).
        thn (Vec2_new (upd h1 this (\<lambda>ob. ob\<lparr>ex := Some c1\<rparr>)) Undefined Undefined) (\<lambda>(c2, h2).
        Inr (Ref this, upd h2 this (\<lambda>ob. ob\<lparr>ey := Some c2\<rparr>)))))"

text \<open>
  \<open>Mat22.isValid(o)\<close> is \<open>o && Vec2.isValid(o.ex) && Vec2.isValid(o.ey)\<close>; \<open>o.ex\<close> is
  read from a truthy \<open>o\<close> only, so the read cannot throw.
\<close>

definition prop_ref :: "(obj \<Rightarrow> addr option) \<Rightarrow> heap \<Rightarrow> val \<Rightarrow> val" where
  "prop_ref fld h v = (case v of Ref a \<Rightarrow> ref_val (fld (objs h a)) | _ \<Rightarrow> Undefined)"

definition Mat22_isValid :: "heap \<Rightarrow> val \<Rightarrow> bool" where
  "Mat22_isValid h ob =
     (truthy ob \<and> Vec2_isValid h (prop_ref ex h ob) \<and> Vec2_isValid h (prop_ref ey h ob))"

definition Mat22_assert :: "heap \<Rightarrow> val \<Rightarrow> unit result" where
  "Mat22_assert h ob = (if \<not> Mat22_isValid h ob then Inl (Error ''Invalid Mat22!'') else Inr ())"

text \<open>
  \<open>Mat22.prototype.setIdentity\<close> and \<open>Mat22.prototype.setZero\<close>.  (The polymorphic
  \<open>Mat22.prototype.set\<close> and \<open>toString\<close> are not embedded.)
\<close>

definition setIdentity :: "heap \<Rightarrow> val \<Rightarrow> heap result" where
  "setIdentity h this =
     thn (set_ex_x h this (Fin 1)) (\<lambda>h1.
     thn (set_ey_x h1 this (Fin 0)) (\<lambda>h2.
     thn (set_ex_y h2 this (Fin 0)) (\<lambda>h3.
     set_ey_y h3 this (Fin 1))))"

definition setZero :: "heap \<Rightarrow> val \<Rightarrow> heap result" where
  "setZero h this =
     thn (set_ex_x h this (Fin 0)) (\<lambda>h1.
     thn (set_ey_x h1 this (Fin 0)) (\<lambda>h2.
     thn (set_ex_y h2 this (Fin 0)) (\<lambda>h3.
     set_ey_y h3 this (Fin 0))))"

text \<open>\<open>Mat22.prototype.getInverse\<close>, with receiver \<open>this\<close>.\<close>

definition getInverse :: "heap \<Rightarrow> val \<Rightarrow> (val \<times> heap) result" where
  "getInverse h this =
     thn (ex_x h this) (\<lambda>a.
     thn (ey_x h this) (\<lambda>b.
     thn (ex_y h this) (\<lambda>c.
     thn (ey_y h this) (\<lambda>d.
     let det0 = js_sub (js_mul a d) (js_mul b c);
         det = (if js_neq det0 (Fin 0) then js_div (Fin 1) det0 else det0)
     in
     thn (Mat22_new h Undefined Undefined Undefined Undefined) (\<lambda>(imx, h1).
     thn (set_ex_x h1 imx (js_mul det d)) (\<lambda>h2.
     thn (set_ey_x h2 imx (js_mul (js_neg det) b)) (\<lambda>h3.
     thn (set_ex_y h3 imx (js_mul (js_neg det) c)) (\<lambda>h4.
     thn (set_ey_y h4 imx (js_mul det a)) (\<lambda>h5.
     Inr (imx, h5))))))))))"

text \<open>\<open>Mat22.prototype.solve\<close>, with receiver \<open>this\<close>.\<close>

definition solve :: "heap \<Rightarrow> val \<Rightarrow> val \<Rightarrow> (val \<times> heap) result" where
  "solve h this v =
     thn (Vec2_assert h v) (\<lambda>_.
     thn (ex_x h this) (\<lambda>a.
     thn (ey_x h this) (\<lambda>b.
     thn (ex_y h this) (\<lambda>c.
     thn (ey_y h this) (\<lambda>d.
     let det0 = js_sub (js_mul a d) (js_mul b c);
         det = (if js_neq det0 (Fin 0) then js_div (Fin 1) det0 else det0)
     in
     thn (Vec2_new h Undefined Undefined) (\<lambda>(w, h1).
     thn (get_num x h1 v) (\<lambda>vx.
     thn (get_num y h1 v) (\<lambda>vy.
     thn (set_prop (\<lambda>ob. ob\<lparr>x := Some (js_mul det (js_sub (js_mul d vx) (js_mul b vy)))\<rparr>) h1 (Ref w)) (\<lambda>h2.
     thn (get_num y h2 v) (\<lambda>vy'.
     thn (get_num x h2 v) (\<lambda>vx'.
     thn (set_prop (\<lambda>ob. ob\<lparr>y := Some (js_mul det (js_sub (js_mul a vy') (js_mul c vx')))\<rparr>) h2 (Ref w)) (\<lambda>h3.
     Inr (Ref w, h3)))))))))))))"

text \<open>
  \<open>Mat22.mul(mx, v)\<close>.  The parameter \<open>vmul\<close> is \<open>Vec2.mul\<close>, called in the matrix
  branch as \<open>Vec2.mul(mx, v.ex)\<close> and \<open>Vec2.mul(mx, v.ey)\<close>: a function of the heap and
  its two arguments that raises or returns a value and a heap.  When neither test succeeds
  the function falls through to \<open>common.assert(false)\<close> and, where that returns, to the end
  of the body: the result is \<open>undefined\<close>.
\<close>

definition Mat22_mul ::
  "(heap \<Rightarrow> val \<Rightarrow> val \<Rightarrow> (val \<times> heap) result) \<Rightarrow> bool \<Rightarrow> heap \<Rightarrow> val \<Rightarrow> val \<Rightarrow> (val \<times> heap) result"
  where
  "Mat22_mul vmul dbg h mx v =
     thn (has_x_y h v) (\<lambda>is_vec.
     if is_vec then
       thn (Vec2_assert h v) (\<lambda>_.
       thn (ex_x h mx) (\<lambda>a.
       thn (get_num x h v) (\<lambda>vx.
       thn (ey_x h mx) (\<lambda>b.
       thn (get_num y h v) (\<lambda>vy.
       thn (ex_y h mx) (\<lambda>c.
       thn (get_num x h v) (\<lambda>vx'.
       thn (ey_y h mx) (\<lambda>d.
       thn (get_num y h v) (\<lambda>vy'.
       thn (Vec2_new h (Num (js_add (js_mul a vx) (js_mul b vy)))
                       (Num (js_add (js_mul c vx') (js_mul d vy')))) (\<lambda>(w, h1).
       Inr (Ref w, h1)))))))))))
     else
       thn (has_ex_ey h v) (\<lambda>is_mat.
       if is_mat then
         thn (Mat22_assert h v) (\<lambda>_.
         thn (get_ref ex h v) (\<lambda>vex.
         thn (vmul h mx vex) (\<lambda>(c1, h1).
         thn (get_ref ey h1 v) (\<lambda>vey.
         thn (vmul h1 mx vey) (\<lambda>(c2, h2).
         Mat22_new h2 c1 c2 Undefined Undefined)))))
       else
         thn (common_assert dbg False) (\<lambda>_. Inr (Undefined, h))))"

text \<open>\<open>Mat22.mulT(mx, v)\<close>.\<close>

definition Mat22_mulT :: "bool \<Rightarrow> heap \<Rightarrow> val \<Rightarrow> val \<Rightarrow> (val \<times> heap) result" where
  "Mat22_mulT dbg h mx v =
     thn (has_x_y h v) (\<lambda>is_vec.
     if is_vec then
       thn (Vec2_assert h v) (\<lambda>_.
       thn (get_ref ex h mx) (\<lambda>mex.
       thn (Vec2_dot h v mex) (\<lambda>p.
       thn (get_ref ey h mx) (\<lambda>mey.
       thn (Vec2_dot h v mey) (\<lambda>q.
       thn (Vec2_new h (Num p) (Num q)) (\<lambda>(w, h1).
       Inr (Ref w, h1)))))))
     else
       thn (has_ex_ey h v) (\<lambda>is_mat.
       if is_mat then
         thn (Mat22_assert h v) (\<lambda>_.
         thn (get_ref ex h mx) (\<lambda>mex.
         thn (get_ref ex h v) (\<lambda>vex.
         thn (Vec2_dot h mex vex) (\<lambda>p1.
         thn (get_ref ey h mx) (\<lambda>mey.
         thn (get_ref ex h v) (\<lambda>vex'.
         thn (Vec2_dot h mey vex') (\<lambda>q1.
         thn (Vec2_new h (Num p1) (Num q1)) (\<lambda>(c1, h1).
         thn (get_ref ex h1 mx) (\<lambda>mex'.
         thn (get_ref ey h1 v) (\<lambda>vey.
         thn (Vec2_dot h1 mex' vey) (\<lambda>p2.
         thn (get_ref ey h1 mx) (\<lambda>mey'.
         thn (get_ref ey h1 v) (\<lambda>vey'.
         thn (Vec2_dot h1 mey' vey') (\<lambda>q2.
         thn (Vec2_new h1 (Num p2) (Num q2)) (\<lambda>(c2, h2).
         Mat22_new h2 (Ref c1) (Ref c2) Undefined Undefined)))))))))))))))
       else
         thn (common_assert dbg False) (\<lambda>_. Inr (Undefined, h))))"

text \<open>\<open>Mat22.abs(mx)\<close>.\<close>

definition Mat22_abs :: "heap \<Rightarrow> val \<Rightarrow> (val \<times> heap) result" where
  "Mat22_abs h mx =
     thn (Mat22_assert h mx) (\<lambda>_.
     thn (get_ref ex h mx) (\<lambda>mex.
     thn (Vec2_abs h mex) (\<lambda>(c1, h1).
     thn (get_ref ey h1 mx) (\<lambda>mey.
     thn (Vec2_abs h1 mey) (\<lambda>(c2, h2).
     Mat22_new h2 (Ref c1) (Ref c2) Undefined Undefined)))))"

text \<open>
  \<open>Mat22.add(mx1, mx2)\<close>.  Each call of \<open>Vec2.add\<close> receives one argument, the
  value of \<open>mx1.ex + mx2.ex\<close> (and of \<open>mx1.ey + mx2.ey\<close>); its second parameter is
  \<open>undefined\<close>.
\<close>

definition Mat22_add :: "(heap \<Rightarrow> addr \<Rightarrow> string) \<Rightarrow> heap \<Rightarrow> val \<Rightarrow> val \<Rightarrow> (val \<times> heap) result" where
  "Mat22_add str h mx1 mx2 =
     thn (Mat22_assert h mx1) (\<lambda>_.
     thn (Mat22_assert h mx2) (\<lambda>_.
     thn (get_ref ex h mx1) (\<lambda>e1.
     thn (get_ref ex h mx2) (\<lambda>e2.
     thn (js_plus str h e1 e2) (\<lambda>s1.
     thn (Vec2_add h s1 Undefined) (\<lambda>(c1, h1).
     thn (get_ref ey h1 mx1) (\<lambda>f1.
     thn (get_ref ey h1 mx2) (\<lambda>f2.
     thn (js_plus str h1 f1 f2) (\<lambda>s2.
     thn (Vec2_add h1 s2 Undefined) (\<lambda>(c2, h2).
     Mat22_new h2 (Ref c1) (Ref c2) Undefined Undefined))))))))))"

section \<open>Reading vectors and matrices off the heap\<close>

text \<open>
  \<open>vec_of h v\<close> is the pair \<open>(x, y)\<close> of components when \<open>v\<close> refers to an allocated
  object with both; \<open>mat_of h m\<close> is the pair of columns \<open>(ex, ey)\<close> when \<open>m\<close> refers to
  an allocated object whose \<open>ex\<close> and \<open>ey\<close> are such vectors.
\<close>

definition vec_of :: "heap \<Rightarrow> val \<Rightarrow> (num \<times> num) option" where
  "vec_of h v =
     (case v of Ref a \<Rightarrow>
        (if a < next_addr h then
           (case (x (objs h a), y (objs h a)) of
              (Some m, Some n) \<Rightarrow> Some (m, n) | _ \<Rightarrow> None)
         else None)
      | _ \<Rightarrow> None)"

definition mat_of :: "heap \<Rightarrow> val \<Rightarrow> ((num \<times> num) \<times> (num \<times> num)) option" where
  "mat_of h m =
     (case m of Ref a \<Rightarrow>
        (if a < next_addr h then
           (case (ex (objs h a), ey (objs h a)) of
              (Some c1, Some c2) \<Rightarrow>
                (case (vec_of h (Ref c1), vec_of h (Ref c2)) of
                   (Some u, Some w) \<Rightarrow> Some (u, w) | _ \<Rightarrow> None)
            | _ \<Rightarrow> None)
         else None)
      | _ \<Rightarrow> None)"

text \<open>The value of \<open>det\<close> in \<open>getInverse\<close> and \<open>solve\<close> after the test \<open>det != 0.0\<close>.\<close>

definition recip_det :: "num \<Rightarrow> num \<Rightarrow> num \<Rightarrow> num \<Rightarrow> num" where
  "recip_det a b c d =
     (let det = js_sub (js_mul a d) (js_mul b c)
      in if js_neq det (Fin 0) then js_div (Fin 1) det else det)"

text \<open>
  \<open>keeps h h'\<close>: the heap \<open>h'\<close> holds every object of \<open>h\<close>, unchanged.
  \<open>is_new h h' v\<close>: \<open>v\<close> refers to an object allocated after \<open>h\<close>.
\<close>

definition keeps :: "heap \<Rightarrow> heap \<Rightarrow> bool" where
  "keeps h h' \<longleftrightarrow> next_addr h \<le> next_addr h' \<and> (\<forall>a<next_addr h. objs h' a = objs h a)"

definition is_new :: "heap \<Rightarrow> heap \<Rightarrow> val \<Rightarrow> bool" where
  "is_new h h' v = (case v of Ref a \<Rightarrow> next_addr h \<le> a \<and> a < next_addr h' | _ \<Rightarrow> False)"

text \<open>
  Heaps for examples: the heap with no object, and the heap that holds the objects \<open>obs\<close>
  at the addresses \<open>0\<close>, \<open>1\<close>, ...; a vector object with components \<open>m\<close>, \<open>n\<close> and a
  matrix object with the column objects at \<open>c1\<close>, \<open>c2\<close>.
\<close>

definition heap0 :: heap where
  "heap0 = \<lparr>objs = (\<lambda>a. empty_obj), next_addr = 0\<rparr>"

definition heap_of :: "obj list \<Rightarrow> heap" where
  "heap_of obs =
     \<lparr>objs = (\<lambda>a. if a < length obs then obs ! a else empty_obj), next_addr = length obs\<rparr>"

definition vec_obj :: "num \<Rightarrow> num \<Rightarrow> obj" where
  "vec_obj m n = empty_obj\<lparr>x := Some m, y := Some n\<rparr>"

definition mat_obj :: "addr \<Rightarrow> addr \<Rightarrow> obj" where
  "mat_obj c1 c2 = empty_obj\<lparr>ex := Some c1, ey := Some c2\<rparr>"

text \<open>
  For the examples, an instance of the parameter \<open>vmul\<close> of \<open>Mat22_mul\<close>: a product that
  validates its first operand like \<open>Vec2.assert\<close>, which is what the specification asks of
  an operation that is passed a vector in an assertion-enabled build, and whose result for
  a valid vector is left open.
\<close>

definition vmul_checked :: "heap \<Rightarrow> val \<Rightarrow> val \<Rightarrow> (val \<times> heap) result" where
  "vmul_checked h a b = thn (Vec2_assert h a) (\<lambda>_. Inl Unmodelled)"

text \<open>The vector, or the matrix, that a call returned.\<close>

definition result_vec :: "(val \<times> heap) result \<Rightarrow> (num \<times> num) option" where
  "result_vec r = (case r of Inl e \<Rightarrow> None | Inr (v, h) \<Rightarrow> vec_of h v)"

definition result_mat :: "(val \<times> heap) result \<Rightarrow> ((num \<times> num) \<times> (num \<times> num)) option" where
  "result_mat r = (case r of Inl e \<Rightarrow> None | Inr (v, h) \<Rightarrow> mat_of h v)"

text \<open>A finite number of the model is a binary64 value when rounding leaves it as it is.\<close>

definition is_double :: "num \<Rightarrow> bool" where
  "is_double n = (case n of Fin q \<Rightarrow> round64 q = Fin q | _ \<Rightarrow> True)"

text \<open>
  A matrix is orthonormal when its components are finite and its columns have length one
  and are orthogonal, in exact arithmetic.
\<close>

definition orthonormal :: "(num \<times> num) \<times> (num \<times> num) \<Rightarrow> bool" where
  "orthonormal u =
     (case u of
        ((Fin a, Fin c), (Fin b, Fin d)) \<Rightarrow>
          a * a + c * c = 1 \<and> b * b + d * d = 1 \<and> a * b + c * d = 0
      | _ \<Rightarrow> False)"

text \<open>
  A matrix is orthonormal up to rounding when its components are finite and its columns
  have length one and are orthogonal up to \<open>2\<^sup>-\<^sup>5\<^sup>0\<close>, in exact arithmetic.  A rotation
  matrix in binary64 is of this kind, its components being the cosine and the sine of an
  angle up to rounding.
\<close>

definition near_orthonormal :: "(num \<times> num) \<times> (num \<times> num) \<Rightarrow> bool" where
  "near_orthonormal u =
     (case u of
        ((Fin a, Fin c), (Fin b, Fin d)) \<Rightarrow>
          \<bar>a * a + c * c - 1\<bar> \<le> 1 / 2 ^ 50 \<and> \<bar>b * b + d * d - 1\<bar> \<le> 1 / 2 ^ 50 \<and>
          \<bar>a * b + c * d\<bar> \<le> 1 / 2 ^ 50
      | _ \<Rightarrow> False)"

section \<open>Properties of rounding\<close>

lemma ilog2_bounds:
  assumes "0 < a"
  shows "2 powi (ilog2 a) \<le> a \<and> a < 2 powi (ilog2 a + 1)"
proof (cases "1 \<le> a")
  case True
  define n where "n = nat \<lfloor>a\<rfloor>"
  have n1: "1 \<le> n" using True by (simp add: n_def le_nat_iff le_floor_iff)
  have a0': "0 \<le> \<lfloor>a\<rfloor>" using True by (simp add: le_floor_iff)
  have na: "of_nat n \<le> a" "a < of_nat n + 1"
    using floor_correct[of a] a0' by (simp_all add: n_def)
  have b: "2 ^ (floorlog 2 n - 1) \<le> n" "n < 2 ^ floorlog 2 n"
    using floorlog_bounds[of n 2] n1 by simp_all
  have fl: "1 \<le> floorlog 2 n" using n1 by (simp add: floorlog_def)
  have e: "ilog2 a = int (floorlog 2 n - 1)"
    using True fl by (simp add: ilog2_def n_def)
  have "(2::rat) ^ (floorlog 2 n - 1) \<le> of_nat n"
    using b(1) by (metis of_nat_le_iff of_nat_numeral of_nat_power)
  hence "(2::rat) ^ (floorlog 2 n - 1) \<le> a" using na(1) by (rule order_trans)
  hence lo: "2 powi (ilog2 a) \<le> a" by (simp add: e)
  have "n + 1 \<le> 2 ^ floorlog 2 n" using b(2) by simp
  hence "(of_nat (n + 1)::rat) \<le> of_nat (2 ^ floorlog 2 n)" by (simp only: of_nat_le_iff)
  hence "(of_nat n + 1::rat) \<le> 2 ^ floorlog 2 n" by simp
  with na(2) have "a < 2 ^ floorlog 2 n" by (rule less_le_trans)
  moreover have "ilog2 a + 1 = int (floorlog 2 n)" using e fl by simp
  ultimately have "a < 2 powi (ilog2 a + 1)" by simp
  with lo show ?thesis by simp
next
  case False
  define b where "b = 1 / a"
  define m where "m = nat (\<lceil>b\<rceil> - 1)"
  define L where "L = floorlog 2 m"
  have b1: "1 < b" using False assms by (simp add: b_def)
  have c2: "2 \<le> \<lceil>b\<rceil>" using b1 by (simp add: le_ceiling_iff)
  have m1: "1 \<le> m" using c2 unfolding m_def by linarith
  have om: "(of_nat m::rat) = of_int \<lceil>b\<rceil> - 1" using c2 unfolding m_def by simp
  have mb: "of_nat m < b" "b \<le> of_nat m + 1"
    using ceiling_correct[of b] unfolding om by simp_all
  have bd: "2 ^ (L - 1) \<le> m" "m < 2 ^ L"
    using floorlog_bounds[of m 2] m1 by (simp_all add: L_def)
  have L1: "1 \<le> L" using m1 by (simp add: L_def floorlog_def)
  have e: "ilog2 a = - int L" using False by (simp add: ilog2_def L_def m_def b_def)
  have "(2::rat) ^ (L - 1) \<le> of_nat m"
    using bd(1) by (metis of_nat_le_iff of_nat_numeral of_nat_power)
  hence lo: "(2::rat) ^ (L - 1) < b" using mb(1) by (rule le_less_trans)
  have "m + 1 \<le> 2 ^ L" using bd(2) by simp
  hence "(of_nat (m + 1)::rat) \<le> of_nat (2 ^ L)" by (simp only: of_nat_le_iff)
  hence "(of_nat m + 1::rat) \<le> 2 ^ L" by simp
  with mb(2) have hi: "b \<le> 2 ^ L" by (rule order_trans)
  have "1 / 2 ^ L \<le> 1 / b" using hi b1 by (simp add: frac_le)
  hence A: "2 powi (ilog2 a) \<le> a" using assms by (simp add: e b_def power_int_minus_divide)
  have "1 / b < 1 / 2 ^ (L - 1)" using lo by (simp add: frac_less2)
  moreover have "ilog2 a + 1 = - int (L - 1)" using e L1 by simp
  ultimately have "a < 2 powi (ilog2 a + 1)" using assms
    by (simp add: b_def power_int_minus_divide)
  with A show ?thesis by simp
qed

lemma pow2_less_imp:
  assumes "(2::rat) powi m < 2 powi n"
  shows "m < n"
proof (rule ccontr)
  assume "\<not> m < n"
  hence "n \<le> m" by simp
  hence "(2::rat) powi n \<le> 2 powi m" by (rule power_int_increasing) simp
  with assms show False by simp
qed

lemma ilog2_unique:
  assumes "2 powi e \<le> a" "a < 2 powi (e + 1)"
  shows "ilog2 a = e"
proof -
  have a0: "0 < a" using assms(1) by (smt (verit) zero_less_power_int zero_less_numeral less_le_trans)
  from ilog2_bounds[OF a0] have b: "2 powi (ilog2 a) \<le> a" "a < 2 powi (ilog2 a + 1)" by simp_all
  have "(2::rat) powi e < 2 powi (ilog2 a + 1)" using assms(1) b(2) by simp
  hence 1: "e < ilog2 a + 1" by (rule pow2_less_imp)
  have "(2::rat) powi (ilog2 a) < 2 powi (e + 1)" using assms(2) b(1) by simp
  hence 2: "ilog2 a < e + 1" by (rule pow2_less_imp)
  from 1 2 show ?thesis by simp
qed


lemma round_half_even_of_int: "round_half_even (of_int n) = n"
  by (simp add: round_half_even_def)

lemma round64_not_NaN: "round64 q \<noteq> NaN"
  by (simp add: round64_def Let_def)

lemma round64_neg: "round64 (- q) = js_neg (round64 q)"
  by (simp add: round64_def Let_def js_neg_def sgn_if)

lemma round64_exact:
  assumes q: "q = of_int m * 2 powi k" and m: "\<bar>m\<bar> < 2 ^ 53" and k: "- 1074 \<le> k" "k \<le> 971"
  shows "round64 q = Fin q"
proof (cases "q = 0")
  case True
  then show ?thesis by (simp add: round64_def)
next
  case False
  define a where "a = \<bar>q\<bar>"
  define e where "e = max (ilog2 a) (- 1022)"
  define j where "j = nat (k - (e - 52))"
  have a0: "0 < a" using False by (simp add: a_def)
  have aq: "a = of_int \<bar>m\<bar> * 2 powi k" by (simp add: a_def q abs_mult power_int_abs)
  have "(of_int \<bar>m\<bar>::rat) < of_int (2 ^ 53)" using m by (simp only: of_int_less_iff)
  hence "a < 2 ^ 53 * 2 powi k" unfolding aq by (simp add: mult_strict_right_mono)
  also have "\<dots> = 2 powi (53 + k)" by (simp add: power_int_add)
  finally have up: "a < 2 powi (53 + k)" .
  have "2 powi (ilog2 a) \<le> a" using ilog2_bounds[OF a0] by simp
  hence "(2::rat) powi (ilog2 a) < 2 powi (53 + k)" using up by (rule le_less_trans)
  hence "ilog2 a < 53 + k" by (rule pow2_less_imp)
  hence ek: "e - 52 \<le> k" using k by (simp add: e_def)
  hence kj: "k = (e - 52) + int j" by (simp add: j_def)
  have pk: "(2::rat) powi k = 2 powi (e - 52) * 2 ^ j"
    by (subst kj) (simp add: power_int_add)
  have div: "a / 2 powi (e - 52) = of_int (\<bar>m\<bar> * 2 ^ j)"
    unfolding aq pk by simp
  have r: "of_int (round_half_even (a / 2 powi (e - 52))) * 2 powi (e - 52) = a"
    unfolding div round_half_even_of_int unfolding aq pk by simp
  have "(2::rat) powi (53 + k) \<le> 2 powi 1024" using k by (intro power_int_increasing) simp_all
  hence lt: "a < 2 powi 1024" using up by simp
  have "sgn q * a = q" by (simp add: a_def sgn_mult_abs)
  thus ?thesis using False lt r
    unfolding round64_def Let_def a_def[symmetric] e_def[symmetric] by simp
qed

lemma round64_pos_eval:
  assumes "2 powi e \<le> q" "q < 2 powi (e + 1)" "- 1022 \<le> e"
  shows "round64 q =
     (let u = 2 powi (e - 52); r = of_int (round_half_even (q / u)) * u
      in if 2 powi 1024 \<le> r then PInf else Fin r)"
proof -
  have q0: "0 < q" using assms(1) by (smt (verit) zero_less_power_int zero_less_numeral less_le_trans)
  have "ilog2 q = e" using assms(1,2) by (rule ilog2_unique)
  thus ?thesis using q0 assms(3) by (simp add: round64_def Let_def)
qed

lemma round64_overflow:
  assumes "2 powi 1024 \<le> \<bar>q\<bar>"
  shows "round64 q = (if 0 < q then PInf else NInf)"
proof -
  define a where "a = \<bar>q\<bar>"
  define e where "e = max (ilog2 a) (- 1022)"
  define u where "u = (2::rat) powi (e - 52)"
  have a0: "0 < a" using assms unfolding a_def
    by (smt (verit) zero_less_power_int zero_less_numeral less_le_trans)
  have q0: "q \<noteq> 0" using a0 by (auto simp: a_def)
  have u0: "0 < u" by (simp add: u_def)
  have b: "2 powi (ilog2 a) \<le> a" "a < 2 powi (ilog2 a + 1)" using ilog2_bounds[OF a0] by simp_all
  have "(2::rat) powi 1024 < 2 powi (ilog2 a + 1)" using assms b(2) unfolding a_def by simp
  hence "1024 < ilog2 a + 1" by (rule pow2_less_imp)
  hence e1: "e = ilog2 a" "1024 \<le> e" by (simp_all add: e_def)
  have pe: "(2::rat) powi e = 2 ^ 52 * u" by (simp add: u_def power_int_diff)
  have "2 ^ 52 * u \<le> a" using b(1) e1 pe by simp
  hence "2 ^ 52 \<le> a / u" using u0 by (simp add: pos_le_divide_eq)
  hence "of_int (2 ^ 52) \<le> a / u" by simp
  hence "2 ^ 52 \<le> \<lfloor>a / u\<rfloor>" by (simp only: le_floor_iff)
  moreover have "\<lfloor>a / u\<rfloor> \<le> round_half_even (a / u)"
    by (simp add: round_half_even_def Let_def)
  ultimately have "2 ^ 52 \<le> round_half_even (a / u)" by (rule order_trans)
  hence "(of_int (2 ^ 52)::rat) \<le> of_int (round_half_even (a / u))" by (simp only: of_int_le_iff)
  hence "2 ^ 52 * u \<le> of_int (round_half_even (a / u)) * u" using u0 by (simp add: mult_right_mono)
  hence "2 powi e \<le> of_int (round_half_even (a / u)) * u" using pe by simp
  moreover have "(2::rat) powi 1024 \<le> 2 powi e" using e1 by (intro power_int_increasing) simp_all
  ultimately have "2 powi 1024 \<le> of_int (round_half_even (a / u)) * u" by (rule order_trans[rotated])
  thus ?thesis using q0
    unfolding round64_def Let_def a_def[symmetric] e_def[symmetric] u_def[symmetric] by simp
qed

section \<open>Heap lemmas\<close>

lemmas access_defs =
  thn_def alloc_def upd_def get_ref_def get_num_def set_prop_def ref_val_def to_number_def
  ex_x_def ex_y_def ey_x_def ey_y_def set_ex_x_def set_ex_y_def set_ey_x_def set_ey_y_def

lemmas example_defs = heap_of_def vec_obj_def mat_obj_def

lemma vec_ofD:
  assumes "vec_of h v = Some (m, n)"
  obtains r where "v = Ref r" "r < next_addr h" "x (objs h r) = Some m" "y (objs h r) = Some n"
  using assms by (auto simp: vec_of_def split: val.splits if_splits option.splits)

lemma mat_ofD:
  assumes "mat_of h m = Some ((a, c), (b, d))"
  obtains r c1 c2 where "m = Ref r" "r < next_addr h"
    "ex (objs h r) = Some c1" "ey (objs h r) = Some c2"
    "c1 < next_addr h" "c2 < next_addr h"
    "x (objs h c1) = Some a" "y (objs h c1) = Some c"
    "x (objs h c2) = Some b" "y (objs h c2) = Some d"
  using assms
  by (auto simp: mat_of_def vec_of_def split: val.splits if_splits option.splits)

lemma mat_of_columns:
  assumes "mat_of h m = Some (u, w)"
  obtains c1 c2 where "get_ref ex h m = Inr (Ref c1)" "get_ref ey h m = Inr (Ref c2)"
    "vec_of h (Ref c1) = Some u" "vec_of h (Ref c2) = Some w"
  using assms
  by (auto simp: mat_of_def get_ref_def ref_val_def split: val.splits if_splits option.splits)

text \<open>A later heap that keeps every object of an earlier one.\<close>

lemma vec_of_mono:
  assumes "vec_of h v = Some u" "next_addr h \<le> next_addr h'"
    "\<And>a. a < next_addr h \<Longrightarrow> objs h' a = objs h a"
  shows "vec_of h' v = Some u"
  using assms by (auto simp: vec_of_def split: val.splits if_splits option.splits)

lemma mat_of_mono:
  assumes "mat_of h m = Some u" "next_addr h \<le> next_addr h'"
    "\<And>a. a < next_addr h \<Longrightarrow> objs h' a = objs h a"
  shows "mat_of h' m = Some u"
  using assms
  by (auto simp: mat_of_def vec_of_def split: val.splits if_splits option.splits)

lemma get_ref_keep:
  assumes "mat_of h v = Some u" "next_addr h \<le> next_addr h'"
    "\<And>a. a < next_addr h \<Longrightarrow> objs h' a = objs h a"
  shows "get_ref fld h' v = get_ref fld h v"
  using assms by (auto simp: mat_of_def get_ref_def split: val.splits if_splits)

lemma Vec2_isValid_iff:
  "Vec2_isValid h (Ref r) \<longleftrightarrow> (\<exists>p q. x (objs h r) = Some (Fin p) \<and> y (objs h r) = Some (Fin q))"
  by (auto simp: Vec2_isValid_def is_finite_def split: option.splits num.splits)

lemma Mat22_new_default:
  "Mat22_new h Undefined Undefined Undefined Undefined =
     Inr (Ref (next_addr h),
          \<lparr>objs = (objs h)
             (next_addr h := empty_obj\<lparr>ex := Some (Suc (next_addr h)), ey := Some (Suc (Suc (next_addr h)))\<rparr>,
              Suc (next_addr h) := empty_obj\<lparr>x := Some (Fin 0), y := Some (Fin 0)\<rparr>,
              Suc (Suc (next_addr h)) := empty_obj\<lparr>x := Some (Fin 0), y := Some (Fin 0)\<rparr>),
           next_addr = Suc (Suc (Suc (next_addr h)))\<rparr>)"
  by (simp add: Mat22_new_def alloc_def typeof_def Vec2_new_def thn_def upd_def fun_upd_twist)

lemma Mat22_new_scalars:
  "Mat22_new h (Num a) (Num b) (Num c) (Num d) =
     Inr (Ref (next_addr h),
          \<lparr>objs = (objs h)
             (next_addr h := empty_obj\<lparr>ex := Some (Suc (next_addr h)), ey := Some (Suc (Suc (next_addr h)))\<rparr>,
              Suc (next_addr h) := empty_obj\<lparr>x := Some a, y := Some c\<rparr>,
              Suc (Suc (next_addr h)) := empty_obj\<lparr>x := Some b, y := Some d\<rparr>),
           next_addr = Suc (Suc (Suc (next_addr h)))\<rparr>)"
  by (simp add: Mat22_new_def alloc_def typeof_def Vec2_new_def thn_def upd_def fun_upd_twist)

lemma mat_of_Mat22_new_scalars:
  "Mat22_new h (Num a) (Num b) (Num c) (Num d) = Inr (m, h') \<Longrightarrow>
     mat_of h' m = Some ((a, c), (b, d))"
  by (auto simp: Mat22_new_scalars mat_of_def vec_of_def empty_obj_def)

lemma Mat22_new_columns:
  assumes "vec_of h (Ref c1) = Some (a, c)" "vec_of h (Ref c2) = Some (b, d)"
  shows "Mat22_new h (Ref c1) (Ref c2) Undefined Undefined =
     Inr (Ref (next_addr h),
          \<lparr>objs = (objs h)
             (next_addr h := empty_obj\<lparr>ex := Some (Suc (next_addr h)), ey := Some (Suc (Suc (next_addr h)))\<rparr>,
              Suc (next_addr h) := empty_obj\<lparr>x := Some a, y := Some c\<rparr>,
              Suc (Suc (next_addr h)) := empty_obj\<lparr>x := Some b, y := Some d\<rparr>),
           next_addr = Suc (Suc (Suc (next_addr h)))\<rparr>)"
proof -
  from assms(1) obtain "c1 < next_addr h" "x (objs h c1) = Some a" "y (objs h c1) = Some c"
    by (auto elim: vec_ofD)
  moreover from assms(2) obtain "c2 < next_addr h" "x (objs h c2) = Some b" "y (objs h c2) = Some d"
    by (auto elim: vec_ofD)
  ultimately show ?thesis
    by (simp add: Mat22_new_def alloc_def typeof_def Vec2_clone_def thn_def upd_def fun_upd_twist)
qed

text \<open>The result of \<open>getInverse\<close> and of \<open>solve\<close>, written out.\<close>

lemma getInverse_result:
  assumes "mat_of h this = Some ((a, c), (b, d))"
  shows "getInverse h this =
     Inr (Ref (next_addr h),
          \<lparr>objs = (objs h)
             (next_addr h := empty_obj\<lparr>ex := Some (Suc (next_addr h)), ey := Some (Suc (Suc (next_addr h)))\<rparr>,
              Suc (next_addr h) := empty_obj
                 \<lparr>x := Some (js_mul (recip_det a b c d) d),
                  y := Some (js_mul (js_neg (recip_det a b c d)) c)\<rparr>,
              Suc (Suc (next_addr h)) := empty_obj
                 \<lparr>x := Some (js_mul (js_neg (recip_det a b c d)) b),
                  y := Some (js_mul (recip_det a b c d) a)\<rparr>),
           next_addr = Suc (Suc (Suc (next_addr h)))\<rparr>)"
  using assms
  apply (rule mat_ofD)
  apply (simp add: getInverse_def Mat22_new_default access_defs recip_det_def Let_def
      empty_obj_def fun_upd_twist)
  done

lemma solve_result:
  assumes "mat_of h this = Some ((a, c), (b, d))" "vec_of h v = Some (Fin p, Fin q)"
  shows "solve h this v =
     Inr (Ref (next_addr h),
          \<lparr>objs = (objs h)
             (next_addr h := empty_obj
                 \<lparr>x := Some (js_mul (recip_det a b c d) (js_sub (js_mul d (Fin p)) (js_mul b (Fin q)))),
                  y := Some (js_mul (recip_det a b c d) (js_sub (js_mul a (Fin q)) (js_mul c (Fin p))))\<rparr>),
           next_addr = Suc (next_addr h)\<rparr>)"
  using assms(1)
  apply (rule mat_ofD)
  using assms(2)
  apply (rule vec_ofD)
  apply (simp add: solve_def Vec2_assert_def Vec2_isValid_iff Vec2_new_def access_defs
      recip_det_def Let_def empty_obj_def)
  done

section \<open>Arithmetic on finite numbers\<close>

lemma js_mul_Fin: "js_mul (Fin p) (Fin q) = round64 (p * q)"
  by (simp add: js_mul_def)

lemma js_add_Fin: "js_add (Fin p) (Fin q) = round64 (p + q)"
  by (simp add: js_add_def)

lemma js_neg_Fin: "js_neg (Fin p) = Fin (- p)"
  by (simp add: js_neg_def)

lemma js_sub_Fin: "js_sub (Fin p) (Fin q) = round64 (p - q)"
  by (simp add: js_sub_def js_neg_def js_add_def)

lemma js_div_Fin: "q \<noteq> 0 \<Longrightarrow> js_div (Fin p) (Fin q) = round64 (p / q)"
  by (simp add: js_div_def)

lemma js_neq_Fin: "js_neq (Fin p) (Fin q) \<longleftrightarrow> p \<noteq> q"
  by (simp add: js_neq_def)

lemmas js_Fin = js_mul_Fin js_add_Fin js_neg_Fin js_sub_Fin js_div_Fin js_neq_Fin

lemma round64_0: "round64 0 = Fin 0"
  by (simp add: round64_def)

lemma round64_of_int: "\<bar>m\<bar> < 2 ^ 53 \<Longrightarrow> round64 (of_int m) = Fin (of_int m)"
  using round64_exact[of "of_int m" m 0] by simp

lemma round64_1: "round64 1 = Fin 1"
  using round64_of_int[of 1] by simp

lemma round64_numeral: "(numeral w :: int) < 2 ^ 53 \<Longrightarrow> round64 (numeral w) = Fin (numeral w)"
  using round64_of_int[of "numeral w"] by simp

lemma round64_neg_numeral:
  "(numeral w :: int) < 2 ^ 53 \<Longrightarrow> round64 (- numeral w) = Fin (- numeral w)"
  using round64_of_int[of "- numeral w"] by simp

lemma round64_neg_1: "round64 (- 1) = Fin (- 1)"
  using round64_of_int[of "- 1"] by simp

lemma round64_half: "round64 (1 / 2) = Fin (1 / 2)"
  using round64_exact[of "1 / 2" 1 "- 1"] by simp

lemma round64_quarter: "round64 (1 / 4) = Fin (1 / 4)"
  using round64_exact[of "1 / 4" 1 "- 2"] by simp

lemmas round64_small =
  round64_0 round64_1 round64_neg_1 round64_numeral round64_neg_numeral round64_half round64_quarter


section \<open>Finite results have finite operands\<close>

lemma js_mul_finite:
  assumes "js_mul m n = Fin r"
  obtains p q where "m = Fin p" "n = Fin q"
  using assms
  by (cases m; cases n) (auto simp: js_mul_def sign_of_def Let_def split: if_splits)

lemma js_add_finite:
  assumes "js_add m n = Fin r"
  obtains p q where "m = Fin p" "n = Fin q"
  using assms
  by (cases m; cases n) (auto simp: js_add_def split: if_splits)

lemma js_neg_finite:
  assumes "js_neg m = Fin r"
  obtains p where "m = Fin p"
  using assms by (cases m) (auto simp: js_neg_def)

lemma js_sub_finite:
  assumes "js_sub m n = Fin r"
  obtains p q where "m = Fin p" "n = Fin q"
  using assms unfolding js_sub_def
  by (elim js_add_finite js_neg_finite) blast

lemma det_finite:
  assumes "js_sub (js_mul a d) (js_mul b c) = Fin r"
  obtains a' b' c' d' where "a = Fin a'" "b = Fin b'" "c = Fin c'" "d = Fin d'"
proof -
  from assms obtain p q where "js_mul a d = Fin p" "js_mul b c = Fin q"
    by (rule js_sub_finite)
  thus ?thesis using that by (elim js_mul_finite) blast
qed

lemma js_mul_zero_cases: "js_mul (Fin 0) t = (if is_finite t then Fin 0 else NaN)"
  by (cases t) (simp_all add: js_mul_def is_finite_def sign_of_def round64_0)

section \<open>The results of the multiplications\<close>

lemma has_x_y_vec:
  assumes "vec_of h v = Some u"
  shows "has_x_y h v = Inr True"
  using assms
  by (auto simp: vec_of_def has_x_y_def has_prop_def truthy_def thn_def
      split: val.splits if_splits option.splits)

lemma Vec2_assert_vec:
  assumes "vec_of h v = Some (Fin p, Fin q)"
  shows "Vec2_assert h v = Inr ()"
  using assms
  by (auto simp: vec_of_def Vec2_assert_def Vec2_isValid_def is_finite_def
      split: val.splits if_splits option.splits)

lemma get_num_vec:
  assumes "vec_of h v = Some (m, n)"
  shows "get_num x h v = Inr m" "get_num y h v = Inr n"
  using assms
  by (auto simp: vec_of_def get_num_def to_number_def split: val.splits if_splits option.splits)

lemma mat_entries:
  assumes "mat_of h m = Some ((a, c), (b, d))"
  shows "ex_x h m = Inr a" "ex_y h m = Inr c" "ey_x h m = Inr b" "ey_y h m = Inr d"
  using assms
  by (auto elim!: mat_ofD simp: access_defs)

lemma Vec2_new_nums:
  "Vec2_new h (Num m) (Num n) =
     Inr (next_addr h,
          \<lparr>objs = (objs h)(next_addr h := empty_obj\<lparr>x := Some m, y := Some n\<rparr>),
           next_addr = Suc (next_addr h)\<rparr>)"
  by (simp add: Vec2_new_def alloc_def)

lemma Mat22_mul_vec_result:
  assumes "mat_of h mx = Some ((a, c), (b, d))" "vec_of h v = Some (Fin p, Fin q)"
  shows "Mat22_mul vmul dbg h mx v =
     Inr (Ref (next_addr h),
          \<lparr>objs = (objs h)
             (next_addr h := empty_obj
                \<lparr>x := Some (js_add (js_mul a (Fin p)) (js_mul b (Fin q))),
                 y := Some (js_add (js_mul c (Fin p)) (js_mul d (Fin q)))\<rparr>),
           next_addr = Suc (next_addr h)\<rparr>)"
  by (simp add: Mat22_mul_def has_x_y_vec[OF assms(2)] Vec2_assert_vec[OF assms(2)]
      get_num_vec[OF assms(2)] mat_entries[OF assms(1)] Vec2_new_nums thn_def)

lemma Vec2_dot_vecs:
  assumes "vec_of h v = Some (m, n)" "vec_of h w = Some (m', n')"
  shows "Vec2_dot h v w = Inr (js_add (js_mul m m') (js_mul n n'))"
  by (simp add: Vec2_dot_def get_num_vec[OF assms(1)] get_num_vec[OF assms(2)] thn_def)

lemma Mat22_mulT_vec_result:
  assumes "mat_of h mx = Some ((a, c), (b, d))" "vec_of h v = Some (Fin p, Fin q)"
  shows "Mat22_mulT dbg h mx v =
     Inr (Ref (next_addr h),
          \<lparr>objs = (objs h)
             (next_addr h := empty_obj
                \<lparr>x := Some (js_add (js_mul (Fin p) a) (js_mul (Fin q) c)),
                 y := Some (js_add (js_mul (Fin p) b) (js_mul (Fin q) d))\<rparr>),
           next_addr = Suc (next_addr h)\<rparr>)"
proof -
  from assms(1) obtain c1 c2 where c: "get_ref ex h mx = Inr (Ref c1)" "get_ref ey h mx = Inr (Ref c2)"
    "vec_of h (Ref c1) = Some (a, c)" "vec_of h (Ref c2) = Some (b, d)"
    by (rule mat_of_columns)
  show ?thesis
    by (simp add: Mat22_mulT_def has_x_y_vec[OF assms(2)] Vec2_assert_vec[OF assms(2)] c(1,2)
        Vec2_dot_vecs[OF assms(2) c(3)] Vec2_dot_vecs[OF assms(2) c(4)] Vec2_new_nums thn_def)
qed

lemma result_vec_alloc:
  "result_vec (Inr (Ref (next_addr h),
      \<lparr>objs = (objs h)(next_addr h := empty_obj\<lparr>x := Some m, y := Some n\<rparr>),
       next_addr = Suc (next_addr h)\<rparr>)) = Some (m, n)"
  by (simp add: result_vec_def vec_of_def empty_obj_def)

text \<open>
  The matrix operand: a valid matrix that is not taken for a vector.  The call is
  \<open>new Mat22(Vec2.mul(mx, v.ex), Vec2.mul(mx, v.ey))\<close>.
\<close>

lemma Mat22_mul_mat_branch:
  assumes v: "mat_of h v = Some ((Fin p1, Fin q1), (Fin p2, Fin q2))"
    and shape: "has_x_y h v = Inr False"
    and vex: "get_ref ex h v = Inr vex"
  shows "Mat22_mul vmul dbg h mx v =
     thn (vmul h mx vex) (\<lambda>(c1, h1).
     thn (get_ref ey h1 v) (\<lambda>vey.
     thn (vmul h1 mx vey) (\<lambda>(c2, h2).
     Mat22_new h2 c1 c2 Undefined Undefined)))"
proof -
  have shape2: "has_ex_ey h v = Inr True"
    using v by (auto simp: mat_of_def has_ex_ey_def has_prop_def truthy_def thn_def
        split: val.splits if_splits option.splits)
  have valid: "Mat22_assert h v = Inr ()"
    using v by (auto simp: mat_of_def vec_of_def Mat22_assert_def Mat22_isValid_def truthy_def
        prop_ref_def ref_val_def Vec2_isValid_def is_finite_def
        split: val.splits if_splits option.splits)
  show ?thesis
    by (simp add: Mat22_mul_def shape shape2 valid vex thn_def)
qed

section \<open>Orthonormal matrices of binary64 numbers\<close>

text \<open>
  A binary64 value is a dyadic rational, and two dyadic rationals whose squares add up to
  one are \<open>0\<close> and \<open>\<plusminus>1\<close>: a sum of two integer squares that is a power of four has one
  square zero.
\<close>

lemma sq_mod4: "(m::int)\<^sup>2 mod 4 = (if even m then 0 else 1)"
proof (cases "even m")
  case True
  then obtain j where "m = 2 * j" by (elim evenE)
  thus ?thesis by (simp add: power2_eq_square)
next
  case False
  then obtain j where "m = 2 * j + 1" by (elim oddE)
  hence "m\<^sup>2 = 4 * (j * j + j) + 1" by (simp add: power2_eq_square algebra_simps)
  moreover have "(4 * t + 1) mod 4 = (1::int)" for t :: int by presburger
  ultimately have "m\<^sup>2 mod 4 = 1" by (simp only:)
  thus ?thesis using False by simp
qed

lemma sum_squares_one:
  fixes m n :: int
  assumes "m\<^sup>2 + n\<^sup>2 = 1"
  shows "(\<bar>m\<bar> = 1 \<and> n = 0) \<or> (m = 0 \<and> \<bar>n\<bar> = 1)"
proof -
  have "m\<^sup>2 \<le> 1" "n\<^sup>2 \<le> 1"
    using assms zero_le_power2[of m] zero_le_power2[of n] by linarith+
  hence "\<bar>m\<bar> \<le> 1" "\<bar>n\<bar> \<le> 1" by (simp_all only: abs_square_le_1)
  hence "m \<in> {-1, 0, 1}" "n \<in> {-1, 0, 1}" by auto
  thus ?thesis using assms by auto
qed

lemma sum_squares_pow4:
  fixes m n :: int
  assumes "m\<^sup>2 + n\<^sup>2 = 4 ^ k"
  shows "(\<bar>m\<bar> = 2 ^ k \<and> n = 0) \<or> (m = 0 \<and> \<bar>n\<bar> = 2 ^ k)"
  using assms
proof (induction k arbitrary: m n)
  case 0
  then show ?case using sum_squares_one[of m n] by simp
next
  case (Suc k)
  hence "(m\<^sup>2 + n\<^sup>2) mod 4 = 0" by simp
  hence "(m\<^sup>2 mod 4 + n\<^sup>2 mod 4) mod 4 = 0" by (simp add: mod_add_eq)
  hence "even m \<and> even n" unfolding sq_mod4 by (auto split: if_splits)
  then obtain i j where ij: "m = 2 * i" "n = 2 * j" by (auto elim!: evenE)
  with Suc.prems have "i\<^sup>2 + j\<^sup>2 = 4 ^ k" by (simp add: power2_eq_square)
  from Suc.IH[OF this] show ?case by (auto simp: ij abs_mult)
qed

lemma double_dyadic:
  assumes "round64 q = Fin q"
  obtains m k where "q = of_int m / 2 ^ k"
proof (cases "q = 0")
  case True
  hence "q = of_int 0 / 2 ^ 0" by simp
  thus ?thesis by (rule that)
next
  case False
  define z where "z = max (ilog2 \<bar>q\<bar>) (- 1022) - 52"
  define n where "n = round_half_even (\<bar>q\<bar> / 2 powi z)"
  have "Fin (sgn q * (of_int n * 2 powi z)) = Fin q"
    using assms False by (simp add: round64_def Let_def z_def n_def split: if_splits)
  hence q: "q = sgn q * (of_int n * 2 powi z)" by simp
  define t :: int where "t = (if 0 < q then 1 else - 1)"
  have "sgn q = of_int t" using False by (simp add: t_def sgn_if)
  with q have q': "q = of_int (t * n) * 2 powi z" by simp
  show ?thesis
  proof (cases "0 \<le> z")
    case True
    hence "(2::rat) powi z = of_int (2 ^ nat z)" by (simp add: power_int_def)
    hence "q = of_int (t * n * 2 ^ nat z) / 2 ^ 0" using q' by simp
    thus ?thesis by (rule that)
  next
    case False
    hence "(2::rat) powi z = 1 / 2 ^ nat (- z)" by (simp add: power_int_def field_simps)
    hence "q = of_int (t * n) / 2 ^ nat (- z)" using q' by simp
    thus ?thesis by (rule that)
  qed
qed

lemma unit_doubles:
  assumes a: "round64 a = Fin a" and c: "round64 c = Fin c" and u: "a * a + c * c = 1"
  shows "(a = 1 \<or> a = - 1) \<and> c = 0 \<or> a = 0 \<and> (c = 1 \<or> c = - 1)"
proof -
  from a obtain m1 k1 where m1: "a = of_int m1 / 2 ^ k1" by (rule double_dyadic)
  from c obtain m2 k2 where m2: "c = of_int m2 / 2 ^ k2" by (rule double_dyadic)
  define K where "K = k1 + k2"
  define M where "M = m1 * 2 ^ k2"
  define N where "N = m2 * 2 ^ k1"
  have a': "a = of_int M / 2 ^ K" by (simp add: m1 M_def K_def power_add)
  have c': "c = of_int N / 2 ^ K" by (simp add: m2 N_def K_def power_add)
  have "(of_int M / 2 ^ K) * (of_int M / 2 ^ K) + (of_int N / 2 ^ K) * (of_int N / 2 ^ K) = (1::rat)"
    using u unfolding a' c' .
  hence "(of_int M * of_int M + of_int N * of_int N) / (2 ^ K * 2 ^ K) = (1::rat)"
    by (simp add: add_divide_distrib)
  hence "(of_int M * of_int M + of_int N * of_int N :: rat) = 2 ^ K * 2 ^ K"
    by simp
  hence "(of_int (M\<^sup>2 + N\<^sup>2) :: rat) = of_int (4 ^ K)"
    by (simp add: power2_eq_square power_mult_distrib[symmetric])
  hence "M\<^sup>2 + N\<^sup>2 = 4 ^ K" by (simp only: of_int_eq_iff)
  from sum_squares_pow4[OF this]
  have "(\<bar>M\<bar> = 2 ^ K \<and> N = 0) \<or> (M = 0 \<and> \<bar>N\<bar> = 2 ^ K)" .
  thus ?thesis
  proof
    assume A: "\<bar>M\<bar> = 2 ^ K \<and> N = 0"
    hence "M = 2 ^ K \<or> M = - (2 ^ K)" by (auto simp: abs_if split: if_splits)
    hence "a = 1 \<or> a = - 1" unfolding a' by auto
    moreover have "c = 0" using A unfolding c' by simp
    ultimately show ?thesis by simp
  next
    assume A: "M = 0 \<and> \<bar>N\<bar> = 2 ^ K"
    hence "N = 2 ^ K \<or> N = - (2 ^ K)" by (auto simp: abs_if split: if_splits)
    hence "c = 1 \<or> c = - 1" unfolding c' by auto
    moreover have "a = 0" using A unfolding a' by simp
    ultimately show ?thesis by simp
  qed
qed

text \<open>Transpose-multiply followed by multiply, on the heap.\<close>

lemma mulT_then_mul:
  assumes M: "mat_of h m = Some ((a, c), (b, d))" and V: "vec_of h v = Some (Fin p, Fin q)"
    and S: "js_add (js_mul (Fin p) a) (js_mul (Fin q) c) = Fin s"
    and T: "js_add (js_mul (Fin p) b) (js_mul (Fin q) d) = Fin t"
  shows "result_vec (thn (Mat22_mulT dbg h m v) (\<lambda>(w, h1). Mat22_mul vmul dbg h1 m w)) =
     Some (js_add (js_mul a (Fin s)) (js_mul b (Fin t)),
           js_add (js_mul c (Fin s)) (js_mul d (Fin t)))"
proof -
  let ?h1 = "\<lparr>objs = (objs h)(next_addr h := empty_obj\<lparr>x := Some (Fin s), y := Some (Fin t)\<rparr>),
              next_addr = Suc (next_addr h)\<rparr>"
  have 1: "Mat22_mulT dbg h m v = Inr (Ref (next_addr h), ?h1)"
    unfolding Mat22_mulT_vec_result[OF M V] S T ..
  have M1: "mat_of ?h1 m = Some ((a, c), (b, d))"
    by (rule mat_of_mono[OF M]) auto
  have W: "vec_of ?h1 (Ref (next_addr h)) = Some (Fin s, Fin t)"
    by (simp add: vec_of_def empty_obj_def)
  show ?thesis
    unfolding 1 thn_def
    by (simp only: sum.case prod.case Mat22_mul_vec_result[OF M1 W] result_vec_alloc)
qed

lemma orthonormal_roundtrip:
  assumes O: "orthonormal ((Fin a, Fin c), (Fin b, Fin d))"
    and D: "round64 a = Fin a" "round64 b = Fin b" "round64 c = Fin c" "round64 d = Fin d"
    and P: "round64 p = Fin p" "round64 q = Fin q"
  shows "\<exists>s t. js_add (js_mul (Fin p) (Fin a)) (js_mul (Fin q) (Fin c)) = Fin s \<and>
               js_add (js_mul (Fin p) (Fin b)) (js_mul (Fin q) (Fin d)) = Fin t \<and>
               js_add (js_mul (Fin a) (Fin s)) (js_mul (Fin b) (Fin t)) = Fin p \<and>
               js_add (js_mul (Fin c) (Fin s)) (js_mul (Fin d) (Fin t)) = Fin q"
proof -
  from O have u: "a * a + c * c = 1" "b * b + d * d = 1" "a * b + c * d = 0"
    by (simp_all add: orthonormal_def)
  have N: "round64 (- p) = Fin (- p)" "round64 (- q) = Fin (- q)"
    by (simp_all add: round64_neg P js_neg_def)
  note A = unit_doubles[OF D(1) D(3) u(1)] and B = unit_doubles[OF D(2) D(4) u(2)]
  show ?thesis
  proof (rule disjE[OF A])
    assume "(a = 1 \<or> a = - 1) \<and> c = 0"
    hence c0: "c = 0" and a1: "a = 1 \<or> a = - 1" by simp_all
    from u(3) c0 a1 have b0: "b = 0" by auto
    with B have d1: "d = 1 \<or> d = - 1" by auto
    from a1 d1 show ?thesis
      by (elim disjE) (simp_all add: c0 b0 js_Fin round64_0 P N)
  next
    assume "a = 0 \<and> (c = 1 \<or> c = - 1)"
    hence a0: "a = 0" and c1: "c = 1 \<or> c = - 1" by simp_all
    from u(3) a0 c1 have d0: "d = 0" by auto
    with B have b1: "b = 1 \<or> b = - 1" by auto
    from c1 b1 show ?thesis
      by (elim disjE) (simp_all add: a0 d0 js_Fin round64_0 P N)
  qed
qed

section \<open>Multiplying a matrix and a vector that were just constructed\<close>

lemma new_mat_vec:
  obtains m v h2 where
    "thn (Mat22_new h0 (Num a) (Num b) (Num c) (Num d))
       (\<lambda>(m, h1). thn (Vec2_new h1 (Num (Fin p)) (Num (Fin q))) (\<lambda>(v, h2). f h2 m (Ref v)))
     = f h2 m (Ref v)"
    "mat_of h2 m = Some ((a, c), (b, d))" "vec_of h2 (Ref v) = Some (Fin p, Fin q)"
proof -
  obtain m h1 where 1: "Mat22_new h0 (Num a) (Num b) (Num c) (Num d) = Inr (m, h1)"
    by (simp add: Mat22_new_scalars)
  hence M: "mat_of h1 m = Some ((a, c), (b, d))"
    by (rule mat_of_Mat22_new_scalars)
  obtain v h2 where 2: "Vec2_new h1 (Num (Fin p)) (Num (Fin q)) = Inr (v, h2)"
    by (simp add: Vec2_new_nums)
  hence V: "vec_of h2 (Ref v) = Some (Fin p, Fin q)"
    and k: "next_addr h1 \<le> next_addr h2" "\<And>a. a < next_addr h1 \<Longrightarrow> objs h2 a = objs h1 a"
    by (auto simp: Vec2_new_nums vec_of_def empty_obj_def)
  have M2: "mat_of h2 m = Some ((a, c), (b, d))"
    using M k by (rule mat_of_mono)
  have "thn (Mat22_new h0 (Num a) (Num b) (Num c) (Num d))
       (\<lambda>(m, h1). thn (Vec2_new h1 (Num (Fin p)) (Num (Fin q))) (\<lambda>(v, h2). f h2 m (Ref v)))
     = f h2 m (Ref v)"
    unfolding 1 thn_def by (simp only: sum.case prod.case 2)
  thus ?thesis using M2 V by (rule that)
qed

lemma mul_of_new:
  "result_vec (thn (Mat22_new h0 (Num a) (Num b) (Num c) (Num d))
       (\<lambda>(m, h1). thn (Vec2_new h1 (Num (Fin p)) (Num (Fin q)))
       (\<lambda>(v, h2). Mat22_mul vmul dbg h2 m (Ref v))))
   = Some (js_add (js_mul a (Fin p)) (js_mul b (Fin q)),
           js_add (js_mul c (Fin p)) (js_mul d (Fin q)))"
proof -
  obtain m v h2 where
    1: "thn (Mat22_new h0 (Num a) (Num b) (Num c) (Num d))
       (\<lambda>(m, h1). thn (Vec2_new h1 (Num (Fin p)) (Num (Fin q)))
       (\<lambda>(v, h2). Mat22_mul vmul dbg h2 m (Ref v))) = Mat22_mul vmul dbg h2 m (Ref v)"
    and M: "mat_of h2 m = Some ((a, c), (b, d))" and V: "vec_of h2 (Ref v) = Some (Fin p, Fin q)"
    by (rule new_mat_vec[where f = "Mat22_mul vmul dbg"])
  show ?thesis
    unfolding 1 Mat22_mul_vec_result[OF M V] by (rule result_vec_alloc)
qed

lemma mulT_of_new:
  "result_vec (thn (Mat22_new h0 (Num a) (Num b) (Num c) (Num d))
       (\<lambda>(m, h1). thn (Vec2_new h1 (Num (Fin p)) (Num (Fin q)))
       (\<lambda>(v, h2). Mat22_mulT dbg h2 m (Ref v))))
   = Some (js_add (js_mul (Fin p) a) (js_mul (Fin q) c),
           js_add (js_mul (Fin p) b) (js_mul (Fin q) d))"
proof -
  obtain m v h2 where
    1: "thn (Mat22_new h0 (Num a) (Num b) (Num c) (Num d))
       (\<lambda>(m, h1). thn (Vec2_new h1 (Num (Fin p)) (Num (Fin q)))
       (\<lambda>(v, h2). Mat22_mulT dbg h2 m (Ref v))) = Mat22_mulT dbg h2 m (Ref v)"
    and M: "mat_of h2 m = Some ((a, c), (b, d))" and V: "vec_of h2 (Ref v) = Some (Fin p, Fin q)"
    by (rule new_mat_vec[where f = "Mat22_mulT dbg"])
  show ?thesis
    unfolding 1 Mat22_mulT_vec_result[OF M V] by (rule result_vec_alloc)
qed

section \<open>Evaluating a rounding, and the inverse applied to a vector\<close>

lemma round_half_even_near:
  assumes "\<bar>s - of_int n\<bar> < 1 / 2"
  shows "round_half_even s = n"
proof (cases "of_int n \<le> s")
  case True
  hence "\<lfloor>s\<rfloor> = n" using assms by (intro floor_unique) (simp_all add: abs_if split: if_splits)
  thus ?thesis using assms True by (simp add: round_half_even_def Let_def abs_if)
next
  case False
  hence "\<lfloor>s\<rfloor> = n - 1" using assms by (intro floor_unique) (simp_all add: abs_if split: if_splits)
  thus ?thesis using assms False by (simp add: round_half_even_def Let_def abs_if split: if_splits)
qed

lemma round64_near:
  assumes lo: "2 powi e \<le> q" and hi: "q < 2 powi (e + 1)" and e: "- 1022 \<le> e" "e \<le> 1022"
    and n: "\<bar>q / 2 powi (e - 52) - of_int n\<bar> < 1 / 2"
    and r: "r = of_int n * 2 powi (e - 52)"
  shows "round64 q = Fin r"
proof -
  define u where "u = (2::rat) powi (e - 52)"
  have u0: "0 < u" by (simp add: u_def)
  have pe: "(2::rat) powi (e + 1) = 2 ^ 53 * u"
    by (simp add: u_def power_int_add power_int_diff)
  have "q / u < 2 ^ 53" using hi u0 unfolding pe by (simp add: pos_divide_less_eq)
  hence "of_int n < (2 ^ 53 + 1 :: rat)" using n unfolding u_def[symmetric] by (simp add: abs_if split: if_splits)
  hence "of_int n < (of_int (2 ^ 53 + 1) :: rat)" by simp
  hence "n < 2 ^ 53 + 1" by (simp only: of_int_less_iff)
  hence "n \<le> 2 ^ 53" by simp
  hence "(of_int n :: rat) \<le> of_int (2 ^ 53)" by (simp only: of_int_le_iff)
  hence "of_int n * u \<le> 2 ^ 53 * u" using u0 by (simp add: mult_right_mono)
  also have "\<dots> = 2 powi (e + 1)" by (simp add: pe)
  also have "\<dots> \<le> 2 powi 1023" using e by (intro power_int_increasing) simp_all
  also have "\<dots> < (2::rat) powi 1024" by (intro power_int_strict_increasing) simp_all
  finally have small: "\<not> 2 powi 1024 \<le> of_int n * u" by simp
  have "round_half_even (q / u) = n" using n unfolding u_def by (rule round_half_even_near)
  thus ?thesis
    using small unfolding round64_pos_eval[OF lo hi e(1)] Let_def u_def[symmetric] r by simp
qed

lemma solve_vec:
  assumes M: "mat_of h m = Some ((a, c), (b, d))" and V: "vec_of h v = Some (Fin p, Fin q)"
  shows "result_vec (solve h m v) =
     Some (js_mul (recip_det a b c d) (js_sub (js_mul d (Fin p)) (js_mul b (Fin q))),
           js_mul (recip_det a b c d) (js_sub (js_mul a (Fin q)) (js_mul c (Fin p))))"
  unfolding solve_result[OF M V] by (rule result_vec_alloc)

lemma inverse_then_mul:
  assumes M: "mat_of h m = Some ((a, c), (b, d))" and V: "vec_of h v = Some (Fin p, Fin q)"
  shows "result_vec (thn (getInverse h m) (\<lambda>(i, h1). Mat22_mul vmul dbg h1 i v)) =
     Some (js_add (js_mul (js_mul (recip_det a b c d) d) (Fin p))
                  (js_mul (js_mul (js_neg (recip_det a b c d)) b) (Fin q)),
           js_add (js_mul (js_mul (js_neg (recip_det a b c d)) c) (Fin p))
                  (js_mul (js_mul (recip_det a b c d) a) (Fin q)))"
proof -
  let ?r = "recip_det a b c d"
  let ?n = "next_addr h"
  let ?h1 = "\<lparr>objs = (objs h)
             (?n := empty_obj\<lparr>ex := Some (Suc ?n), ey := Some (Suc (Suc ?n))\<rparr>,
              Suc ?n := empty_obj\<lparr>x := Some (js_mul ?r d), y := Some (js_mul (js_neg ?r) c)\<rparr>,
              Suc (Suc ?n) := empty_obj\<lparr>x := Some (js_mul (js_neg ?r) b), y := Some (js_mul ?r a)\<rparr>),
           next_addr = Suc (Suc (Suc ?n))\<rparr>"
  have 1: "getInverse h m = Inr (Ref ?n, ?h1)" by (rule getInverse_result[OF M])
  have I: "mat_of ?h1 (Ref ?n) =
      Some ((js_mul ?r d, js_mul (js_neg ?r) c), (js_mul (js_neg ?r) b, js_mul ?r a))"
    by (simp add: mat_of_def vec_of_def empty_obj_def)
  have V1: "vec_of ?h1 v = Some (Fin p, Fin q)"
    by (rule vec_of_mono[OF V]) auto
  show ?thesis
    unfolding 1 thn_def
    by (simp only: sum.case prod.case Mat22_mul_vec_result[OF I V1] result_vec_alloc)
qed

section \<open>The error of a rounding\<close>

lemma round_half_even_err: "\<bar>of_int (round_half_even s) - s\<bar> \<le> 1 / 2"
proof -
  have "of_int \<lfloor>s\<rfloor> \<le> s" "s < of_int \<lfloor>s\<rfloor> + 1" by linarith+
  thus ?thesis unfolding round_half_even_def Let_def
    by (auto simp: abs_if) linarith+
qed

lemma round64_error:
  assumes "\<bar>q\<bar> \<le> 2 powi 1023"
  obtains q' where "round64 q = Fin q'" "\<bar>q' - q\<bar> \<le> \<bar>q\<bar> / 2 ^ 53 + 1 / 2 ^ 1075"
proof (cases "q = 0")
  case True
  have "round64 q = Fin 0" "\<bar>0 - q\<bar> \<le> \<bar>q\<bar> / 2 ^ 53 + 1 / 2 ^ 1075"
    using True by (simp_all add: round64_def)
  thus ?thesis by (rule that)
next
  case False
  define a where "a = \<bar>q\<bar>"
  define e where "e = max (ilog2 a) (- 1022)"
  define u where "u = (2::rat) powi (e - 52)"
  define r where "r = of_int (round_half_even (a / u)) * u"
  have a0: "0 < a" using False by (simp add: a_def)
  have u0: "0 < u" by (simp add: u_def)
  have b: "2 powi (ilog2 a) \<le> a" "a < 2 powi (ilog2 a + 1)" using ilog2_bounds[OF a0] by simp_all
  have "(2::rat) powi 1023 < 2 powi 1024" by (intro power_int_strict_increasing) simp_all
  with assms have "a < 2 powi 1024" by (simp add: a_def)
  with b(1) have "(2::rat) powi (ilog2 a) < 2 powi 1024" by (rule le_less_trans)
  hence "ilog2 a < 1024" by (rule pow2_less_imp)
  hence e_le: "e \<le> 1023" by (simp add: e_def)
  have "\<bar>of_int (round_half_even (a / u)) - a / u\<bar> * u \<le> 1 / 2 * u"
    using u0 by (intro mult_right_mono round_half_even_err) simp
  moreover have "\<bar>of_int (round_half_even (a / u)) - a / u\<bar> * u = \<bar>r - a\<bar>"
  proof -
    have "r - a = (of_int (round_half_even (a / u)) - a / u) * u"
      using u0 by (simp add: r_def algebra_simps)
    thus ?thesis using u0 by (simp add: abs_mult)
  qed
  ultimately have err: "\<bar>r - a\<bar> \<le> u / 2" by simp
  have uhalf: "u / 2 \<le> a / 2 ^ 53 + 1 / 2 ^ 1075"
  proof (cases "- 1022 \<le> ilog2 a")
    case True
    hence "e = ilog2 a" by (simp add: e_def)
    hence "u = 2 powi (ilog2 a) / 2 ^ 52" by (simp add: u_def power_int_diff)
    hence "u / 2 = 2 powi (ilog2 a) / 2 ^ 53" by simp
    also have "\<dots> \<le> a / 2 ^ 53" using b(1) by (simp add: divide_right_mono)
    finally show ?thesis by simp
  next
    case False
    hence "e = - 1022" by (simp add: e_def)
    hence "u = 1 / 2 ^ 1074" by (simp add: u_def power_int_minus_divide)
    hence "u / 2 = 1 / 2 ^ 1075" by simp
    thus ?thesis using a0 by simp
  qed
  have "u \<le> 2 powi 971" unfolding u_def using e_le by (intro power_int_increasing) simp_all
  hence "r \<le> 2 powi 1023 + 2 powi 971 / 2" using err assms by (simp add: a_def abs_if split: if_splits)
  also have "\<dots> < 2 powi 1024" by simp
  finally have small: "\<not> 2 powi 1024 \<le> r" by simp
  have val: "round64 q = Fin (sgn q * r)"
    using False small
    unfolding round64_def Let_def a_def[symmetric] e_def[symmetric] u_def[symmetric] r_def[symmetric]
    by simp
  have "sgn q * a = q" by (simp add: a_def sgn_mult_abs)
  hence "sgn q * r - q = sgn q * (r - a)" by (simp add: algebra_simps)
  hence "\<bar>sgn q * r - q\<bar> = \<bar>r - a\<bar>" using False by (simp add: abs_mult abs_sgn_eq)
  hence "\<bar>sgn q * r - q\<bar> \<le> \<bar>q\<bar> / 2 ^ 53 + 1 / 2 ^ 1075"
    using err uhalf by (simp add: a_def)
  with val show ?thesis by (rule that)
qed

lemma dot_error:
  assumes "\<bar>s * m\<bar> \<le> 2 powi 1020" "\<bar>t * n\<bar> \<le> 2 powi 1020"
  obtains z where "js_add (js_mul (Fin s) (Fin m)) (js_mul (Fin t) (Fin n)) = Fin z"
    "\<bar>z - (s * m + t * n)\<bar> \<le> (\<bar>s * m\<bar> + \<bar>t * n\<bar>) / 2 ^ 51 + 1 / 2 ^ 1073"
proof -
  define eta where "eta = (1::rat) / 2 ^ 1075"
  define U where "U = (1::rat) / 2 ^ 53"
  have eta: "0 \<le> eta" "eta \<le> 1" "4 * eta = 1 / 2 ^ 1073" by (simp_all add: eta_def)
  have U: "0 \<le> U" "U \<le> 1 / 2" by (simp_all add: U_def)
  have big: "(2::rat) powi 1020 = 2 powi 1023 / 8" "(0::rat) < 2 powi 1023"
    by (simp_all add: power_int_diff)
  have "\<bar>s * m\<bar> \<le> 2 powi 1023" using assms(1) big by linarith
  then obtain p1 where p1: "round64 (s * m) = Fin p1"
    "\<bar>p1 - s * m\<bar> \<le> \<bar>s * m\<bar> * U + eta"
    unfolding eta_def U_def by (rule round64_error[of "s * m"]) simp
  have "\<bar>t * n\<bar> \<le> 2 powi 1023" using assms(2) big by linarith
  then obtain p2 where p2: "round64 (t * n) = Fin p2"
    "\<bar>p2 - t * n\<bar> \<le> \<bar>t * n\<bar> * U + eta"
    unfolding eta_def U_def by (rule round64_error[of "t * n"]) simp
  define A where "A = \<bar>s * m\<bar> + \<bar>t * n\<bar>"
  define B where "B = \<bar>p1 + p2\<bar>"
  have A0: "0 \<le> A" "A \<le> 2 powi 1023 / 4" using assms big by (simp_all add: A_def)
  have AU: "0 \<le> A * U" "A * U \<le> A / 2" "A * U * U \<le> A * U"
  proof -
    show 1: "0 \<le> A * U" using A0(1) U(1) by simp
    have "A * U \<le> A * (1 / 2)" using U(2) A0(1) by (rule mult_left_mono)
    thus "A * U \<le> A / 2" by simp
    have "A * U * U \<le> A * U * 1" using 1 U by (intro mult_left_mono) simp_all
    thus "A * U * U \<le> A * U" by simp
  qed
  have e12: "\<bar>p1 - s * m\<bar> + \<bar>p2 - t * n\<bar> \<le> A * U + 2 * eta"
    using p1(2) p2(2) unfolding A_def by (simp add: algebra_simps)
  have sum: "B \<le> A + A * U + 2 * eta"
    using e12 unfolding A_def B_def by linarith
  have one: "(1::rat) \<le> 2 powi 1023 / 8"
    unfolding big(1)[symmetric] by (rule one_le_power_int) simp_all
  have "B \<le> 2 powi 1023" using sum A0 AU eta one by linarith
  then obtain z where z: "round64 (p1 + p2) = Fin z"
    "\<bar>z - (p1 + p2)\<bar> \<le> B * U + eta"
    unfolding eta_def U_def B_def by (rule round64_error[of "p1 + p2"]) simp
  have 1: "js_add (js_mul (Fin s) (Fin m)) (js_mul (Fin t) (Fin n)) = Fin z"
    by (simp add: js_mul_Fin p1(1) p2(1) js_add_Fin z(1))
  have "B * U \<le> (A + A * U + 2 * eta) * U" using sum U(1) by (rule mult_right_mono)
  also have "\<dots> = A * U + A * U * U + 2 * (eta * U)" by (simp add: algebra_simps)
  finally have BU: "B * U \<le> A * U + A * U * U + 2 * (eta * U)" .
  have "eta * U \<le> eta * (1 / 2)" using U(2) eta(1) by (rule mult_left_mono)
  hence etaU: "eta * U \<le> eta / 2" by simp
  have tri: "\<bar>z - (s * m + t * n)\<bar>
      \<le> \<bar>z - (p1 + p2)\<bar> + (\<bar>p1 - s * m\<bar> + \<bar>p2 - t * n\<bar>)" by linarith
  have "\<bar>z - (s * m + t * n)\<bar> \<le> 4 * (A * U) + 4 * eta"
    using tri z(2) e12 BU etaU AU eta(1) by linarith
  moreover have "4 * (A * U) = A / 2 ^ 51" by (simp add: U_def)
  ultimately have "\<bar>z - (s * m + t * n)\<bar> \<le> (\<bar>s * m\<bar> + \<bar>t * n\<bar>) / 2 ^ 51 + 1 / 2 ^ 1073"
    unfolding eta(3) A_def by simp
  with 1 show ?thesis by (rule that)
qed

lemma js_add_commute: "js_add m n = js_add n m"
  by (cases m; cases n) (simp_all add: js_add_def add.commute)

lemma js_sub_as_dot:
  "js_sub (js_mul (Fin s) (Fin m)) (js_mul (Fin t) (Fin n))
     = js_add (js_mul (Fin s) (Fin m)) (js_mul (Fin (- t)) (Fin n))"
  using round64_neg[of "t * n"] by (simp add: js_sub_def js_mul_Fin)

section \<open>Matrices that are orthonormal up to rounding\<close>

lemma columns_rows:
  fixes a b c d e :: rat
  assumes "\<bar>a * a + c * c - 1\<bar> \<le> e" "\<bar>b * b + d * d - 1\<bar> \<le> e" "\<bar>a * b + c * d\<bar> \<le> e"
  shows "\<bar>a * a + b * b - 1\<bar> \<le> 3 * e" "\<bar>c * c + d * d - 1\<bar> \<le> 3 * e" "\<bar>a * c + b * d\<bar> \<le> 2 * e"
proof -
  define e1 where "e1 = a * a + c * c - 1"
  define e2 where "e2 = b * b + d * d - 1"
  define e3 where "e3 = a * b + c * d"
  define r1 where "r1 = a * a + b * b - 1"
  define r2 where "r2 = c * c + d * d - 1"
  define r3 where "r3 = a * c + b * d"
  have e0: "0 \<le> e" using assms(3) by linarith
  have id: "(r1 - r2)\<^sup>2 + 4 * r3\<^sup>2 = (e1 - e2)\<^sup>2 + 4 * e3\<^sup>2"
    unfolding e1_def e2_def e3_def r1_def r2_def r3_def
    by (simp add: power2_eq_square algebra_simps)
  have "\<bar>e1 - e2\<bar> \<le> \<bar>2 * e\<bar>" using assms(1,2) e0 unfolding e1_def e2_def by linarith
  hence s1: "(e1 - e2)\<^sup>2 \<le> (2 * e)\<^sup>2" by (simp only: abs_le_square_iff)
  have "\<bar>e3\<bar> \<le> \<bar>e\<bar>" using assms(3) e0 unfolding e3_def by linarith
  hence s2: "e3\<^sup>2 \<le> e\<^sup>2" by (simp only: abs_le_square_iff)
  have ex: "(2 * e)\<^sup>2 = 4 * e\<^sup>2" "(4 * e)\<^sup>2 = 16 * e\<^sup>2" "(3 * e)\<^sup>2 = 9 * e\<^sup>2"
    "(2 * r3)\<^sup>2 = 4 * r3\<^sup>2"
    by (simp_all add: power_mult_distrib)
  have sq0: "0 \<le> (r1 - r2)\<^sup>2" "0 \<le> r3\<^sup>2" "0 \<le> e\<^sup>2" by simp_all
  have tot: "(r1 - r2)\<^sup>2 + 4 * r3\<^sup>2 \<le> 8 * e\<^sup>2"
    unfolding id using s1 s2 unfolding ex by linarith
  have "(2 * r3)\<^sup>2 \<le> (4 * e)\<^sup>2" unfolding ex using tot sq0 by linarith
  hence "\<bar>2 * r3\<bar> \<le> \<bar>4 * e\<bar>" by (simp only: abs_le_square_iff)
  hence r3: "\<bar>r3\<bar> \<le> 2 * e" using e0 by simp
  have "(r1 - r2)\<^sup>2 \<le> (3 * e)\<^sup>2" unfolding ex using tot sq0 by linarith
  hence "\<bar>r1 - r2\<bar> \<le> \<bar>3 * e\<bar>" by (simp only: abs_le_square_iff)
  hence d: "\<bar>r1 - r2\<bar> \<le> 3 * e" using e0 by simp
  have s: "r1 + r2 = e1 + e2" unfolding e1_def e2_def r1_def r2_def by simp
  have "\<bar>r1 + r2\<bar> \<le> 2 * e" unfolding s using assms(1,2) unfolding e1_def e2_def by linarith
  with d have "\<bar>r1\<bar> \<le> 3 * e" "\<bar>r2\<bar> \<le> 3 * e" using e0 by linarith+
  thus "\<bar>a * a + b * b - 1\<bar> \<le> 3 * e" "\<bar>c * c + d * d - 1\<bar> \<le> 3 * e"
    unfolding r1_def r2_def by simp_all
  from r3 show "\<bar>a * c + b * d\<bar> \<le> 2 * e" unfolding r3_def .
qed

lemma entry_le_2:
  fixes a c :: rat
  assumes "\<bar>a * a + c * c - 1\<bar> \<le> 1"
  shows "\<bar>a\<bar> \<le> 2" "\<bar>c\<bar> \<le> 2"
proof -
  have "0 \<le> a * a" "0 \<le> c * c" by simp_all
  hence "a * a \<le> 4" "c * c \<le> 4" using assms by linarith+
  hence "a\<^sup>2 \<le> 2\<^sup>2" "c\<^sup>2 \<le> 2\<^sup>2" by (simp_all add: power2_eq_square)
  hence "\<bar>a\<bar> \<le> \<bar>2\<bar>" "\<bar>c\<bar> \<le> \<bar>2\<bar>" by (simp_all only: abs_le_square_iff)
  thus "\<bar>a\<bar> \<le> 2" "\<bar>c\<bar> \<le> 2" by simp_all
qed

lemma abs_mult_le2:
  fixes a z :: rat
  assumes "\<bar>a\<bar> \<le> 2"
  shows "\<bar>a * z\<bar> \<le> 2 * \<bar>z\<bar>"
  unfolding abs_mult using assms by (intro mult_right_mono) simp_all

lemma abs_comb_le:
  fixes k1 k2 p q :: rat
  assumes "\<bar>k1\<bar> \<le> e" "\<bar>k2\<bar> \<le> e"
  shows "\<bar>k1 * p + k2 * q\<bar> \<le> e * (\<bar>p\<bar> + \<bar>q\<bar>)"
proof -
  have "\<bar>k1 * p\<bar> \<le> e * \<bar>p\<bar>" "\<bar>k2 * q\<bar> \<le> e * \<bar>q\<bar>"
    unfolding abs_mult using assms by (intro mult_right_mono; simp)+
  thus ?thesis by (simp add: algebra_simps)
qed

lemma row_product_error:
  fixes k1 k2 s t B :: rat
  assumes k: "\<bar>k1\<bar> \<le> 2" "\<bar>k2\<bar> \<le> 2" and B: "\<bar>s\<bar> + \<bar>t\<bar> \<le> B" "B \<le> 2 ^ 1010"
  obtains z where "js_add (js_mul (Fin k1) (Fin s)) (js_mul (Fin k2) (Fin t)) = Fin z"
    "\<bar>z - (k1 * s + k2 * t)\<bar> \<le> B / 2 ^ 50 + 1 / 2 ^ 1073"
proof -
  have p: "(2::rat) powi 1020 = 2 ^ 1020" by simp
  have 0: "0 \<le> \<bar>s\<bar>" "0 \<le> \<bar>t\<bar>" by simp_all
  have 1: "\<bar>k1 * s\<bar> \<le> 2 * \<bar>s\<bar>" "\<bar>k2 * t\<bar> \<le> 2 * \<bar>t\<bar>"
    using abs_mult_le2[OF k(1), of s] abs_mult_le2[OF k(2), of t] by simp_all
  have "2 * B \<le> 2 * 2 ^ 1010" using B(2) by simp
  also have "\<dots> \<le> (2::rat) ^ 1020" by simp
  finally have "2 * B \<le> 2 powi 1020" unfolding p .
  hence r: "\<bar>k1 * s\<bar> \<le> 2 powi 1020" "\<bar>k2 * t\<bar> \<le> 2 powi 1020" using 0 1 B(1) by linarith+
  obtain z where z: "js_add (js_mul (Fin k1) (Fin s)) (js_mul (Fin k2) (Fin t)) = Fin z"
    "\<bar>z - (k1 * s + k2 * t)\<bar> \<le> (\<bar>k1 * s\<bar> + \<bar>k2 * t\<bar>) / 2 ^ 51 + 1 / 2 ^ 1073"
    using r by (rule dot_error)
  have "\<bar>k1 * s\<bar> + \<bar>k2 * t\<bar> \<le> 2 * B" using 1 B(1) by linarith
  hence "(\<bar>k1 * s\<bar> + \<bar>k2 * t\<bar>) / 2 ^ 51 \<le> (2 * B) / 2 ^ 51"
    by (intro divide_right_mono) simp_all
  also have "\<dots> = B / 2 ^ 50" by simp
  finally have "\<bar>z - (k1 * s + k2 * t)\<bar> \<le> B / 2 ^ 50 + 1 / 2 ^ 1073" using z(2) by linarith
  with z(1) show ?thesis by (rule that)
qed

lemma roundtrip_error:
  assumes N: "near_orthonormal ((Fin a, Fin c), (Fin b, Fin d))"
    and P: "\<bar>p\<bar> \<le> 2 ^ 1000" "\<bar>q\<bar> \<le> 2 ^ 1000"
  obtains s t p' q' where
    "js_add (js_mul (Fin p) (Fin a)) (js_mul (Fin q) (Fin c)) = Fin s"
    "js_add (js_mul (Fin p) (Fin b)) (js_mul (Fin q) (Fin d)) = Fin t"
    "js_add (js_mul (Fin a) (Fin s)) (js_mul (Fin b) (Fin t)) = Fin p'"
    "js_add (js_mul (Fin c) (Fin s)) (js_mul (Fin d) (Fin t)) = Fin q'"
    "\<bar>p' - p\<bar> \<le> (\<bar>p\<bar> + \<bar>q\<bar>) / 2 ^ 46 + 1 / 2 ^ 1070"
    "\<bar>q' - q\<bar> \<le> (\<bar>p\<bar> + \<bar>q\<bar>) / 2 ^ 46 + 1 / 2 ^ 1070"
proof -
  define eps where "eps = (1::rat) / 2 ^ 50"
  define eta where "eta = (1::rat) / 2 ^ 1073"
  define M where "M = \<bar>p\<bar> + \<bar>q\<bar>"
  define K where "K = M / 2 ^ 50"
  have eta: "0 \<le> eta" "eta \<le> 1" "8 * eta = 1 / 2 ^ 1070" "eta / 2 ^ 49 \<le> eta"
    by (simp_all add: eta_def)
  have M0: "0 \<le> M" "M \<le> 2 ^ 1001" using P by (simp_all add: M_def)
  have K: "0 \<le> K" "K \<le> M" "16 * K = M / 2 ^ 46" "eps * M = K"
    using M0(1) by (simp_all add: K_def eps_def divide_le_eq)
  from N have col: "\<bar>a * a + c * c - 1\<bar> \<le> eps" "\<bar>b * b + d * d - 1\<bar> \<le> eps"
    "\<bar>a * b + c * d\<bar> \<le> eps"
    by (simp_all add: near_orthonormal_def eps_def)
  note row = columns_rows[OF col]
  have eps1: "0 \<le> eps" "eps \<le> 1" by (simp_all add: eps_def)
  have ent: "\<bar>a\<bar> \<le> 2" "\<bar>c\<bar> \<le> 2" "\<bar>b\<bar> \<le> 2" "\<bar>d\<bar> \<le> 2"
    using entry_le_2[of a c] entry_le_2[of b d] col(1,2) eps1 by linarith+
  have pq: "\<bar>p\<bar> + \<bar>q\<bar> \<le> M" "M \<le> 2 ^ 1010"
    using M0(2) by (simp_all add: M_def) 
  have c1: "p * a + q * c = a * p + c * q" "p * b + q * d = b * p + d * q"
    by (simp_all add: mult.commute)
  have c2: "js_mul (Fin p) (Fin a) = js_mul (Fin a) (Fin p)"
    "js_mul (Fin q) (Fin c) = js_mul (Fin c) (Fin q)"
    "js_mul (Fin p) (Fin b) = js_mul (Fin b) (Fin p)"
    "js_mul (Fin q) (Fin d) = js_mul (Fin d) (Fin q)"
    by (simp_all add: js_mul_Fin mult.commute)
  define S0 where "S0 = p * a + q * c"
  define T0 where "T0 = p * b + q * d"
  obtain s where s: "js_add (js_mul (Fin p) (Fin a)) (js_mul (Fin q) (Fin c)) = Fin s"
    "\<bar>s - S0\<bar> \<le> K + eta"
    unfolding S0_def c1 c2 eta_def K_def by (rule row_product_error[OF ent(1,2) pq])
  obtain t where t: "js_add (js_mul (Fin p) (Fin b)) (js_mul (Fin q) (Fin d)) = Fin t"
    "\<bar>t - T0\<bar> \<le> K + eta"
    unfolding T0_def c1 c2 eta_def K_def by (rule row_product_error[OF ent(3,4) pq])
  have "\<bar>a * p + c * q\<bar> \<le> \<bar>a * p\<bar> + \<bar>c * q\<bar>" by (rule abs_triangle_ineq)
  hence ex1: "\<bar>S0\<bar> \<le> 2 * M"
    unfolding S0_def c1
    using abs_mult_le2[OF ent(1), of p] abs_mult_le2[OF ent(2), of q] M_def by linarith
  have "\<bar>b * p + d * q\<bar> \<le> \<bar>b * p\<bar> + \<bar>d * q\<bar>" by (rule abs_triangle_ineq)
  hence ex2: "\<bar>T0\<bar> \<le> 2 * M"
    unfolding T0_def c1
    using abs_mult_le2[OF ent(3), of p] abs_mult_le2[OF ent(4), of q] M_def by linarith
  define B where "B = 6 * M + 2 * eta"
  have st: "\<bar>s\<bar> + \<bar>t\<bar> \<le> B"
    using s(2) t(2) ex1 ex2 K(1,2) unfolding B_def by linarith
  have "B \<le> 6 * 2 ^ 1001 + 2 * 1" using M0(2) eta(2) unfolding B_def
    by (intro add_mono mult_left_mono) simp_all
  also have "\<dots> \<le> (2::rat) ^ 1010" by simp
  finally have Bb: "B \<le> 2 ^ 1010" .
  have B50: "B / 2 ^ 50 = 6 * K + eta / 2 ^ 49" by (simp add: B_def K_def add_divide_distrib)
  obtain p' where p': "js_add (js_mul (Fin a) (Fin s)) (js_mul (Fin b) (Fin t)) = Fin p'"
    "\<bar>p' - (a * s + b * t)\<bar> \<le> B / 2 ^ 50 + eta"
    unfolding eta_def by (rule row_product_error[OF ent(1,3) st Bb])
  obtain q' where q': "js_add (js_mul (Fin c) (Fin s)) (js_mul (Fin d) (Fin t)) = Fin q'"
    "\<bar>q' - (c * s + d * t)\<bar> \<le> B / 2 ^ 50 + eta"
    unfolding eta_def by (rule row_product_error[OF ent(2,4) st Bb])
  have x1: "a * S0 + b * T0 - p = (a * a + b * b - 1) * p + (a * c + b * d) * q"
    and x2: "c * S0 + d * T0 - q = (a * c + b * d) * p + (c * c + d * d - 1) * q"
    unfolding S0_def T0_def by (simp_all add: algebra_simps)
  have r3: "\<bar>a * c + b * d\<bar> \<le> 3 * eps" using row(3) eps1(1) by linarith
  have "\<bar>a * S0 + b * T0 - p\<bar> \<le> 3 * eps * (\<bar>p\<bar> + \<bar>q\<bar>)"
    unfolding x1 using row(1) r3 by (rule abs_comb_le)
  hence d1: "\<bar>a * S0 + b * T0 - p\<bar> \<le> 3 * K" using K(4) by (simp add: M_def)
  have "\<bar>c * S0 + d * T0 - q\<bar> \<le> 3 * eps * (\<bar>p\<bar> + \<bar>q\<bar>)"
    unfolding x2 using r3 row(2) by (rule abs_comb_le)
  hence d2: "\<bar>c * S0 + d * T0 - q\<bar> \<le> 3 * K" using K(4) by (simp add: M_def)
  have y1: "a * s + b * t - (a * S0 + b * T0) = a * (s - S0) + b * (t - T0)"
    and y2: "c * s + d * t - (c * S0 + d * T0) = c * (s - S0) + d * (t - T0)"
    by (simp_all add: algebra_simps)
  have "\<bar>a * (s - S0) + b * (t - T0)\<bar> \<le> \<bar>a * (s - S0)\<bar> + \<bar>b * (t - T0)\<bar>"
    by (rule abs_triangle_ineq)
  hence g1: "\<bar>a * s + b * t - (a * S0 + b * T0)\<bar> \<le> 4 * K + 4 * eta"
    unfolding y1
    using abs_mult_le2[OF ent(1), of "s - S0"] abs_mult_le2[OF ent(3), of "t - T0"] s(2) t(2)
    by linarith
  have "\<bar>c * (s - S0) + d * (t - T0)\<bar> \<le> \<bar>c * (s - S0)\<bar> + \<bar>d * (t - T0)\<bar>"
    by (rule abs_triangle_ineq)
  hence g2: "\<bar>c * s + d * t - (c * S0 + d * T0)\<bar> \<le> 4 * K + 4 * eta"
    unfolding y2
    using abs_mult_le2[OF ent(2), of "s - S0"] abs_mult_le2[OF ent(4), of "t - T0"] s(2) t(2)
    by linarith
  have "\<bar>p' - p\<bar> \<le> 16 * K + 8 * eta"
    using p'(2) g1 d1 K(1) eta(1,4) unfolding B50 by linarith
  hence f1: "\<bar>p' - p\<bar> \<le> (\<bar>p\<bar> + \<bar>q\<bar>) / 2 ^ 46 + 1 / 2 ^ 1070"
    unfolding K(3) eta(3) M_def .
  have "\<bar>q' - q\<bar> \<le> 16 * K + 8 * eta"
    using q'(2) g2 d2 K(1) eta(1,4) unfolding B50 by linarith
  hence f2: "\<bar>q' - q\<bar> \<le> (\<bar>p\<bar> + \<bar>q\<bar>) / 2 ^ 46 + 1 / 2 ^ 1070"
    unfolding K(3) eta(3) M_def .
  from s(1) t(1) p'(1) q'(1) f1 f2 show ?thesis by (rule that)
qed

lemma rounded_rotation:
  assumes "\<bar>real_of_rat a - cos \<theta>\<bar> \<le> 1 / 2 ^ 53" "\<bar>real_of_rat c - sin \<theta>\<bar> \<le> 1 / 2 ^ 53"
  shows "near_orthonormal ((Fin a, Fin c), (Fin (- c), Fin a))"
proof -
  define x where "x = real_of_rat a"
  define y where "y = real_of_rat c"
  define dl where "dl = (1::real) / 2 ^ 53"
  have dl: "0 \<le> dl" "dl \<le> 1" "6 * dl \<le> 1 / 2 ^ 50" by (simp_all add: dl_def)
  have ax: "\<bar>x - cos \<theta>\<bar> \<le> dl" and ay: "\<bar>y - sin \<theta>\<bar> \<le> dl"
    using assms by (simp_all add: x_def y_def dl_def)
  have cs: "\<bar>cos \<theta>\<bar> \<le> 1" "\<bar>sin \<theta>\<bar> \<le> 1" by simp_all
  have bx: "\<bar>x + cos \<theta>\<bar> \<le> 3" and by': "\<bar>y + sin \<theta>\<bar> \<le> 3"
    using ax ay cs dl by linarith+
  have id: "x * x + y * y - 1 = (x - cos \<theta>) * (x + cos \<theta>) + (y - sin \<theta>) * (y + sin \<theta>)"
    using sin_cos_squared_add[of \<theta>] by (simp add: algebra_simps power2_eq_square)
  have "\<bar>(x - cos \<theta>) * (x + cos \<theta>)\<bar> \<le> dl * 3"
    unfolding abs_mult using ax bx by (intro mult_mono) simp_all
  moreover have "\<bar>(y - sin \<theta>) * (y + sin \<theta>)\<bar> \<le> dl * 3"
    unfolding abs_mult using ay by' by (intro mult_mono) simp_all
  ultimately have "\<bar>x * x + y * y - 1\<bar> \<le> 6 * dl" unfolding id by linarith
  hence "\<bar>x * x + y * y - 1\<bar> \<le> 1 / 2 ^ 50" using dl(3) by linarith
  moreover have "x * x + y * y - 1 = real_of_rat (a * a + c * c - 1)"
    by (simp add: x_def y_def of_rat_mult of_rat_add of_rat_diff)
  moreover have "(1::real) / 2 ^ 50 = real_of_rat (1 / 2 ^ 50)"
    by (simp add: of_rat_divide of_rat_power)
  ultimately have "real_of_rat \<bar>a * a + c * c - 1\<bar> \<le> real_of_rat (1 / 2 ^ 50)"
    by (simp only: abs_of_rat)
  hence 1: "\<bar>a * a + c * c - 1\<bar> \<le> 1 / 2 ^ 50" by (simp only: of_rat_less_eq)
  have 2: "- c * - c + a * a - 1 = a * a + c * c - 1" "a * - c + c * a = 0" by simp_all
  show ?thesis
    unfolding near_orthonormal_def using 1 by (simp add: 2 add.commute)
qed

section \<open>The direct solution against the inverse applied to the vector\<close>

lemma abs_mult_le_pow:
  fixes x y :: rat
  assumes "\<bar>x\<bar> \<le> 2 ^ m" "\<bar>y\<bar> \<le> 2 ^ n"
  shows "\<bar>x * y\<bar> \<le> 2 ^ (m + n)"
  unfolding abs_mult power_add using assms by (intro mult_mono) simp_all

lemma component_error:
  fixes r d p b q :: rat
  assumes r: "\<bar>r\<bar> \<le> 2 ^ 401"
    and bd: "\<bar>d\<bar> \<le> 2 ^ 200" "\<bar>p\<bar> \<le> 2 ^ 200" "\<bar>b\<bar> \<le> 2 ^ 200" "\<bar>q\<bar> \<le> 2 ^ 200"
  obtains x1 x2 where
    "js_mul (Fin r) (js_sub (js_mul (Fin d) (Fin p)) (js_mul (Fin b) (Fin q))) = Fin x1"
    "js_add (js_mul (js_mul (Fin r) (Fin d)) (Fin p))
            (js_mul (js_mul (js_neg (Fin r)) (Fin b)) (Fin q)) = Fin x2"
    "\<bar>x1 - x2\<bar> \<le> \<bar>r\<bar> * (\<bar>d * p\<bar> + \<bar>b * q\<bar>) / 2 ^ 49 + 1 / 2 ^ 671"
proof -
  define U where "U = (1::rat) / 2 ^ 53"
  define eta where "eta = (1::rat) / 2 ^ 1075"
  define R where "R = \<bar>r\<bar>"
  define S where "S = \<bar>d * p\<bar> + \<bar>b * q\<bar>"
  define W where "W = \<bar>p\<bar> + \<bar>q\<bar>"
  define Z where "Z = d * p - b * q"
  define X where "X = R * S"
  have U: "0 \<le> U" "4 * U \<le> 1" by (simp_all add: U_def)
  have eta: "0 \<le> eta" "eta \<le> 1" by (simp_all add: eta_def)
  have R: "0 \<le> R" "R \<le> 2 ^ 401" using r by (simp_all add: R_def)
  have dp: "\<bar>d * p\<bar> \<le> 2 ^ 400" "\<bar>b * q\<bar> \<le> 2 ^ 400"
    using abs_mult_le_pow[OF bd(1,2)] abs_mult_le_pow[OF bd(3,4)] by simp_all
  have S: "0 \<le> S" "S \<le> 2 ^ 401" using dp by (simp_all add: S_def)
  have W: "0 \<le> W" "W \<le> 2 ^ 201" using bd by (simp_all add: W_def)
  have X: "0 \<le> X" "X \<le> 2 ^ 802"
  proof -
    show "0 \<le> X" using R(1) S(1) by (simp add: X_def)
    have "R * S \<le> 2 ^ 401 * 2 ^ 401" using R S by (intro mult_mono) simp_all
    thus "X \<le> 2 ^ 802" by (simp add: X_def)
  qed
  have p1023: "(2::rat) powi 1023 = 2 ^ 1023" "(2::rat) powi 1020 = 2 ^ 1020" by simp_all
  have pw: "(2::rat) ^ 400 \<le> 2 ^ 1020" "(2::rat) ^ 601 \<le> 2 ^ 1023"
    "(2::rat) ^ 803 \<le> 2 ^ 1020" "2 * (2::rat) ^ 802 + 4 * 2 ^ 401 \<le> 2 ^ 1023"
    "2 * (2::rat) ^ 601 + 1 \<le> 2 ^ 603"
    by simp_all
  have SU: "0 \<le> S * U" "4 * (S * U) \<le> S"
  proof -
    show "0 \<le> S * U" using S(1) U(1) by simp
    have "S * (4 * U) \<le> S * 1" using U(2) S(1) by (rule mult_left_mono)
    thus "4 * (S * U) \<le> S" by simp
  qed
  have XU: "0 \<le> X * U" "4 * (X * U) \<le> X"
  proof -
    show "0 \<le> X * U" using X(1) U(1) by simp
    have "X * (4 * U) \<le> X * 1" using U(2) X(1) by (rule mult_left_mono)
    thus "4 * (X * U) \<le> X" by simp
  qed
  have Re: "0 \<le> R * eta" "R * eta \<le> 2 ^ 401 * eta" "4 * (R * eta * U) \<le> R * eta"
    "R * eta \<le> 2 ^ 401"
  proof -
    show 0: "0 \<le> R * eta" using R(1) eta(1) by simp
    show "R * eta \<le> 2 ^ 401 * eta" using R(2) eta(1) by (rule mult_right_mono)
    have "R * eta * (4 * U) \<le> R * eta * 1" using U(2) 0 by (rule mult_left_mono)
    thus "4 * (R * eta * U) \<le> R * eta" by simp
    have "R * eta \<le> 2 ^ 401 * 1" using R eta by (intro mult_mono) simp_all
    thus "R * eta \<le> 2 ^ 401" by simp
  qed
  have eW: "0 \<le> eta * W" "eta * W \<le> eta * 2 ^ 201" "4 * (eta * W * U) \<le> eta * W"
  proof -
    show 0: "0 \<le> eta * W" using W(1) eta(1) by simp
    show "eta * W \<le> eta * 2 ^ 201" using W(2) eta(1) by (rule mult_left_mono)
    have "eta * W * (4 * U) \<le> eta * W * 1" using U(2) 0 by (rule mult_left_mono)
    thus "4 * (eta * W * U) \<le> eta * W" by simp
  qed
  have "\<bar>d * p\<bar> \<le> 2 powi 1020" "\<bar>- b * q\<bar> \<le> 2 powi 1020"
    unfolding p1023 using dp pw(1) by simp_all
  then obtain t where t: "js_add (js_mul (Fin d) (Fin p)) (js_mul (Fin (- b)) (Fin q)) = Fin t"
    "\<bar>t - (d * p + - b * q)\<bar> \<le> (\<bar>d * p\<bar> + \<bar>- b * q\<bar>) / 2 ^ 51 + 1 / 2 ^ 1073"
    by (rule dot_error)
  have t1: "js_sub (js_mul (Fin d) (Fin p)) (js_mul (Fin b) (Fin q)) = Fin t"
    unfolding js_sub_as_dot by (rule t(1))
  have "(\<bar>d * p\<bar> + \<bar>- b * q\<bar>) / 2 ^ 51 = 4 * (S * U)" "(1::rat) / 2 ^ 1073 = 4 * eta"
    by (simp_all add: S_def U_def eta_def)
  hence t2: "\<bar>t - Z\<bar> \<le> 4 * (S * U) + 4 * eta" using t(2) by (simp add: Z_def)
  have Zb: "\<bar>Z\<bar> \<le> S" unfolding Z_def S_def by (rule abs_triangle_ineq4)
  have tb: "\<bar>t\<bar> \<le> 2 * S + 4 * eta" using t2 Zb SU by linarith
  have "R * \<bar>t\<bar> \<le> R * (2 * S + 4 * eta)" using tb R(1) by (rule mult_left_mono)
  also have "\<dots> = 2 * X + 4 * (R * eta)" by (simp add: X_def algebra_simps)
  finally have Rt: "R * \<bar>t\<bar> \<le> 2 * X + 4 * (R * eta)" .
  have art: "\<bar>r * t\<bar> = R * \<bar>t\<bar>" by (simp add: R_def abs_mult)
  have "\<bar>r * t\<bar> \<le> 2 powi 1023"
    unfolding p1023 art using Rt X(2) Re(4) pw(4) by linarith
  then obtain x1 where x1: "round64 (r * t) = Fin x1"
    "\<bar>x1 - r * t\<bar> \<le> \<bar>r * t\<bar> / 2 ^ 53 + 1 / 2 ^ 1075"
    by (rule round64_error)
  have v1: "js_mul (Fin r) (js_sub (js_mul (Fin d) (Fin p)) (js_mul (Fin b) (Fin q))) = Fin x1"
    unfolding t1 by (simp only: js_mul_Fin x1(1))
  have "R * \<bar>t\<bar> * U \<le> (2 * X + 4 * (R * eta)) * U" using Rt U(1) by (rule mult_right_mono)
  also have "\<dots> = 2 * (X * U) + 4 * (R * eta * U)" by (simp add: algebra_simps)
  finally have "R * \<bar>t\<bar> * U \<le> 2 * (X * U) + R * eta" using Re(3) by linarith
  moreover have "\<bar>r * t\<bar> / 2 ^ 53 = R * \<bar>t\<bar> * U" "(1::rat) / 2 ^ 1075 = eta"
    by (simp_all add: art U_def eta_def)
  ultimately have e1: "\<bar>x1 - r * t\<bar> \<le> 2 * (X * U) + R * eta + eta" using x1(2) by linarith
  have "\<bar>r * t - r * Z\<bar> = R * \<bar>t - Z\<bar>" by (simp add: R_def abs_mult right_diff_distrib[symmetric])
  moreover have "R * \<bar>t - Z\<bar> \<le> R * (4 * (S * U) + 4 * eta)" using t2 R(1) by (rule mult_left_mono)
  moreover have "R * (4 * (S * U) + 4 * eta) = 4 * (X * U) + 4 * (R * eta)"
    by (simp add: X_def algebra_simps)
  ultimately have e2: "\<bar>r * t - r * Z\<bar> \<le> 4 * (X * U) + 4 * (R * eta)" by linarith
  have s1: "\<bar>x1 - r * Z\<bar> \<le> 6 * (X * U) + 5 * (R * eta) + eta" using e1 e2 by linarith
  have rd: "\<bar>r * d\<bar> \<le> 2 ^ 601" "\<bar>- r * b\<bar> \<le> 2 ^ 601"
    using abs_mult_le_pow[OF r bd(1)] abs_mult_le_pow[OF r bd(3)] by simp_all
  have "\<bar>r * d\<bar> \<le> 2 powi 1023" unfolding p1023 using rd(1) pw(2) by linarith
  then obtain i1 where i1: "round64 (r * d) = Fin i1"
    "\<bar>i1 - r * d\<bar> \<le> \<bar>r * d\<bar> / 2 ^ 53 + 1 / 2 ^ 1075"
    by (rule round64_error)
  have "\<bar>- r * b\<bar> \<le> 2 powi 1023" unfolding p1023 using rd(2) pw(2) by linarith
  then obtain i2 where i2: "round64 (- r * b) = Fin i2"
    "\<bar>i2 - - r * b\<bar> \<le> \<bar>- r * b\<bar> / 2 ^ 53 + 1 / 2 ^ 1075"
    by (rule round64_error)
  have u1: "\<bar>r * d\<bar> / 2 ^ 53 = \<bar>r * d\<bar> * U" "\<bar>- r * b\<bar> / 2 ^ 53 = \<bar>r * b\<bar> * U"
    "(1::rat) / 2 ^ 1075 = eta"
    by (simp_all add: U_def eta_def)
  have rdU: "\<bar>r * d\<bar> * U \<le> \<bar>r * d\<bar>" "\<bar>r * b\<bar> * U \<le> \<bar>r * b\<bar>"
    using U by (simp_all add: mult_left_le)
  have ib: "\<bar>i1\<bar> \<le> 2 ^ 603" "\<bar>i2\<bar> \<le> 2 ^ 603"
    using i1(2) i2(2) rd rdU eta(2) pw(5) unfolding u1 by (simp_all add: abs_mult) linarith+
  have "\<bar>i1 * p\<bar> \<le> 2 powi 1020" "\<bar>i2 * q\<bar> \<le> 2 powi 1020"
    unfolding p1023
    using abs_mult_le_pow[OF ib(1) bd(2)] abs_mult_le_pow[OF ib(2) bd(4)] pw(3) by simp_all
  then obtain x2 where x2: "js_add (js_mul (Fin i1) (Fin p)) (js_mul (Fin i2) (Fin q)) = Fin x2"
    "\<bar>x2 - (i1 * p + i2 * q)\<bar> \<le> (\<bar>i1 * p\<bar> + \<bar>i2 * q\<bar>) / 2 ^ 51 + 1 / 2 ^ 1073"
    by (rule dot_error)
  have v2: "js_add (js_mul (js_mul (Fin r) (Fin d)) (Fin p))
            (js_mul (js_mul (js_neg (Fin r)) (Fin b)) (Fin q)) = Fin x2"
    unfolding js_neg_Fin js_mul_Fin i1(1) i2(1) by (rule x2(1)[unfolded js_mul_Fin])
  define Pd where "Pd = R * \<bar>d * p\<bar>"
  define Pb where "Pb = R * \<bar>b * q\<bar>"
  have PX: "Pd + Pb = X" "0 \<le> Pd" "0 \<le> Pb"
    using R(1) by (simp_all add: Pd_def Pb_def X_def S_def algebra_simps)
  have a1: "\<bar>r * (d * p)\<bar> = Pd" "\<bar>r * (b * q)\<bar> = Pb"
    by (simp_all add: Pd_def Pb_def R_def abs_mult)
  have "\<bar>i1 * p - r * (d * p)\<bar> = \<bar>i1 - r * d\<bar> * \<bar>p\<bar>"
    by (simp add: abs_mult[symmetric] algebra_simps)
  moreover have "\<bar>i1 - r * d\<bar> * \<bar>p\<bar> \<le> (\<bar>r * d\<bar> * U + eta) * \<bar>p\<bar>"
    using i1(2) unfolding u1 by (intro mult_right_mono) simp_all
  moreover have "(\<bar>r * d\<bar> * U + eta) * \<bar>p\<bar> = Pd * U + eta * \<bar>p\<bar>"
    by (simp add: Pd_def R_def abs_mult algebra_simps)
  ultimately have j1: "\<bar>i1 * p - r * (d * p)\<bar> \<le> Pd * U + eta * \<bar>p\<bar>" by linarith
  have "\<bar>i2 * q + r * (b * q)\<bar> = \<bar>i2 - - r * b\<bar> * \<bar>q\<bar>"
    by (simp add: abs_mult[symmetric] algebra_simps)
  moreover have "\<bar>i2 - - r * b\<bar> * \<bar>q\<bar> \<le> (\<bar>r * b\<bar> * U + eta) * \<bar>q\<bar>"
    using i2(2) unfolding u1 by (intro mult_right_mono) simp_all
  moreover have "(\<bar>r * b\<bar> * U + eta) * \<bar>q\<bar> = Pb * U + eta * \<bar>q\<bar>"
    by (simp add: Pb_def R_def abs_mult algebra_simps)
  ultimately have j2: "\<bar>i2 * q + r * (b * q)\<bar> \<le> Pb * U + eta * \<bar>q\<bar>" by linarith
  have rZ: "r * Z = r * (d * p) - r * (b * q)" by (simp add: Z_def algebra_simps)
  have eWd: "eta * W = eta * \<bar>p\<bar> + eta * \<bar>q\<bar>" by (simp add: W_def algebra_simps)
  have XUd: "X * U = Pd * U + Pb * U" by (simp add: PX(1)[symmetric] algebra_simps)
  have j3: "\<bar>i1 * p + i2 * q - r * Z\<bar> \<le> X * U + eta * W"
    unfolding rZ eWd XUd using j1 j2 by linarith
  have j4: "\<bar>i1 * p\<bar> + \<bar>i2 * q\<bar> \<le> 2 * X + eta * W"
    unfolding eWd using j1 j2 a1 PX XU(2) XUd XU(1) by linarith
  have "(\<bar>i1 * p\<bar> + \<bar>i2 * q\<bar>) * (4 * U) \<le> (2 * X + eta * W) * (4 * U)"
    using j4 U(1) by (intro mult_right_mono) simp_all
  also have "\<dots> = 8 * (X * U) + 4 * (eta * W * U)" by (simp add: algebra_simps)
  finally have "(\<bar>i1 * p\<bar> + \<bar>i2 * q\<bar>) * (4 * U) \<le> 8 * (X * U) + eta * W" using eW(3) by linarith
  moreover have "(\<bar>i1 * p\<bar> + \<bar>i2 * q\<bar>) / 2 ^ 51 = (\<bar>i1 * p\<bar> + \<bar>i2 * q\<bar>) * (4 * U)"
    "(1::rat) / 2 ^ 1073 = 4 * eta"
    by (simp_all add: U_def eta_def)
  ultimately have j5: "\<bar>x2 - (i1 * p + i2 * q)\<bar> \<le> 8 * (X * U) + eta * W + 4 * eta"
    using x2(2) by linarith
  have s2: "\<bar>x2 - r * Z\<bar> \<le> 9 * (X * U) + 2 * (eta * W) + 4 * eta" using j5 j3 by linarith
  have sm: "5 * (2 ^ 401 * eta) + 2 * (eta * 2 ^ 201) + 5 * eta \<le> 1 / 2 ^ 671"
    by (simp add: eta_def)
  have "\<bar>x1 - x2\<bar> \<le> 16 * (X * U) + 1 / 2 ^ 671"
    using s1 s2 XU(1) Re(2) eW(2) sm by linarith
  moreover have "16 * (X * U) = \<bar>r\<bar> * (\<bar>d * p\<bar> + \<bar>b * q\<bar>) / 2 ^ 49"
    by (simp add: X_def R_def S_def U_def)
  ultimately have "\<bar>x1 - x2\<bar> \<le> \<bar>r\<bar> * (\<bar>d * p\<bar> + \<bar>b * q\<bar>) / 2 ^ 49 + 1 / 2 ^ 671" by simp
  with v1 v2 show ?thesis by (rule that)
qed


lemma solve_inverse_error:
  assumes bd: "\<bar>a\<bar> \<le> 2 ^ 200" "\<bar>b\<bar> \<le> 2 ^ 200" "\<bar>c\<bar> \<le> 2 ^ 200" "\<bar>d\<bar> \<le> 2 ^ 200"
      "\<bar>p\<bar> \<le> 2 ^ 200" "\<bar>q\<bar> \<le> 2 ^ 200"
    and D: "js_sub (js_mul (Fin a) (Fin d)) (js_mul (Fin b) (Fin c)) = Fin D"
    and Dl: "1 / 2 ^ 400 \<le> \<bar>D\<bar>"
  obtains r x1 y1 x2 y2 where
    "recip_det (Fin a) (Fin b) (Fin c) (Fin d) = Fin r"
    "js_mul (Fin r) (js_sub (js_mul (Fin d) (Fin p)) (js_mul (Fin b) (Fin q))) = Fin x1"
    "js_mul (Fin r) (js_sub (js_mul (Fin a) (Fin q)) (js_mul (Fin c) (Fin p))) = Fin y1"
    "js_add (js_mul (js_mul (Fin r) (Fin d)) (Fin p))
            (js_mul (js_mul (js_neg (Fin r)) (Fin b)) (Fin q)) = Fin x2"
    "js_add (js_mul (js_mul (js_neg (Fin r)) (Fin c)) (Fin p))
            (js_mul (js_mul (Fin r) (Fin a)) (Fin q)) = Fin y2"
    "\<bar>x1 - x2\<bar> \<le> (\<bar>d * p\<bar> + \<bar>b * q\<bar>) / \<bar>D\<bar> / 2 ^ 48 + 1 / 2 ^ 600"
    "\<bar>y1 - y2\<bar> \<le> (\<bar>a * q\<bar> + \<bar>c * p\<bar>) / \<bar>D\<bar> / 2 ^ 48 + 1 / 2 ^ 600"
proof -
  define I where "I = 1 / \<bar>D\<bar>"
  define eta where "eta = (1::rat) / 2 ^ 1075"
  have eta: "0 \<le> eta" "eta \<le> 1" by (simp_all add: eta_def)
  have D0: "D \<noteq> 0" "0 < \<bar>D\<bar>" using Dl by auto
  have I: "0 \<le> I" "I \<le> 2 ^ 400" "\<bar>1 / D\<bar> = I"
  proof -
    show "0 \<le> I" by (simp add: I_def)
    have "1 / \<bar>D\<bar> \<le> 1 / (1 / 2 ^ 400)" using Dl by (intro divide_left_mono) simp_all
    thus "I \<le> 2 ^ 400" by (simp add: I_def)
    show "\<bar>1 / D\<bar> = I" by (simp add: I_def)
  qed
  have pw: "(2::rat) ^ 400 \<le> 2 ^ 1023" "(2::rat) ^ 400 + 2 ^ 400 / 2 ^ 53 + 1 \<le> 2 ^ 401"
    "(2::rat) powi 1023 = 2 ^ 1023"
    by simp_all
  have "\<bar>1 / D\<bar> \<le> 2 powi 1023" unfolding pw(3) I(3) using I(2) pw(1) by linarith
  then obtain r where r: "round64 (1 / D) = Fin r"
    "\<bar>r - 1 / D\<bar> \<le> \<bar>1 / D\<bar> / 2 ^ 53 + 1 / 2 ^ 1075"
    by (rule round64_error)
  have rd: "recip_det (Fin a) (Fin b) (Fin c) (Fin d) = Fin r"
    unfolding recip_det_def D Let_def using D0(1) r(1) by (simp add: js_neq_Fin js_div_Fin)
  have r2: "\<bar>r\<bar> \<le> I + I / 2 ^ 53 + eta"
    using r(2)[unfolded I(3) eta_def[symmetric]] I(3) by linarith
  have "I / 2 ^ 53 \<le> I" using I(1) by (simp add: divide_le_eq)
  hence rI: "\<bar>r\<bar> \<le> 2 * I + eta" using r2 by linarith
  have "I / 2 ^ 53 \<le> 2 ^ 400 / 2 ^ 53" using I(2) by (rule divide_right_mono) simp
  hence rb: "\<bar>r\<bar> \<le> 2 ^ 401" using r2 I(2) eta(2) pw(2) by linarith
  have fin: "\<bar>x1 - x2\<bar> \<le> S / \<bar>D\<bar> / 2 ^ 48 + 1 / 2 ^ 600"
    if S: "0 \<le> S" "S \<le> 2 ^ 401" and E: "\<bar>x1 - x2\<bar> \<le> \<bar>r\<bar> * S / 2 ^ 49 + 1 / 2 ^ 671"
    for x1 x2 S :: rat
  proof -
    have "\<bar>r\<bar> * S \<le> (2 * I + eta) * S" using rI S(1) by (rule mult_right_mono)
    also have "\<dots> = 2 * (I * S) + eta * S" by (simp add: algebra_simps)
    finally have 1: "\<bar>r\<bar> * S \<le> 2 * (I * S) + eta * S" .
    have 2: "eta * S \<le> eta * 2 ^ 401" using S(2) eta(1) by (rule mult_left_mono)
    have "\<bar>r\<bar> * S / 2 ^ 49 \<le> (2 * (I * S) + eta * 2 ^ 401) / 2 ^ 49"
      using 1 2 by (intro divide_right_mono) simp_all
    also have "\<dots> = I * S / 2 ^ 48 + eta * 2 ^ 401 / 2 ^ 49" by (simp add: add_divide_distrib)
    finally have 3: "\<bar>r\<bar> * S / 2 ^ 49 \<le> I * S / 2 ^ 48 + eta * 2 ^ 401 / 2 ^ 49" .
    have 4: "eta * 2 ^ 401 / 2 ^ 49 + 1 / 2 ^ 671 \<le> 1 / 2 ^ 600" by (simp add: eta_def)
    have 5: "I * S = S / \<bar>D\<bar>" by (simp add: I_def)
    show ?thesis using E 3 4 unfolding 5 by linarith
  qed
  have dp: "\<bar>d * p\<bar> \<le> 2 ^ 400" "\<bar>b * q\<bar> \<le> 2 ^ 400" "\<bar>a * q\<bar> \<le> 2 ^ 400" "\<bar>c * p\<bar> \<le> 2 ^ 400"
    using abs_mult_le_pow[OF bd(4,5)] abs_mult_le_pow[OF bd(2,6)]
      abs_mult_le_pow[OF bd(1,6)] abs_mult_le_pow[OF bd(3,5)] by simp_all
  obtain x1 x2 where x:
    "js_mul (Fin r) (js_sub (js_mul (Fin d) (Fin p)) (js_mul (Fin b) (Fin q))) = Fin x1"
    "js_add (js_mul (js_mul (Fin r) (Fin d)) (Fin p))
            (js_mul (js_mul (js_neg (Fin r)) (Fin b)) (Fin q)) = Fin x2"
    "\<bar>x1 - x2\<bar> \<le> \<bar>r\<bar> * (\<bar>d * p\<bar> + \<bar>b * q\<bar>) / 2 ^ 49 + 1 / 2 ^ 671"
    by (rule component_error[OF rb bd(4,5,2,6)])
  obtain y1 y2 where y:
    "js_mul (Fin r) (js_sub (js_mul (Fin a) (Fin q)) (js_mul (Fin c) (Fin p))) = Fin y1"
    "js_add (js_mul (js_mul (Fin r) (Fin a)) (Fin q))
            (js_mul (js_mul (js_neg (Fin r)) (Fin c)) (Fin p)) = Fin y2"
    "\<bar>y1 - y2\<bar> \<le> \<bar>r\<bar> * (\<bar>a * q\<bar> + \<bar>c * p\<bar>) / 2 ^ 49 + 1 / 2 ^ 671"
    by (rule component_error[OF rb bd(1,6,3,5)])
  have y2: "js_add (js_mul (js_mul (js_neg (Fin r)) (Fin c)) (Fin p))
            (js_mul (js_mul (Fin r) (Fin a)) (Fin q)) = Fin y2"
    using y(2) by (simp only: js_add_commute)
  have ex: "\<bar>x1 - x2\<bar> \<le> (\<bar>d * p\<bar> + \<bar>b * q\<bar>) / \<bar>D\<bar> / 2 ^ 48 + 1 / 2 ^ 600"
    using dp x(3) by (intro fin) simp_all
  have ey: "\<bar>y1 - y2\<bar> \<le> (\<bar>a * q\<bar> + \<bar>c * p\<bar>) / \<bar>D\<bar> / 2 ^ 48 + 1 / 2 ^ 600"
    using dp y(3) by (intro fin) simp_all
  from rd x(1) y(1) x(2) y2 ex ey show ?thesis by (rule that)
qed

section \<open>Claims\<close>

text \<open>
  C1.  For a matrix with columns \<open>ex = (a, c)\<close>, \<open>ey = (b, d)\<close> whose determinant
  \<open>a * d - b * c\<close> is not zero, \<open>getInverse\<close> returns a matrix with columns
  \<open>(r * d, -r * c)\<close> and \<open>(-r * b, r * a)\<close>, where \<open>r = 1 / det\<close>.  In particular
  the inverse of \<open>Mat22(2, 0, 0, 2)\<close> equals \<open>Mat22(0.5, 0, 0, 0.5)\<close>.
\<close>

theorem getInverse_adjugate:
  "(mat_of h this = Some ((a, c), (b, d)) \<and>
    js_neq (js_sub (js_mul a d) (js_mul b c)) (Fin 0) \<longrightarrow>
      (\<exists>m h'. getInverse h this = Inr (m, h') \<and>
         (let r = js_div (Fin 1) (js_sub (js_mul a d) (js_mul b c)) in
          mat_of h' m =
            Some ((js_mul r d, js_mul (js_neg r) c), (js_mul (js_neg r) b, js_mul r a)))))
   \<and> (\<exists>m h1 i h2 m' h3.
        Mat22_new h0 (Num (Fin 2)) (Num (Fin 0)) (Num (Fin 0)) (Num (Fin 2)) = Inr (m, h1) \<and>
        getInverse h1 m = Inr (i, h2) \<and>
        Mat22_new h2 (Num (Fin (1 / 2))) (Num (Fin 0)) (Num (Fin 0)) (Num (Fin (1 / 2))) = Inr (m', h3) \<and>
        mat_of h3 i = mat_of h3 m' \<and>
        mat_of h3 i = Some ((Fin (1 / 2), Fin 0), (Fin 0, Fin (1 / 2))))"
proof (intro conjI impI)
  assume A: "mat_of h this = Some ((a, c), (b, d)) \<and>
    js_neq (js_sub (js_mul a d) (js_mul b c)) (Fin 0)"
  hence r: "recip_det a b c d = js_div (Fin 1) (js_sub (js_mul a d) (js_mul b c))"
    by (simp add: recip_det_def)
  from A have "mat_of h this = Some ((a, c), (b, d))" by simp
  from getInverse_result[OF this]
  show "\<exists>m h'. getInverse h this = Inr (m, h') \<and>
         (let r = js_div (Fin 1) (js_sub (js_mul a d) (js_mul b c)) in
          mat_of h' m =
            Some ((js_mul r d, js_mul (js_neg r) c), (js_mul (js_neg r) b, js_mul r a)))"
    by (simp add: r mat_of_def vec_of_def empty_obj_def Let_def)
next
  obtain m h1 where 1: "Mat22_new h0 (Num (Fin 2)) (Num (Fin 0)) (Num (Fin 0)) (Num (Fin 2)) = Inr (m, h1)"
    by (simp add: Mat22_new_scalars)
  hence M: "mat_of h1 m = Some ((Fin 2, Fin 0), (Fin 0, Fin 2))"
    by (rule mat_of_Mat22_new_scalars)
  have rd: "recip_det (Fin 2) (Fin 0) (Fin 0) (Fin 2) = Fin (1 / 4)"
    by (simp add: recip_det_def js_Fin round64_small)
  obtain i h2 where 2: "getInverse h1 m = Inr (i, h2)"
    and I: "mat_of h2 i = Some ((Fin (1 / 2), Fin 0), (Fin 0, Fin (1 / 2)))"
    using getInverse_result[OF M]
    by (simp add: rd js_Fin round64_small mat_of_def vec_of_def empty_obj_def)
  obtain m' h3 where 3: "Mat22_new h2 (Num (Fin (1 / 2))) (Num (Fin 0)) (Num (Fin 0)) (Num (Fin (1 / 2))) = Inr (m', h3)"
    by (simp add: Mat22_new_scalars)
  hence M': "mat_of h3 m' = Some ((Fin (1 / 2), Fin 0), (Fin 0, Fin (1 / 2)))"
    by (rule mat_of_Mat22_new_scalars)
  have "mat_of h3 i = Some ((Fin (1 / 2), Fin 0), (Fin 0, Fin (1 / 2)))"
    using I 3 by (intro mat_of_mono[OF I]) (auto simp: Mat22_new_scalars)
  with 1 2 3 M' show "\<exists>m h1 i h2 m' h3.
        Mat22_new h0 (Num (Fin 2)) (Num (Fin 0)) (Num (Fin 0)) (Num (Fin 2)) = Inr (m, h1) \<and>
        getInverse h1 m = Inr (i, h2) \<and>
        Mat22_new h2 (Num (Fin (1 / 2))) (Num (Fin 0)) (Num (Fin 0)) (Num (Fin (1 / 2))) = Inr (m', h3) \<and>
        mat_of h3 i = mat_of h3 m' \<and>
        mat_of h3 i = Some ((Fin (1 / 2), Fin 0), (Fin 0, Fin (1 / 2)))"
    by auto
qed

theorem getInverse_adjugate_witness:
  "mat_of (heap_of [mat_obj 1 2, vec_obj (Fin 2) (Fin 0), vec_obj (Fin 0) (Fin 2)]) (Ref 0)
     = Some ((Fin 2, Fin 0), (Fin 0, Fin 2))
   \<and> js_neq (js_sub (js_mul (Fin 2) (Fin 2)) (js_mul (Fin 0) (Fin 0))) (Fin 0)
   \<and> result_mat
        (getInverse (heap_of [mat_obj 1 2, vec_obj (Fin 2) (Fin 0), vec_obj (Fin 0) (Fin 2)]) (Ref 0))
     = Some ((Fin (1 / 2), Fin 0), (Fin 0, Fin (1 / 2)))"
proof -
  let ?hp = "heap_of [mat_obj 1 2, vec_obj (Fin 2) (Fin 0), vec_obj (Fin 0) (Fin 2)]"
  have 1: "mat_of ?hp (Ref 0) = Some ((Fin 2, Fin 0), (Fin 0, Fin 2))"
    by (simp add: example_defs mat_of_def vec_of_def empty_obj_def)
  have 2: "js_neq (js_sub (js_mul (Fin 2) (Fin 2)) (js_mul (Fin 0) (Fin 0))) (Fin 0)"
    by (simp add: js_Fin round64_small)
  have r: "js_div (Fin 1) (js_sub (js_mul (Fin 2) (Fin 2)) (js_mul (Fin 0) (Fin 0))) = Fin (1 / 4)"
    by (simp add: js_Fin round64_small)
  from getInverse_adjugate[of ?hp "Ref 0" "Fin 2" "Fin 0" "Fin 0" "Fin 2"] 1 2
  obtain m h' where "getInverse ?hp (Ref 0) = Inr (m, h')"
    "mat_of h' m = Some ((js_mul (Fin (1 / 4)) (Fin 2), js_mul (js_neg (Fin (1 / 4))) (Fin 0)),
                         (js_mul (js_neg (Fin (1 / 4))) (Fin 0), js_mul (Fin (1 / 4)) (Fin 2)))"
    unfolding Let_def r by blast
  hence "result_mat (getInverse ?hp (Ref 0)) = Some ((Fin (1 / 2), Fin 0), (Fin 0, Fin (1 / 2)))"
    by (simp add: result_mat_def js_Fin round64_small)
  with 1 2 show ?thesis by blast
qed

text \<open>
  C2 (as it stands, refuted).  The matrix with columns \<open>(2\<^sup>6\<^sup>0\<^sup>0, 0)\<close> and \<open>(0, 0)\<close> has
  determinant zero and \<open>v = (0, 2\<^sup>6\<^sup>0\<^sup>0)\<close> is a valid vector, but \<open>solve(v)\<close> returns
  \<open>(0, NaN)\<close>: the product \<open>a * v.y\<close> overflows to \<open>Infinity\<close>, and \<open>0 * Infinity\<close> is
  \<open>NaN\<close>.
\<close>

theorem solve_singular_overflow:
  "round64 (2 ^ 600) = Fin (2 ^ 600)
   \<and> js_sub (js_mul (Fin (2 ^ 600)) (Fin 0)) (js_mul (Fin 0) (Fin 0)) = Fin 0
   \<and> result_vec
        (thn (Mat22_new heap0 (Num (Fin (2 ^ 600))) (Num (Fin 0)) (Num (Fin 0)) (Num (Fin 0)))
          (\<lambda>(m, h1). thn (Vec2_new h1 (Num (Fin 0)) (Num (Fin (2 ^ 600))))
          (\<lambda>(v, h2). solve h2 m (Ref v))))
      = Some (Fin 0, NaN)"
proof -
  have 1: "round64 (2 ^ 600) = Fin (2 ^ 600)"
    using round64_exact[of "2 ^ 600" 1 600] by simp
  have 2: "js_sub (js_mul (Fin (2 ^ 600)) (Fin 0)) (js_mul (Fin 0) (Fin 0)) = Fin 0"
    by (simp add: js_Fin round64_0)
  have "(2::rat) powi 1024 \<le> \<bar>2 ^ 600 * 2 ^ 600\<bar>" by simp
  hence 3: "js_mul (Fin (2 ^ 600)) (Fin (2 ^ 600)) = PInf"
    unfolding js_mul_Fin by (subst round64_overflow) simp_all
  have rd: "recip_det (Fin (2 ^ 600)) (Fin 0) (Fin 0) (Fin 0) = Fin 0"
    using 2 by (simp add: recip_det_def js_neq_def)
  obtain m h1 where m: "Mat22_new heap0 (Num (Fin (2 ^ 600))) (Num (Fin 0)) (Num (Fin 0)) (Num (Fin 0)) = Inr (m, h1)"
    by (simp add: Mat22_new_scalars)
  hence M: "mat_of h1 m = Some ((Fin (2 ^ 600), Fin 0), (Fin 0, Fin 0))"
    by (rule mat_of_Mat22_new_scalars)
  obtain v h2 where v: "Vec2_new h1 (Num (Fin 0)) (Num (Fin (2 ^ 600))) = Inr (v, h2)"
    by (simp add: Vec2_new_def alloc_def)
  hence V: "vec_of h2 (Ref v) = Some (Fin 0, Fin (2 ^ 600))"
    and k: "next_addr h1 \<le> next_addr h2" "\<And>a. a < next_addr h1 \<Longrightarrow> objs h2 a = objs h1 a"
    by (auto simp: Vec2_new_def alloc_def vec_of_def empty_obj_def)
  have M2: "mat_of h2 m = Some ((Fin (2 ^ 600), Fin 0), (Fin 0, Fin 0))"
    using M k by (rule mat_of_mono)
  have 4: "js_mul (Fin 0) (js_sub (js_mul (Fin 0) (Fin 0)) (js_mul (Fin 0) (Fin (2 ^ 600)))) = Fin 0"
    by (simp add: js_Fin round64_0)
  have 5: "js_mul (Fin 0) (js_sub (js_mul (Fin (2 ^ 600)) (Fin (2 ^ 600))) (js_mul (Fin 0) (Fin 0))) = NaN"
    unfolding 3 by (simp add: js_mul_zero_cases is_finite_def js_sub_def js_add_def js_neg_def
        js_mul_Fin round64_0)
  have "result_vec (solve h2 m (Ref v)) = Some (Fin 0, NaN)"
    unfolding solve_result[OF M2 V] rd 4 5
    by (simp add: result_vec_def vec_of_def empty_obj_def)
  hence "result_vec
        (thn (Mat22_new heap0 (Num (Fin (2 ^ 600))) (Num (Fin 0)) (Num (Fin 0)) (Num (Fin 0)))
          (\<lambda>(m, h1). thn (Vec2_new h1 (Num (Fin 0)) (Num (Fin (2 ^ 600))))
          (\<lambda>(v, h2). solve h2 m (Ref v))))
      = Some (Fin 0, NaN)"
    unfolding m thn_def by (simp only: sum.case prod.case v)
  with 1 2 show ?thesis by blast
qed

text \<open>
  C2 (amended).  For a matrix whose determinant \<open>a * d - b * c\<close> is zero, \<open>getInverse\<close>
  does not raise and returns the all-zero matrix (so it does for \<open>Mat22(1, 2, 2, 4)\<close>), the
  reciprocal being left at \<open>0\<close>.  For a valid vector \<open>v\<close>, \<open>solve(v)\<close> does not raise
  and returns \<open>(0 * (d * v.x - b * v.y), 0 * (a * v.y - c * v.x))\<close>: a component is \<open>0\<close>
  when the bracketed term is finite and \<open>NaN\<close> when it has overflowed.
\<close>

theorem singular_zero_policy:
  "(mat_of h this = Some ((a, c), (b, d)) \<and> js_sub (js_mul a d) (js_mul b c) = Fin 0 \<longrightarrow>
      result_mat (getInverse h this) = Some ((Fin 0, Fin 0), (Fin 0, Fin 0)) \<and>
      (vec_of h v = Some (Fin p, Fin q) \<longrightarrow>
         result_vec (solve h this v) =
           Some (if is_finite (js_sub (js_mul d (Fin p)) (js_mul b (Fin q))) then Fin 0 else NaN,
                 if is_finite (js_sub (js_mul a (Fin q)) (js_mul c (Fin p))) then Fin 0 else NaN)))
   \<and> result_mat
        (thn (Mat22_new h0 (Num (Fin 1)) (Num (Fin 2)) (Num (Fin 2)) (Num (Fin 4)))
          (\<lambda>(m, h1). getInverse h1 m))
      = Some ((Fin 0, Fin 0), (Fin 0, Fin 0))"
proof (intro conjI impI)
  assume A: "mat_of h this = Some ((a, c), (b, d)) \<and> js_sub (js_mul a d) (js_mul b c) = Fin 0"
  hence M: "mat_of h this = Some ((a, c), (b, d))" and D: "js_sub (js_mul a d) (js_mul b c) = Fin 0"
    by simp_all
  from D obtain a' b' c' d' where f: "a = Fin a'" "b = Fin b'" "c = Fin c'" "d = Fin d'"
    by (rule det_finite)
  have rd: "recip_det a b c d = Fin 0"
    by (simp add: recip_det_def D js_neq_def)
  show "result_mat (getInverse h this) = Some ((Fin 0, Fin 0), (Fin 0, Fin 0))"
    unfolding getInverse_result[OF M] rd
    by (simp add: result_mat_def mat_of_def vec_of_def empty_obj_def f js_Fin round64_0)
  assume V: "vec_of h v = Some (Fin p, Fin q)"
  show "result_vec (solve h this v) =
           Some (if is_finite (js_sub (js_mul d (Fin p)) (js_mul b (Fin q))) then Fin 0 else NaN,
                 if is_finite (js_sub (js_mul a (Fin q)) (js_mul c (Fin p))) then Fin 0 else NaN)"
    unfolding solve_result[OF M V] rd
    by (simp add: result_vec_def vec_of_def empty_obj_def js_mul_zero_cases)
next
  obtain m h1 where m: "Mat22_new h0 (Num (Fin 1)) (Num (Fin 2)) (Num (Fin 2)) (Num (Fin 4)) = Inr (m, h1)"
    by (simp add: Mat22_new_scalars)
  hence M: "mat_of h1 m = Some ((Fin 1, Fin 2), (Fin 2, Fin 4))"
    by (rule mat_of_Mat22_new_scalars)
  have rd: "recip_det (Fin 1) (Fin 2) (Fin 2) (Fin 4) = Fin 0"
    by (simp add: recip_det_def js_Fin round64_small)
  have "result_mat (getInverse h1 m) = Some ((Fin 0, Fin 0), (Fin 0, Fin 0))"
    unfolding getInverse_result[OF M] rd
    by (simp add: result_mat_def mat_of_def vec_of_def empty_obj_def js_Fin round64_0)
  thus "result_mat
        (thn (Mat22_new h0 (Num (Fin 1)) (Num (Fin 2)) (Num (Fin 2)) (Num (Fin 4)))
          (\<lambda>(m, h1). getInverse h1 m))
      = Some ((Fin 0, Fin 0), (Fin 0, Fin 0))"
    by (simp add: m thn_def)
qed

theorem singular_zero_policy_witness:
  "mat_of (heap_of [mat_obj 1 2, vec_obj (Fin 1) (Fin 2), vec_obj (Fin 2) (Fin 4)]) (Ref 0)
     = Some ((Fin 1, Fin 2), (Fin 2, Fin 4))
   \<and> js_sub (js_mul (Fin 1) (Fin 4)) (js_mul (Fin 2) (Fin 2)) = Fin 0
   \<and> vec_of (heap_of [mat_obj 1 2, vec_obj (Fin 1) (Fin 2), vec_obj (Fin 2) (Fin 4)]) (Ref 2)
     = Some (Fin 2, Fin 4)
   \<and> result_mat
        (getInverse (heap_of [mat_obj 1 2, vec_obj (Fin 1) (Fin 2), vec_obj (Fin 2) (Fin 4)]) (Ref 0))
     = Some ((Fin 0, Fin 0), (Fin 0, Fin 0))
   \<and> result_vec
        (solve (heap_of [mat_obj 1 2, vec_obj (Fin 1) (Fin 2), vec_obj (Fin 2) (Fin 4)]) (Ref 0) (Ref 2))
     = Some (Fin 0, Fin 0)"
proof -
  let ?hp = "heap_of [mat_obj 1 2, vec_obj (Fin 1) (Fin 2), vec_obj (Fin 2) (Fin 4)]"
  have 1: "mat_of ?hp (Ref 0) = Some ((Fin 1, Fin 2), (Fin 2, Fin 4))"
    by (simp add: example_defs mat_of_def vec_of_def empty_obj_def)
  have 2: "js_sub (js_mul (Fin 1) (Fin 4)) (js_mul (Fin 2) (Fin 2)) = Fin 0"
    by (simp add: js_Fin round64_small)
  have 3: "vec_of ?hp (Ref 2) = Some (Fin 2, Fin 4)"
    by (simp add: example_defs vec_of_def empty_obj_def)
  have 4: "is_finite (js_sub (js_mul (Fin 4) (Fin 2)) (js_mul (Fin 2) (Fin 4)))"
    "is_finite (js_sub (js_mul (Fin 1) (Fin 4)) (js_mul (Fin 2) (Fin 2)))"
    by (simp_all add: js_Fin round64_small is_finite_def)
  from singular_zero_policy[of ?hp "Ref 0" "Fin 1" "Fin 2" "Fin 2" "Fin 4" "Ref 2" 2 4] 1 2 3 4
  show ?thesis by simp
qed

text \<open>
  C3 (as it stands, refuted).  For \<open>M = Mat22(2\<^sup>4\<^sup>0\<^sup>0, 0, 0, 2\<^sup>4\<^sup>0\<^sup>0)\<close>, whose determinant
  \<open>2\<^sup>8\<^sup>0\<^sup>0\<close> is finite and not zero, and the valid vector \<open>v = (2\<^sup>7\<^sup>0\<^sup>0, 0)\<close>,
  \<open>M.solve(v)\<close> returns \<open>(Infinity, 0)\<close>, because \<open>d * v.x\<close> overflows, and
  \<open>Mat22.mul(M.getInverse(), v)\<close> returns \<open>(2\<^sup>3\<^sup>0\<^sup>0, 0)\<close>, the solution: no tolerance
  makes the two agree.  For \<open>M = Mat22(5, 0, 0, 7)\<close> and \<open>v = (5, 0)\<close>, \<open>M.solve(v)\<close>
  returns \<open>(1, 0)\<close> and \<open>Mat22.mul(M.getInverse(), v)\<close> returns \<open>(1 - 2\<^sup>-\<^sup>5\<^sup>3, 0)\<close>, that
  is \<open>(0.9999999999999999, 0)\<close>: where nothing overflows the two still round at different
  places.
\<close>

theorem solve_differs_from_inverse:
  "result_vec (thn (Mat22_new heap0 (Num (Fin (2 ^ 400))) (Num (Fin 0)) (Num (Fin 0)) (Num (Fin (2 ^ 400))))
       (\<lambda>(m, h1). thn (Vec2_new h1 (Num (Fin (2 ^ 700))) (Num (Fin 0)))
       (\<lambda>(v, h2). solve h2 m (Ref v)))) = Some (PInf, Fin 0)
   \<and> result_vec (thn (Mat22_new heap0 (Num (Fin (2 ^ 400))) (Num (Fin 0)) (Num (Fin 0)) (Num (Fin (2 ^ 400))))
       (\<lambda>(m, h1). thn (Vec2_new h1 (Num (Fin (2 ^ 700))) (Num (Fin 0)))
       (\<lambda>(v, h2). thn (getInverse h2 m) (\<lambda>(i, h3). Mat22_mul vmul_checked True h3 i (Ref v)))))
     = Some (Fin (2 ^ 300), Fin 0)
   \<and> result_vec (thn (Mat22_new heap0 (Num (Fin 5)) (Num (Fin 0)) (Num (Fin 0)) (Num (Fin 7)))
       (\<lambda>(m, h1). thn (Vec2_new h1 (Num (Fin 5)) (Num (Fin 0)))
       (\<lambda>(v, h2). solve h2 m (Ref v)))) = Some (Fin 1, Fin 0)
   \<and> result_vec (thn (Mat22_new heap0 (Num (Fin 5)) (Num (Fin 0)) (Num (Fin 0)) (Num (Fin 7)))
       (\<lambda>(m, h1). thn (Vec2_new h1 (Num (Fin 5)) (Num (Fin 0)))
       (\<lambda>(v, h2). thn (getInverse h2 m) (\<lambda>(i, h3). Mat22_mul vmul_checked True h3 i (Ref v)))))
     = Some (Fin (9007199254740991 / 9007199254740992), Fin 0)"
proof -
  let ?R = "8235153604334621 / 288230376151711744 :: rat"
  let ?T = "7205759403792793 / 36028797018963968 :: rat"
  let ?W = "2573485501354569 / 18014398509481984 :: rat"
  let ?U = "9007199254740991 / 9007199254740992 :: rat"
  have R: "round64 (1 / 35) = Fin ?R"
    by (rule round64_near[where e = "- 6" and n = 8235153604334621]) simp_all
  have S: "round64 (?R * 35) = Fin 1"
    by (rule round64_near[where e = "- 1" and n = 9007199254740992]) simp_all
  have T: "round64 (?R * 7) = Fin ?T"
    by (rule round64_near[where e = "- 3" and n = 7205759403792793]) simp_all
  have W: "round64 (?R * 5) = Fin ?W"
    by (rule round64_near[where e = "- 3" and n = 5146971002709138]) simp_all
  have U: "round64 (?T * 5) = Fin ?U"
    by (rule round64_near[where e = "- 1" and n = 9007199254740991]) simp_all
  have U': "round64 ?U = Fin ?U"
    by (rule round64_exact[where m = 9007199254740991 and k = "- 53"]) simp_all
  have rd: "recip_det (Fin 5) (Fin 0) (Fin 0) (Fin 7) = Fin ?R"
    by (simp add: recip_det_def js_Fin round64_small R)
  have s1: "js_mul (Fin ?R) (js_sub (js_mul (Fin 7) (Fin 5)) (js_mul (Fin 0) (Fin 0))) = Fin 1"
    using S by (simp add: js_Fin round64_small)
  have s2: "js_mul (Fin ?R) (js_sub (js_mul (Fin 5) (Fin 0)) (js_mul (Fin 0) (Fin 5))) = Fin 0"
    by (simp add: js_Fin round64_small)
  have i1: "js_mul (Fin ?R) (Fin 7) = Fin ?T" using T by (simp add: js_Fin)
  have i2: "js_mul (js_neg (Fin ?R)) (Fin 0) = Fin 0" by (simp add: js_Fin round64_0)
  have i3: "js_mul (Fin ?R) (Fin 5) = Fin ?W" using W by (simp add: js_Fin)
  have m1: "js_add (js_mul (Fin ?T) (Fin 5)) (js_mul (Fin 0) (Fin 0)) = Fin ?U"
    using U U' by (simp add: js_Fin round64_0)
  have m2: "js_add (js_mul (Fin 0) (Fin 5)) (js_mul (Fin ?W) (Fin 0)) = Fin 0"
    by (simp add: js_Fin round64_0)
  obtain m v h2 where
    1: "thn (Mat22_new heap0 (Num (Fin 5)) (Num (Fin 0)) (Num (Fin 0)) (Num (Fin 7)))
       (\<lambda>(m, h1). thn (Vec2_new h1 (Num (Fin 5)) (Num (Fin 0)))
       (\<lambda>(v, h2). solve h2 m (Ref v))) = solve h2 m (Ref v)"
    and M: "mat_of h2 m = Some ((Fin 5, Fin 0), (Fin 0, Fin 7))"
    and V: "vec_of h2 (Ref v) = Some (Fin 5, Fin 0)"
    by (rule new_mat_vec[where f = solve])
  have A: "result_vec (thn (Mat22_new heap0 (Num (Fin 5)) (Num (Fin 0)) (Num (Fin 0)) (Num (Fin 7)))
       (\<lambda>(m, h1). thn (Vec2_new h1 (Num (Fin 5)) (Num (Fin 0)))
       (\<lambda>(v, h2). solve h2 m (Ref v)))) = Some (Fin 1, Fin 0)"
    unfolding 1 solve_vec[OF M V] rd s1 s2 ..
  obtain m' v' h2' where
    2: "thn (Mat22_new heap0 (Num (Fin 5)) (Num (Fin 0)) (Num (Fin 0)) (Num (Fin 7)))
       (\<lambda>(m, h1). thn (Vec2_new h1 (Num (Fin 5)) (Num (Fin 0)))
       (\<lambda>(v, h2). thn (getInverse h2 m) (\<lambda>(i, h3). Mat22_mul vmul_checked True h3 i (Ref v))))
       = thn (getInverse h2' m') (\<lambda>(i, h3). Mat22_mul vmul_checked True h3 i (Ref v'))"
    and M': "mat_of h2' m' = Some ((Fin 5, Fin 0), (Fin 0, Fin 7))"
    and V': "vec_of h2' (Ref v') = Some (Fin 5, Fin 0)"
    by (rule new_mat_vec[where f = "\<lambda>h2 m v. thn (getInverse h2 m) (\<lambda>(i, h3). Mat22_mul vmul_checked True h3 i v)"])
  have B: "result_vec (thn (Mat22_new heap0 (Num (Fin 5)) (Num (Fin 0)) (Num (Fin 0)) (Num (Fin 7)))
       (\<lambda>(m, h1). thn (Vec2_new h1 (Num (Fin 5)) (Num (Fin 0)))
       (\<lambda>(v, h2). thn (getInverse h2 m) (\<lambda>(i, h3). Mat22_mul vmul_checked True h3 i (Ref v)))))
     = Some (Fin ?U, Fin 0)"
    unfolding 2 inverse_then_mul[OF M' V'] rd i1 i2 i3 m1 m2 ..
  have e1: "round64 (2 ^ 400 * 2 ^ 400) = Fin (2 ^ 800)"
    using round64_exact[where q = "2 ^ 800" and m = 1 and k = 800] by simp
  have e2: "round64 (1 / 2 ^ 800) = Fin (1 / 2 ^ 800)"
    using round64_exact[where q = "1 / 2 ^ 800" and m = 1 and k = "- 800"]
    by (simp add: power_int_minus_divide)
  have e3: "round64 (2 ^ 400 * 2 ^ 700) = PInf"
    using round64_overflow[of "2 ^ 400 * 2 ^ 700"] by simp
  have e4: "round64 (1 / 2 ^ 800 * 2 ^ 400) = Fin (1 / 2 ^ 400)"
    using round64_exact[where q = "1 / 2 ^ 400" and m = 1 and k = "- 400"]
    by (simp add: power_int_minus_divide)
  have e5: "round64 (1 / 2 ^ 400 * 2 ^ 700) = Fin (2 ^ 300)"
    using round64_exact[where q = "2 ^ 300" and m = 1 and k = 300] by simp
  have e6: "round64 (2 ^ 300) = Fin (2 ^ 300)"
    using round64_exact[where q = "2 ^ 300" and m = 1 and k = 300] by simp
  have rd2: "recip_det (Fin (2 ^ 400)) (Fin 0) (Fin 0) (Fin (2 ^ 400)) = Fin (1 / 2 ^ 800)"
    unfolding recip_det_def js_mul_Fin e1 using e1 e2
    by (simp add: js_Fin round64_0 Let_def)
  have o1: "js_mul (Fin (1 / 2 ^ 800))
      (js_sub (js_mul (Fin (2 ^ 400)) (Fin (2 ^ 700))) (js_mul (Fin 0) (Fin 0))) = PInf"
    unfolding js_mul_Fin e3
    by (simp add: round64_0 js_sub_def js_neg_def js_add_def js_mul_def sign_of_def)
  have o2: "js_mul (Fin (1 / 2 ^ 800))
      (js_sub (js_mul (Fin (2 ^ 400)) (Fin 0)) (js_mul (Fin 0) (Fin (2 ^ 700)))) = Fin 0"
    by (simp add: js_Fin round64_0)
  have o3: "js_mul (Fin (1 / 2 ^ 800)) (Fin (2 ^ 400)) = Fin (1 / 2 ^ 400)"
    unfolding js_mul_Fin by (rule e4)
  have o4: "js_mul (js_neg (Fin (1 / 2 ^ 800))) (Fin 0) = Fin 0" by (simp add: js_Fin round64_0)
  have z: "js_mul (Fin 0) (Fin 0) = Fin 0" by (simp add: js_Fin round64_0)
  have o5: "js_add (js_mul (Fin (1 / 2 ^ 400)) (Fin (2 ^ 700))) (js_mul (Fin 0) (Fin 0))
      = Fin (2 ^ 300)"
    unfolding z unfolding js_mul_Fin e5 js_add_Fin add_0_right e6 ..
  have o6: "js_add (js_mul (Fin 0) (Fin (2 ^ 700))) (js_mul (Fin (1 / 2 ^ 400)) (Fin 0)) = Fin 0"
    by (simp add: js_Fin round64_0)
  obtain m2 v2 k2 where
    3: "thn (Mat22_new heap0 (Num (Fin (2 ^ 400))) (Num (Fin 0)) (Num (Fin 0)) (Num (Fin (2 ^ 400))))
       (\<lambda>(m, h1). thn (Vec2_new h1 (Num (Fin (2 ^ 700))) (Num (Fin 0)))
       (\<lambda>(v, h2). solve h2 m (Ref v))) = solve k2 m2 (Ref v2)"
    and M2: "mat_of k2 m2 = Some ((Fin (2 ^ 400), Fin 0), (Fin 0, Fin (2 ^ 400)))"
    and V2: "vec_of k2 (Ref v2) = Some (Fin (2 ^ 700), Fin 0)"
    by (rule new_mat_vec[where f = solve])
  have C: "result_vec (thn (Mat22_new heap0 (Num (Fin (2 ^ 400))) (Num (Fin 0)) (Num (Fin 0)) (Num (Fin (2 ^ 400))))
       (\<lambda>(m, h1). thn (Vec2_new h1 (Num (Fin (2 ^ 700))) (Num (Fin 0)))
       (\<lambda>(v, h2). solve h2 m (Ref v)))) = Some (PInf, Fin 0)"
    unfolding 3 solve_vec[OF M2 V2] rd2 o1 o2 ..
  obtain m3 v3 k3 where
    4: "thn (Mat22_new heap0 (Num (Fin (2 ^ 400))) (Num (Fin 0)) (Num (Fin 0)) (Num (Fin (2 ^ 400))))
       (\<lambda>(m, h1). thn (Vec2_new h1 (Num (Fin (2 ^ 700))) (Num (Fin 0)))
       (\<lambda>(v, h2). thn (getInverse h2 m) (\<lambda>(i, h3). Mat22_mul vmul_checked True h3 i (Ref v))))
       = thn (getInverse k3 m3) (\<lambda>(i, h3). Mat22_mul vmul_checked True h3 i (Ref v3))"
    and M3: "mat_of k3 m3 = Some ((Fin (2 ^ 400), Fin 0), (Fin 0, Fin (2 ^ 400)))"
    and V3: "vec_of k3 (Ref v3) = Some (Fin (2 ^ 700), Fin 0)"
    by (rule new_mat_vec[where f = "\<lambda>h2 m v. thn (getInverse h2 m) (\<lambda>(i, h3). Mat22_mul vmul_checked True h3 i v)"])
  have D: "result_vec (thn (Mat22_new heap0 (Num (Fin (2 ^ 400))) (Num (Fin 0)) (Num (Fin 0)) (Num (Fin (2 ^ 400))))
       (\<lambda>(m, h1). thn (Vec2_new h1 (Num (Fin (2 ^ 700))) (Num (Fin 0)))
       (\<lambda>(v, h2). thn (getInverse h2 m) (\<lambda>(i, h3). Mat22_mul vmul_checked True h3 i (Ref v)))))
     = Some (Fin (2 ^ 300), Fin 0)"
    unfolding 4 inverse_then_mul[OF M3 V3] rd2 o3 o4 o5 o6 ..
  from C D A B show ?thesis by (intro conjI)
qed

text \<open>
  C3 (amended).  For a matrix \<open>M\<close> with columns \<open>(a, c)\<close>, \<open>(b, d)\<close> and a valid vector
  \<open>v\<close>, all six components of magnitude at most \<open>2\<^sup>2\<^sup>0\<^sup>0\<close>, and with a determinant
  \<open>D\<close>, as the code computes it, of magnitude at least \<open>2\<^sup>-\<^sup>4\<^sup>0\<^sup>0\<close>: \<open>M.solve(v)\<close> and
  \<open>Mat22.mul(M.getInverse(), v)\<close> both return a vector of finite components, and the two
  differ by at most \<open>(\<bar>d * v.x\<bar> + \<bar>b * v.y\<bar>) / \<bar>D\<bar> / 2\<^sup>4\<^sup>8 + 2\<^sup>-\<^sup>6\<^sup>0\<^sup>0\<close> in \<open>x\<close> and by at
  most \<open>(\<bar>a * v.y\<bar> + \<bar>c * v.x\<bar>) / \<bar>D\<bar> / 2\<^sup>4\<^sup>8 + 2\<^sup>-\<^sup>6\<^sup>0\<^sup>0\<close> in \<open>y\<close>: a few units in the last
  place of the terms that make up the solution.  They need not be the same vector, and
  outside that range they need not be close.
\<close>

theorem solve_agrees_with_inverse:
  "mat_of h m = Some ((Fin a, Fin c), (Fin b, Fin d)) \<and> vec_of h v = Some (Fin p, Fin q) \<and>
   \<bar>a\<bar> \<le> 2 ^ 200 \<and> \<bar>b\<bar> \<le> 2 ^ 200 \<and> \<bar>c\<bar> \<le> 2 ^ 200 \<and> \<bar>d\<bar> \<le> 2 ^ 200 \<and>
   \<bar>p\<bar> \<le> 2 ^ 200 \<and> \<bar>q\<bar> \<le> 2 ^ 200 \<and>
   js_sub (js_mul (Fin a) (Fin d)) (js_mul (Fin b) (Fin c)) = Fin D \<and> 1 / 2 ^ 400 \<le> \<bar>D\<bar> \<longrightarrow>
     (\<exists>x1 y1 x2 y2.
        result_vec (solve h m v) = Some (Fin x1, Fin y1) \<and>
        result_vec (thn (getInverse h m) (\<lambda>(i, h1). Mat22_mul vmul dbg h1 i v))
          = Some (Fin x2, Fin y2) \<and>
        \<bar>x1 - x2\<bar> \<le> (\<bar>d * p\<bar> + \<bar>b * q\<bar>) / \<bar>D\<bar> / 2 ^ 48 + 1 / 2 ^ 600 \<and>
        \<bar>y1 - y2\<bar> \<le> (\<bar>a * q\<bar> + \<bar>c * p\<bar>) / \<bar>D\<bar> / 2 ^ 48 + 1 / 2 ^ 600)"
proof
  assume A: "mat_of h m = Some ((Fin a, Fin c), (Fin b, Fin d)) \<and> vec_of h v = Some (Fin p, Fin q) \<and>
   \<bar>a\<bar> \<le> 2 ^ 200 \<and> \<bar>b\<bar> \<le> 2 ^ 200 \<and> \<bar>c\<bar> \<le> 2 ^ 200 \<and> \<bar>d\<bar> \<le> 2 ^ 200 \<and>
   \<bar>p\<bar> \<le> 2 ^ 200 \<and> \<bar>q\<bar> \<le> 2 ^ 200 \<and>
   js_sub (js_mul (Fin a) (Fin d)) (js_mul (Fin b) (Fin c)) = Fin D \<and> 1 / 2 ^ 400 \<le> \<bar>D\<bar>"
  hence M: "mat_of h m = Some ((Fin a, Fin c), (Fin b, Fin d))"
    and V: "vec_of h v = Some (Fin p, Fin q)"
    and bd: "\<bar>a\<bar> \<le> 2 ^ 200" "\<bar>b\<bar> \<le> 2 ^ 200" "\<bar>c\<bar> \<le> 2 ^ 200" "\<bar>d\<bar> \<le> 2 ^ 200"
      "\<bar>p\<bar> \<le> 2 ^ 200" "\<bar>q\<bar> \<le> 2 ^ 200"
    and D: "js_sub (js_mul (Fin a) (Fin d)) (js_mul (Fin b) (Fin c)) = Fin D"
    and Dl: "1 / 2 ^ 400 \<le> \<bar>D\<bar>"
    by simp_all
  from bd D Dl obtain r x1 y1 x2 y2 where
    rd: "recip_det (Fin a) (Fin b) (Fin c) (Fin d) = Fin r"
    and s: "js_mul (Fin r) (js_sub (js_mul (Fin d) (Fin p)) (js_mul (Fin b) (Fin q))) = Fin x1"
      "js_mul (Fin r) (js_sub (js_mul (Fin a) (Fin q)) (js_mul (Fin c) (Fin p))) = Fin y1"
    and i: "js_add (js_mul (js_mul (Fin r) (Fin d)) (Fin p))
            (js_mul (js_mul (js_neg (Fin r)) (Fin b)) (Fin q)) = Fin x2"
      "js_add (js_mul (js_mul (js_neg (Fin r)) (Fin c)) (Fin p))
            (js_mul (js_mul (Fin r) (Fin a)) (Fin q)) = Fin y2"
    and E: "\<bar>x1 - x2\<bar> \<le> (\<bar>d * p\<bar> + \<bar>b * q\<bar>) / \<bar>D\<bar> / 2 ^ 48 + 1 / 2 ^ 600"
      "\<bar>y1 - y2\<bar> \<le> (\<bar>a * q\<bar> + \<bar>c * p\<bar>) / \<bar>D\<bar> / 2 ^ 48 + 1 / 2 ^ 600"
    by (rule solve_inverse_error)
  have 1: "result_vec (solve h m v) = Some (Fin x1, Fin y1)"
    unfolding solve_vec[OF M V] rd s ..
  have 2: "result_vec (thn (getInverse h m) (\<lambda>(i, h1). Mat22_mul vmul dbg h1 i v))
      = Some (Fin x2, Fin y2)"
    unfolding inverse_then_mul[OF M V] rd i ..
  from 1 2 E show "\<exists>x1 y1 x2 y2.
        result_vec (solve h m v) = Some (Fin x1, Fin y1) \<and>
        result_vec (thn (getInverse h m) (\<lambda>(i, h1). Mat22_mul vmul dbg h1 i v))
          = Some (Fin x2, Fin y2) \<and>
        \<bar>x1 - x2\<bar> \<le> (\<bar>d * p\<bar> + \<bar>b * q\<bar>) / \<bar>D\<bar> / 2 ^ 48 + 1 / 2 ^ 600 \<and>
        \<bar>y1 - y2\<bar> \<le> (\<bar>a * q\<bar> + \<bar>c * p\<bar>) / \<bar>D\<bar> / 2 ^ 48 + 1 / 2 ^ 600"
    by blast
qed

text \<open>
  \<open>Mat22(5, 0, 0, 7)\<close> and \<open>v = (5, 0)\<close>, of the example above: the determinant is \<open>35\<close>,
  and the two \<open>x\<close>, which are \<open>1\<close> and \<open>1 - 2\<^sup>-\<^sup>5\<^sup>3\<close>, are within
  \<open>35 / 35 / 2\<^sup>4\<^sup>8 + 2\<^sup>-\<^sup>6\<^sup>0\<^sup>0\<close>.
\<close>

theorem solve_agrees_with_inverse_witness:
  "mat_of (heap_of [mat_obj 1 2, vec_obj (Fin 5) (Fin 0), vec_obj (Fin 0) (Fin 7),
                    vec_obj (Fin 5) (Fin 0)]) (Ref 0)
     = Some ((Fin 5, Fin 0), (Fin 0, Fin 7))
   \<and> vec_of (heap_of [mat_obj 1 2, vec_obj (Fin 5) (Fin 0), vec_obj (Fin 0) (Fin 7),
                      vec_obj (Fin 5) (Fin 0)]) (Ref 3)
     = Some (Fin 5, Fin 0)
   \<and> js_sub (js_mul (Fin 5) (Fin 7)) (js_mul (Fin 0) (Fin 0)) = Fin 35
   \<and> (\<exists>x1 y1 x2 y2.
        result_vec
          (solve (heap_of [mat_obj 1 2, vec_obj (Fin 5) (Fin 0), vec_obj (Fin 0) (Fin 7),
                           vec_obj (Fin 5) (Fin 0)]) (Ref 0) (Ref 3))
          = Some (Fin x1, Fin y1) \<and>
        result_vec
          (thn (getInverse (heap_of [mat_obj 1 2, vec_obj (Fin 5) (Fin 0), vec_obj (Fin 0) (Fin 7),
                                     vec_obj (Fin 5) (Fin 0)]) (Ref 0))
             (\<lambda>(i, h1). Mat22_mul vmul_checked True h1 i (Ref 3)))
          = Some (Fin x2, Fin y2) \<and>
        \<bar>x1 - x2\<bar> \<le> 35 / 35 / 2 ^ 48 + 1 / 2 ^ 600 \<and>
        \<bar>y1 - y2\<bar> \<le> 0 / 35 / 2 ^ 48 + 1 / 2 ^ 600)"
proof -
  let ?hp = "heap_of [mat_obj 1 2, vec_obj (Fin 5) (Fin 0), vec_obj (Fin 0) (Fin 7),
                      vec_obj (Fin 5) (Fin 0)]"
  have 1: "mat_of ?hp (Ref 0) = Some ((Fin 5, Fin 0), (Fin 0, Fin 7))"
    "vec_of ?hp (Ref 3) = Some (Fin 5, Fin 0)"
    by (simp_all add: example_defs mat_of_def vec_of_def empty_obj_def)
  have 2: "js_sub (js_mul (Fin 5) (Fin 7)) (js_mul (Fin 0) (Fin 0)) = Fin 35"
    by (simp add: js_Fin round64_small)
  have 3: "\<bar>5 :: rat\<bar> \<le> 2 ^ 200" "\<bar>0 :: rat\<bar> \<le> 2 ^ 200" "\<bar>7 :: rat\<bar> \<le> 2 ^ 200"
    "1 / 2 ^ 400 \<le> \<bar>35 :: rat\<bar>"
    by simp_all
  have 4: "(\<bar>7 * 5 :: rat\<bar> + \<bar>0 * 0\<bar>) / \<bar>35\<bar> = 35 / 35"
    "(\<bar>5 * 0 :: rat\<bar> + \<bar>0 * 5\<bar>) / \<bar>35\<bar> = 0 / 35"
    by simp_all
  from solve_agrees_with_inverse[where h = ?hp and m = "Ref 0" and v = "Ref 3" and a = 5
      and c = 0 and b = 0 and d = 7 and p = 5 and q = 0 and D = 35 and dbg = True
      and vmul = vmul_checked] 1 2 3
  have "\<exists>x1 y1 x2 y2.
        result_vec (solve ?hp (Ref 0) (Ref 3)) = Some (Fin x1, Fin y1) \<and>
        result_vec (thn (getInverse ?hp (Ref 0)) (\<lambda>(i, h1). Mat22_mul vmul_checked True h1 i (Ref 3)))
          = Some (Fin x2, Fin y2) \<and>
        \<bar>x1 - x2\<bar> \<le> (\<bar>7 * 5\<bar> + \<bar>0 * 0\<bar>) / \<bar>35\<bar> / 2 ^ 48 + 1 / 2 ^ 600 \<and>
        \<bar>y1 - y2\<bar> \<le> (\<bar>5 * 0\<bar> + \<bar>0 * 5\<bar>) / \<bar>35\<bar> / 2 ^ 48 + 1 / 2 ^ 600"
    by blast
  hence "\<exists>x1 y1 x2 y2.
        result_vec (solve ?hp (Ref 0) (Ref 3)) = Some (Fin x1, Fin y1) \<and>
        result_vec (thn (getInverse ?hp (Ref 0)) (\<lambda>(i, h1). Mat22_mul vmul_checked True h1 i (Ref 3)))
          = Some (Fin x2, Fin y2) \<and>
        \<bar>x1 - x2\<bar> \<le> 35 / 35 / 2 ^ 48 + 1 / 2 ^ 600 \<and>
        \<bar>y1 - y2\<bar> \<le> 0 / 35 / 2 ^ 48 + 1 / 2 ^ 600"
    unfolding 4 .
  with 1 2 show ?thesis by (intro conjI)
qed

text \<open>
  C4 (the code at work).  For a matrix operand \<open>v\<close> (a valid \<open>Mat22\<close> object, which has
  \<open>ex\<close> and \<open>ey\<close> and is not taken for a vector), \<open>Mat22.mul(mx, v)\<close> does not apply
  \<open>mx\<close> to the columns of \<open>v\<close> itself.  Its vector branch would: \<open>Mat22.mul(mx, v.ex)\<close>
  returns the first column of the product.  The matrix branch instead hands the matrix
  \<open>mx\<close> and each column to \<open>Vec2.mul\<close>, the product of the vector module, and makes a
  matrix of what that returns; when \<open>Vec2.mul\<close> raises on the matrix \<open>mx\<close>, so does
  \<open>Mat22.mul(mx, v)\<close>.
\<close>

theorem mul_matrix_delegates:
  "mat_of h mx = Some ((a, c), (b, d)) \<and>
   mat_of h v = Some ((Fin p1, Fin q1), (Fin p2, Fin q2)) \<and> has_x_y h v = Inr False \<and>
   get_ref ex h v = Inr vex \<longrightarrow>
     result_vec (Mat22_mul vmul dbg h mx vex) =
       Some (js_add (js_mul a (Fin p1)) (js_mul b (Fin q1)),
             js_add (js_mul c (Fin p1)) (js_mul d (Fin q1))) \<and>
     Mat22_mul vmul dbg h mx v =
       thn (vmul h mx vex) (\<lambda>(c1, h1).
       thn (get_ref ey h1 v) (\<lambda>vey.
       thn (vmul h1 mx vey) (\<lambda>(c2, h2).
       Mat22_new h2 c1 c2 Undefined Undefined))) \<and>
     (vmul h mx vex = Inl e \<longrightarrow> Mat22_mul vmul dbg h mx v = Inl e)"
proof
  assume A: "mat_of h mx = Some ((a, c), (b, d)) \<and>
   mat_of h v = Some ((Fin p1, Fin q1), (Fin p2, Fin q2)) \<and> has_x_y h v = Inr False \<and>
   get_ref ex h v = Inr vex"
  hence M: "mat_of h mx = Some ((a, c), (b, d))"
    and V: "mat_of h v = Some ((Fin p1, Fin q1), (Fin p2, Fin q2))"
    and S: "has_x_y h v = Inr False" and X: "get_ref ex h v = Inr vex" by simp_all
  from V X have C: "vec_of h vex = Some (Fin p1, Fin q1)"
    by (auto elim!: mat_of_columns)
  have 1: "result_vec (Mat22_mul vmul dbg h mx vex) =
       Some (js_add (js_mul a (Fin p1)) (js_mul b (Fin q1)),
             js_add (js_mul c (Fin p1)) (js_mul d (Fin q1)))"
    unfolding Mat22_mul_vec_result[OF M C] by (rule result_vec_alloc)
  note 2 = Mat22_mul_mat_branch[OF V S X, of vmul dbg mx]
  have 3: "vmul h mx vex = Inl e \<longrightarrow> Mat22_mul vmul dbg h mx v = Inl e"
    unfolding 2 by (simp add: thn_def)
  from 1 2 3 show "result_vec (Mat22_mul vmul dbg h mx vex) =
       Some (js_add (js_mul a (Fin p1)) (js_mul b (Fin q1)),
             js_add (js_mul c (Fin p1)) (js_mul d (Fin q1))) \<and>
     Mat22_mul vmul dbg h mx v =
       thn (vmul h mx vex) (\<lambda>(c1, h1).
       thn (get_ref ey h1 v) (\<lambda>vey.
       thn (vmul h1 mx vey) (\<lambda>(c2, h2).
       Mat22_new h2 c1 c2 Undefined Undefined))) \<and>
     (vmul h mx vex = Inl e \<longrightarrow> Mat22_mul vmul dbg h mx v = Inl e)"
    by (intro conjI)
qed

text \<open>
  \<open>Mat22.mul(m, m)\<close> for \<open>m = Mat22(1, 2, 3, 4)\<close>, with a \<open>Vec2.mul\<close> that validates its
  first operand: the matrix \<open>m\<close> is no valid vector, and the call raises, where the product
  has the first column \<open>(7, 15)\<close>.
\<close>

theorem mul_matrix_delegates_witness:
  "mat_of (heap_of [mat_obj 1 2, vec_obj (Fin 1) (Fin 3), vec_obj (Fin 2) (Fin 4)]) (Ref 0)
     = Some ((Fin 1, Fin 3), (Fin 2, Fin 4))
   \<and> has_x_y (heap_of [mat_obj 1 2, vec_obj (Fin 1) (Fin 3), vec_obj (Fin 2) (Fin 4)]) (Ref 0)
     = Inr False
   \<and> get_ref ex (heap_of [mat_obj 1 2, vec_obj (Fin 1) (Fin 3), vec_obj (Fin 2) (Fin 4)]) (Ref 0)
     = Inr (Ref 1)
   \<and> vmul_checked (heap_of [mat_obj 1 2, vec_obj (Fin 1) (Fin 3), vec_obj (Fin 2) (Fin 4)])
        (Ref 0) (Ref 1)
     = Inl (Error ''Invalid Vec2!'')
   \<and> result_vec
        (Mat22_mul vmul_checked True
           (heap_of [mat_obj 1 2, vec_obj (Fin 1) (Fin 3), vec_obj (Fin 2) (Fin 4)])
           (Ref 0) (Ref 1))
     = Some (Fin 7, Fin 15)
   \<and> Mat22_mul vmul_checked True
        (heap_of [mat_obj 1 2, vec_obj (Fin 1) (Fin 3), vec_obj (Fin 2) (Fin 4)])
        (Ref 0) (Ref 0)
     = Inl (Error ''Invalid Vec2!'')"
proof -
  let ?hp = "heap_of [mat_obj 1 2, vec_obj (Fin 1) (Fin 3), vec_obj (Fin 2) (Fin 4)]"
  have 1: "mat_of ?hp (Ref 0) = Some ((Fin 1, Fin 3), (Fin 2, Fin 4))"
    by (simp add: example_defs mat_of_def vec_of_def empty_obj_def)
  have 2: "has_x_y ?hp (Ref 0) = Inr False"
    by (simp add: example_defs has_x_y_def has_prop_def truthy_def thn_def empty_obj_def)
  have 3: "get_ref ex ?hp (Ref 0) = Inr (Ref 1)"
    by (simp add: example_defs get_ref_def ref_val_def empty_obj_def)
  have 4: "vmul_checked ?hp (Ref 0) (Ref 1) = Inl (Error ''Invalid Vec2!'')"
    by (simp add: example_defs vmul_checked_def Vec2_assert_def Vec2_isValid_def thn_def
        empty_obj_def)
  have 5: "js_add (js_mul (Fin 1) (Fin 1)) (js_mul (Fin 2) (Fin 3)) = Fin 7"
    "js_add (js_mul (Fin 3) (Fin 1)) (js_mul (Fin 4) (Fin 3)) = Fin 15"
    by (simp_all add: js_Fin round64_small)
  from mul_matrix_delegates[where h = ?hp and mx = "Ref 0" and v = "Ref 0" and a = "Fin 1"
      and c = "Fin 3" and b = "Fin 2" and d = "Fin 4" and ?p1.0 = 1 and ?q1.0 = 3 and ?p2.0 = 2
      and ?q2.0 = 4 and vex = "Ref 1" and dbg = True and vmul = vmul_checked
      and e = "Error ''Invalid Vec2!''"] 1 2 3 4
  have "result_vec (Mat22_mul vmul_checked True ?hp (Ref 0) (Ref 1)) = Some (Fin 7, Fin 15)"
    "Mat22_mul vmul_checked True ?hp (Ref 0) (Ref 0) = Inl (Error ''Invalid Vec2!'')"
    unfolding 5 by blast+
  with 1 2 3 4 show ?thesis by blast
qed

text \<open>
  C5 (the code at work).  \<open>Mat22.add\<close> does not return the sum of two valid matrices: it
  returns nothing.  \<open>mx1.ex + mx2.ex\<close> is a string, \<open>Vec2.add\<close> receives that string and
  no second argument, and reading \<open>x\<close> from the missing argument throws.  An invalid
  argument is rejected before that.
\<close>

theorem add_throws:
  "(Mat22_isValid h mx1 \<and> Mat22_isValid h mx2 \<longrightarrow> Mat22_add str h mx1 mx2 = Inl TypeError)
   \<and> (\<not> (Mat22_isValid h mx1 \<and> Mat22_isValid h mx2) \<longrightarrow>
         Mat22_add str h mx1 mx2 = Inl (Error ''Invalid Mat22!''))"
proof -
  have col: "\<exists>a. get_ref fld h m = Inr (Ref a)"
    if "truthy m" "Vec2_isValid h (prop_ref fld h m)" for fld m
    using that
    by (cases m) (auto simp: get_ref_def prop_ref_def Vec2_isValid_def truthy_def ref_val_def
        split: option.splits val.splits)
  show ?thesis
  proof (intro conjI impI)
    assume A: "Mat22_isValid h mx1 \<and> Mat22_isValid h mx2"
    then obtain a1 a2 where "get_ref ex h mx1 = Inr (Ref a1)" "get_ref ex h mx2 = Inr (Ref a2)"
      using col[of mx1 ex] col[of mx2 ex] by (auto simp: Mat22_isValid_def)
    thus "Mat22_add str h mx1 mx2 = Inl TypeError"
      using A by (simp add: Mat22_add_def Mat22_assert_def thn_def js_plus_def Vec2_add_def
          get_num_def)
  next
    assume "\<not> (Mat22_isValid h mx1 \<and> Mat22_isValid h mx2)"
    thus "Mat22_add str h mx1 mx2 = Inl (Error ''Invalid Mat22!'')"
      by (auto simp: Mat22_add_def Mat22_assert_def thn_def)
  qed
qed

theorem add_throws_witness:
  "Mat22_isValid (heap_of [mat_obj 1 2, vec_obj (Fin 1) (Fin 3), vec_obj (Fin 2) (Fin 4),
                           mat_obj 4 5, vec_obj (Fin 5) (Fin 7), vec_obj (Fin 6) (Fin 8)]) (Ref 0)
   \<and> Mat22_isValid (heap_of [mat_obj 1 2, vec_obj (Fin 1) (Fin 3), vec_obj (Fin 2) (Fin 4),
                             mat_obj 4 5, vec_obj (Fin 5) (Fin 7), vec_obj (Fin 6) (Fin 8)]) (Ref 3)
   \<and> Mat22_add (\<lambda>h a. ''[object Object]'')
        (heap_of [mat_obj 1 2, vec_obj (Fin 1) (Fin 3), vec_obj (Fin 2) (Fin 4),
                  mat_obj 4 5, vec_obj (Fin 5) (Fin 7), vec_obj (Fin 6) (Fin 8)]) (Ref 0) (Ref 3)
     = Inl TypeError"
proof -
  let ?hp = "heap_of [mat_obj 1 2, vec_obj (Fin 1) (Fin 3), vec_obj (Fin 2) (Fin 4),
                      mat_obj 4 5, vec_obj (Fin 5) (Fin 7), vec_obj (Fin 6) (Fin 8)]"
  have 1: "Mat22_isValid ?hp (Ref 0)" "Mat22_isValid ?hp (Ref 3)"
    by (simp_all add: example_defs Mat22_isValid_def truthy_def prop_ref_def ref_val_def
        Vec2_isValid_def is_finite_def empty_obj_def)
  from add_throws[of ?hp "Ref 0" "Ref 3" "\<lambda>h a. ''[object Object]''"] 1
  show ?thesis by blast
qed

text \<open>
  C6 (the code at work).  \<open>setIdentity\<close> makes the columns of a matrix \<open>(1, 0)\<close> and
  \<open>(0, 1)\<close> (its two columns being two objects, as the constructor makes them), and that
  matrix is a left identity of \<open>Mat22.mul\<close> on vectors: for a valid vector \<open>v\<close> of
  binary64 numbers the result has the components of \<open>v\<close>.  For a matrix operand \<open>w\<close> the
  identity law is not in the hands of \<open>Mat22.mul\<close>: the identity matrix itself is passed to
  \<open>Vec2.mul\<close> as its first argument, and when \<open>Vec2.mul\<close> raises on it, so does
  \<open>Mat22.mul(Identity, w)\<close>.
\<close>

theorem mul_left_identity:
  "(mat_of h0 m = Some u \<and> get_ref ex h0 m \<noteq> get_ref ey h0 m \<longrightarrow>
      (\<exists>h1. setIdentity h0 m = Inr h1 \<and> mat_of h1 m = Some ((Fin 1, Fin 0), (Fin 0, Fin 1))))
   \<and> (mat_of h m = Some ((Fin 1, Fin 0), (Fin 0, Fin 1)) \<and>
       vec_of h v = Some (Fin p, Fin q) \<and> is_double (Fin p) \<and> is_double (Fin q) \<longrightarrow>
         result_vec (Mat22_mul vmul dbg h m v) = Some (Fin p, Fin q))
   \<and> (mat_of h m = Some ((Fin 1, Fin 0), (Fin 0, Fin 1)) \<and>
       mat_of h w = Some ((Fin p1, Fin q1), (Fin p2, Fin q2)) \<and> has_x_y h w = Inr False \<and>
       get_ref ex h w = Inr wex \<and> vmul h m wex = Inl e \<longrightarrow>
         Mat22_mul vmul dbg h m w = Inl e)"
proof (intro conjI impI)
  assume A: "mat_of h0 m = Some u \<and> get_ref ex h0 m \<noteq> get_ref ey h0 m"
  obtain a b c d where u: "u = ((a, c), (b, d))" by (metis surj_pair)
  from A have "mat_of h0 m = Some ((a, c), (b, d))" by (simp add: u)
  thus "\<exists>h1. setIdentity h0 m = Inr h1 \<and> mat_of h1 m = Some ((Fin 1, Fin 0), (Fin 0, Fin 1))"
    using A
    by (elim mat_ofD) (auto simp: setIdentity_def access_defs mat_of_def vec_of_def)
next
  assume A: "mat_of h m = Some ((Fin 1, Fin 0), (Fin 0, Fin 1)) \<and>
       vec_of h v = Some (Fin p, Fin q) \<and> is_double (Fin p) \<and> is_double (Fin q)"
  hence M: "mat_of h m = Some ((Fin 1, Fin 0), (Fin 0, Fin 1))"
    and V: "vec_of h v = Some (Fin p, Fin q)"
    and D: "round64 p = Fin p" "round64 q = Fin q"
    by (simp_all add: is_double_def)
  show "result_vec (Mat22_mul vmul dbg h m v) = Some (Fin p, Fin q)"
    unfolding Mat22_mul_vec_result[OF M V] result_vec_alloc
    by (simp add: js_Fin round64_0 D)
next
  assume A: "mat_of h m = Some ((Fin 1, Fin 0), (Fin 0, Fin 1)) \<and>
       mat_of h w = Some ((Fin p1, Fin q1), (Fin p2, Fin q2)) \<and> has_x_y h w = Inr False \<and>
       get_ref ex h w = Inr wex \<and> vmul h m wex = Inl e"
  hence W: "mat_of h w = Some ((Fin p1, Fin q1), (Fin p2, Fin q2))"
    and S: "has_x_y h w = Inr False" and X: "get_ref ex h w = Inr wex"
    and E: "vmul h m wex = Inl e"
    by simp_all
  show "Mat22_mul vmul dbg h m w = Inl e"
    unfolding Mat22_mul_mat_branch[OF W S X] E by (simp add: thn_def)
qed

text \<open>
  \<open>setIdentity\<close> on \<open>Mat22(1, 2, 3, 4)\<close>; the identity applied to the vector
  \<open>(7, 0.5)\<close>; and \<open>Mat22.mul(Identity, Mat22(5, 7, 6, 0.5))\<close> with a \<open>Vec2.mul\<close> that
  validates its first operand, which raises.
\<close>

theorem mul_left_identity_witness:
  "mat_of (heap_of [mat_obj 1 2, vec_obj (Fin 1) (Fin 3), vec_obj (Fin 2) (Fin 4)]) (Ref 0)
     = Some ((Fin 1, Fin 3), (Fin 2, Fin 4))
   \<and> get_ref ex (heap_of [mat_obj 1 2, vec_obj (Fin 1) (Fin 3), vec_obj (Fin 2) (Fin 4)]) (Ref 0)
     \<noteq> get_ref ey (heap_of [mat_obj 1 2, vec_obj (Fin 1) (Fin 3), vec_obj (Fin 2) (Fin 4)]) (Ref 0)
   \<and> result_mat
        (thn (setIdentity (heap_of [mat_obj 1 2, vec_obj (Fin 1) (Fin 3), vec_obj (Fin 2) (Fin 4)])
                (Ref 0))
           (\<lambda>h1. Inr (Ref 0, h1)))
     = Some ((Fin 1, Fin 0), (Fin 0, Fin 1))
   \<and> mat_of (heap_of [mat_obj 1 2, vec_obj (Fin 1) (Fin 0), vec_obj (Fin 0) (Fin 1),
                      mat_obj 4 5, vec_obj (Fin 5) (Fin 6), vec_obj (Fin 7) (Fin (1 / 2))]) (Ref 0)
     = Some ((Fin 1, Fin 0), (Fin 0, Fin 1))
   \<and> is_double (Fin 7) \<and> is_double (Fin (1 / 2))
   \<and> result_vec
        (Mat22_mul vmul_checked True
           (heap_of [mat_obj 1 2, vec_obj (Fin 1) (Fin 0), vec_obj (Fin 0) (Fin 1),
                     mat_obj 4 5, vec_obj (Fin 5) (Fin 6), vec_obj (Fin 7) (Fin (1 / 2))])
           (Ref 0) (Ref 5))
     = Some (Fin 7, Fin (1 / 2))
   \<and> vmul_checked
        (heap_of [mat_obj 1 2, vec_obj (Fin 1) (Fin 0), vec_obj (Fin 0) (Fin 1),
                  mat_obj 4 5, vec_obj (Fin 5) (Fin 6), vec_obj (Fin 7) (Fin (1 / 2))])
        (Ref 0) (Ref 4)
     = Inl (Error ''Invalid Vec2!'')
   \<and> Mat22_mul vmul_checked True
        (heap_of [mat_obj 1 2, vec_obj (Fin 1) (Fin 0), vec_obj (Fin 0) (Fin 1),
                  mat_obj 4 5, vec_obj (Fin 5) (Fin 6), vec_obj (Fin 7) (Fin (1 / 2))])
        (Ref 0) (Ref 3)
     = Inl (Error ''Invalid Vec2!'')"
proof -
  let ?ha = "heap_of [mat_obj 1 2, vec_obj (Fin 1) (Fin 3), vec_obj (Fin 2) (Fin 4)]"
  let ?hb = "heap_of [mat_obj 1 2, vec_obj (Fin 1) (Fin 0), vec_obj (Fin 0) (Fin 1),
                      mat_obj 4 5, vec_obj (Fin 5) (Fin 6), vec_obj (Fin 7) (Fin (1 / 2))]"
  let ?u = "((Fin 1, Fin 3), (Fin 2, Fin 4))"
  have 1: "mat_of ?ha (Ref 0) = Some ?u"
    by (simp add: example_defs mat_of_def vec_of_def empty_obj_def)
  have 2: "get_ref ex ?ha (Ref 0) \<noteq> get_ref ey ?ha (Ref 0)"
    by (simp add: example_defs get_ref_def ref_val_def empty_obj_def)
  have 3: "mat_of ?hb (Ref 0) = Some ((Fin 1, Fin 0), (Fin 0, Fin 1))"
    by (simp add: example_defs mat_of_def vec_of_def empty_obj_def)
  have 4: "is_double (Fin 7)" "is_double (Fin (1 / 2))"
    by (simp_all add: is_double_def round64_small)
  have 5: "vec_of ?hb (Ref 5) = Some (Fin 7, Fin (1 / 2))"
    by (simp add: example_defs vec_of_def empty_obj_def)
  have 6: "mat_of ?hb (Ref 3) = Some ((Fin 5, Fin 6), (Fin 7, Fin (1 / 2)))"
    by (simp add: example_defs mat_of_def vec_of_def empty_obj_def)
  have 7: "has_x_y ?hb (Ref 3) = Inr False"
    by (simp add: example_defs has_x_y_def has_prop_def truthy_def thn_def empty_obj_def)
  have 8: "get_ref ex ?hb (Ref 3) = Inr (Ref 4)"
    by (simp add: example_defs get_ref_def ref_val_def empty_obj_def)
  have 9: "vmul_checked ?hb (Ref 0) (Ref 4) = Inl (Error ''Invalid Vec2!'')"
    by (simp add: example_defs vmul_checked_def Vec2_assert_def Vec2_isValid_def thn_def
        empty_obj_def)
  note T = mul_left_identity[where ?h0.0 = ?ha and m = "Ref 0" and u = ?u and h = ?hb
      and v = "Ref 5" and p = 7 and q = "1 / 2" and dbg = True and vmul = vmul_checked
      and w = "Ref 3" and ?p1.0 = 5 and ?q1.0 = 6 and ?p2.0 = 7 and ?q2.0 = "1 / 2"
      and wex = "Ref 4" and e = "Error ''Invalid Vec2!''"]
  from T 1 2 obtain h1 where "setIdentity ?ha (Ref 0) = Inr h1"
    "mat_of h1 (Ref 0) = Some ((Fin 1, Fin 0), (Fin 0, Fin 1))" by blast
  hence 10: "result_mat (thn (setIdentity ?ha (Ref 0)) (\<lambda>h1. Inr (Ref 0, h1)))
      = Some ((Fin 1, Fin 0), (Fin 0, Fin 1))"
    by (simp add: thn_def result_mat_def)
  from T 3 4 5 have 11: "result_vec (Mat22_mul vmul_checked True ?hb (Ref 0) (Ref 5))
      = Some (Fin 7, Fin (1 / 2))"
    by blast
  from T 3 6 7 8 9 have 12: "Mat22_mul vmul_checked True ?hb (Ref 0) (Ref 3)
      = Inl (Error ''Invalid Vec2!'')"
    by blast
  from 1 2 3 4 9 10 11 12 show ?thesis by blast
qed

text \<open>
  C7 (as it stands, refuted).  \<open>Mat22(0, 1, -1, 0)\<close> has the columns \<open>ex = (0, -1)\<close> and
  \<open>ey = (1, 0)\<close>, since the constructor takes \<open>(a, b, c, d)\<close> row by row.  So
  \<open>Mat22.mul(M, (1, 0))\<close> is \<open>(0, -1)\<close>, not \<open>(0, 1)\<close>, and \<open>Mat22.mulT(M, (0, 1))\<close> is
  \<open>(-1, 0)\<close>, not \<open>(1, 0)\<close>.  And the round trip through a rotation does not return the
  vector itself: for the rotation by 45 degrees, \<open>M = Mat22(r, -r, r, r)\<close> with
  \<open>r = 0.7071067811865476\<close>, the binary64 value next to \<open>\<surd>2 / 2\<close>,
  \<open>Mat22.mul(M, Mat22.mulT(M, (1, 0)))\<close> is \<open>(1 + 2\<^sup>-\<^sup>5\<^sup>2, 0)\<close>, that is
  \<open>(1.0000000000000002, 0)\<close>.
\<close>

theorem rotation_scenario_values:
  "result_vec (thn (Mat22_new heap0 (Num (Fin 0)) (Num (Fin 1)) (Num (Fin (- 1))) (Num (Fin 0)))
       (\<lambda>(m, h1). thn (Vec2_new h1 (Num (Fin 1)) (Num (Fin 0)))
       (\<lambda>(v, h2). Mat22_mul vmul_checked True h2 m (Ref v)))) = Some (Fin 0, Fin (- 1))
   \<and> result_vec (thn (Mat22_new heap0 (Num (Fin 0)) (Num (Fin 1)) (Num (Fin (- 1))) (Num (Fin 0)))
       (\<lambda>(m, h1). thn (Vec2_new h1 (Num (Fin 1)) (Num (Fin 0)))
       (\<lambda>(v, h2). Mat22_mul vmul_checked True h2 m (Ref v)))) \<noteq> Some (Fin 0, Fin 1)
   \<and> result_vec (thn (Mat22_new heap0 (Num (Fin 0)) (Num (Fin 1)) (Num (Fin (- 1))) (Num (Fin 0)))
       (\<lambda>(m, h1). thn (Vec2_new h1 (Num (Fin 0)) (Num (Fin 1)))
       (\<lambda>(v, h2). Mat22_mulT True h2 m (Ref v)))) = Some (Fin (- 1), Fin 0)
   \<and> result_vec (thn (Mat22_new heap0 (Num (Fin 0)) (Num (Fin 1)) (Num (Fin (- 1))) (Num (Fin 0)))
       (\<lambda>(m, h1). thn (Vec2_new h1 (Num (Fin 0)) (Num (Fin 1)))
       (\<lambda>(v, h2). Mat22_mulT True h2 m (Ref v)))) \<noteq> Some (Fin 1, Fin 0)
   \<and> result_vec
        (thn (Mat22_new heap0 (Num (Fin (6369051672525773 / 9007199254740992)))
                (Num (Fin (- (6369051672525773 / 9007199254740992))))
                (Num (Fin (6369051672525773 / 9007199254740992)))
                (Num (Fin (6369051672525773 / 9007199254740992))))
       (\<lambda>(m, h1). thn (Vec2_new h1 (Num (Fin 1)) (Num (Fin 0)))
       (\<lambda>(v, h2). thn (Mat22_mulT True h2 m (Ref v))
       (\<lambda>(w, h3). Mat22_mul vmul_checked True h3 m w))))
     = Some (Fin (4503599627370497 / 4503599627370496), Fin 0)"
proof -
  let ?A = "6369051672525773 / 9007199254740992 :: rat"
  let ?H = "4503599627370497 / 9007199254740992 :: rat"
  have A: "round64 ?A = Fin ?A"
    by (rule round64_exact[where m = 6369051672525773 and k = "- 53"]) simp_all
  have nA: "round64 (- ?A) = Fin (- ?A)"
    unfolding round64_neg A by (simp add: js_neg_def)
  have H: "round64 (?A * ?A) = Fin ?H"
    by (rule round64_near[where e = "- 1" and n = 4503599627370497]) simp_all
  have nH: "round64 (- (?A * ?A)) = Fin (- ?H)"
    unfolding round64_neg H by (simp add: js_neg_def)
  have HH: "round64 (?H + ?H) = Fin (4503599627370497 / 4503599627370496)"
    using round64_exact[where q = "?H + ?H" and m = 4503599627370497 and k = "- 52"] by simp
  have S: "js_add (js_mul (Fin 1) (Fin ?A)) (js_mul (Fin 0) (Fin ?A)) = Fin ?A"
    using A by (simp add: js_Fin round64_0)
  have T: "js_add (js_mul (Fin 1) (Fin (- ?A))) (js_mul (Fin 0) (Fin ?A)) = Fin (- ?A)"
    using nA by (simp add: js_Fin round64_0)
  have R1: "js_add (js_mul (Fin ?A) (Fin ?A)) (js_mul (Fin (- ?A)) (Fin (- ?A)))
      = Fin (4503599627370497 / 4503599627370496)"
    unfolding js_mul_Fin minus_mult_minus H js_add_Fin HH ..
  have R2: "js_add (js_mul (Fin ?A) (Fin ?A)) (js_mul (Fin ?A) (Fin (- ?A))) = Fin 0"
    unfolding js_mul_Fin mult_minus_right H nH js_add_Fin by (simp add: round64_0)
  obtain m v h2 where
    1: "thn (Mat22_new heap0 (Num (Fin ?A)) (Num (Fin (- ?A))) (Num (Fin ?A)) (Num (Fin ?A)))
       (\<lambda>(m, h1). thn (Vec2_new h1 (Num (Fin 1)) (Num (Fin 0)))
       (\<lambda>(v, h2). thn (Mat22_mulT True h2 m (Ref v))
       (\<lambda>(w, h3). Mat22_mul vmul_checked True h3 m w)))
      = thn (Mat22_mulT True h2 m (Ref v)) (\<lambda>(w, h3). Mat22_mul vmul_checked True h3 m w)"
    and M: "mat_of h2 m = Some ((Fin ?A, Fin ?A), (Fin (- ?A), Fin ?A))"
    and V: "vec_of h2 (Ref v) = Some (Fin 1, Fin 0)"
    by (rule new_mat_vec[where f = "\<lambda>h2 m v. thn (Mat22_mulT True h2 m v)
          (\<lambda>(w, h3). Mat22_mul vmul_checked True h3 m w)"])
  have 5: "result_vec
        (thn (Mat22_new heap0 (Num (Fin ?A)) (Num (Fin (- ?A))) (Num (Fin ?A)) (Num (Fin ?A)))
       (\<lambda>(m, h1). thn (Vec2_new h1 (Num (Fin 1)) (Num (Fin 0)))
       (\<lambda>(v, h2). thn (Mat22_mulT True h2 m (Ref v))
       (\<lambda>(w, h3). Mat22_mul vmul_checked True h3 m w))))
     = Some (Fin (4503599627370497 / 4503599627370496), Fin 0)"
    unfolding 1 mulT_then_mul[OF M V S T] R1 R2 ..
  have 14: "result_vec (thn (Mat22_new heap0 (Num (Fin 0)) (Num (Fin 1)) (Num (Fin (- 1))) (Num (Fin 0)))
       (\<lambda>(m, h1). thn (Vec2_new h1 (Num (Fin 1)) (Num (Fin 0)))
       (\<lambda>(v, h2). Mat22_mul vmul_checked True h2 m (Ref v)))) = Some (Fin 0, Fin (- 1))"
    "result_vec (thn (Mat22_new heap0 (Num (Fin 0)) (Num (Fin 1)) (Num (Fin (- 1))) (Num (Fin 0)))
       (\<lambda>(m, h1). thn (Vec2_new h1 (Num (Fin 1)) (Num (Fin 0)))
       (\<lambda>(v, h2). Mat22_mul vmul_checked True h2 m (Ref v)))) \<noteq> Some (Fin 0, Fin 1)"
    "result_vec (thn (Mat22_new heap0 (Num (Fin 0)) (Num (Fin 1)) (Num (Fin (- 1))) (Num (Fin 0)))
       (\<lambda>(m, h1). thn (Vec2_new h1 (Num (Fin 0)) (Num (Fin 1)))
       (\<lambda>(v, h2). Mat22_mulT True h2 m (Ref v)))) = Some (Fin (- 1), Fin 0)"
    "result_vec (thn (Mat22_new heap0 (Num (Fin 0)) (Num (Fin 1)) (Num (Fin (- 1))) (Num (Fin 0)))
       (\<lambda>(m, h1). thn (Vec2_new h1 (Num (Fin 0)) (Num (Fin 1)))
       (\<lambda>(v, h2). Mat22_mulT True h2 m (Ref v)))) \<noteq> Some (Fin 1, Fin 0)"
    unfolding mul_of_new mulT_of_new by (simp_all add: js_Fin round64_small)
  from 14 5 show ?thesis by (intro conjI)
qed

text \<open>
  C7 (amended).  A matrix \<open>M\<close> whose columns are orthonormal up to \<open>2\<^sup>-\<^sup>5\<^sup>0\<close> is what a
  rotation is in binary64: the matrix \<open>(r, -s; s, r)\<close> is one whenever \<open>r\<close> and \<open>s\<close> are
  within \<open>2\<^sup>-\<^sup>5\<^sup>3\<close> of the cosine and the sine of an angle.  For such an \<open>M\<close> and a valid
  vector \<open>v\<close> with components of magnitude at most \<open>2\<^sup>1\<^sup>0\<^sup>0\<^sup>0\<close>,
  \<open>Mat22.mul(M, Mat22.mulT(M, v))\<close> returns a vector, each of whose components is within
  \<open>(\<bar>v.x\<bar> + \<bar>v.y\<bar>) / 2\<^sup>4\<^sup>6 + 2\<^sup>-\<^sup>1\<^sup>0\<^sup>7\<^sup>0\<close> of the component of \<open>v\<close>.  When \<open>M\<close> is exactly
  orthonormal and \<open>v\<close> is a vector of binary64 numbers, the result has the components of
  \<open>v\<close>.  For \<open>M = Mat22(0, 1, -1, 0)\<close>, whose columns are \<open>(0, -1)\<close> and \<open>(1, 0)\<close>,
  \<open>Mat22.mul(M, (1, 0))\<close> is \<open>(0, -1)\<close> and \<open>Mat22.mulT(M, (0, 1))\<close> is \<open>(-1, 0)\<close>; the
  values \<open>(0, 1)\<close> and \<open>(1, 0)\<close> are those of \<open>Mat22(0, -1, 1, 0)\<close>.
\<close>

theorem mulT_mul_roundtrip:
  "(mat_of h m = Some ((Fin a, Fin c), (Fin b, Fin d)) \<and>
    near_orthonormal ((Fin a, Fin c), (Fin b, Fin d)) \<and>
    vec_of h v = Some (Fin p, Fin q) \<and> \<bar>p\<bar> \<le> 2 ^ 1000 \<and> \<bar>q\<bar> \<le> 2 ^ 1000 \<longrightarrow>
      (\<exists>p' q'.
         result_vec (thn (Mat22_mulT dbg h m v) (\<lambda>(w, h1). Mat22_mul vmul dbg h1 m w))
           = Some (Fin p', Fin q') \<and>
         \<bar>p' - p\<bar> \<le> (\<bar>p\<bar> + \<bar>q\<bar>) / 2 ^ 46 + 1 / 2 ^ 1070 \<and>
         \<bar>q' - q\<bar> \<le> (\<bar>p\<bar> + \<bar>q\<bar>) / 2 ^ 46 + 1 / 2 ^ 1070))
   \<and> (\<bar>real_of_rat r - cos \<theta>\<bar> \<le> 1 / 2 ^ 53 \<and> \<bar>real_of_rat s - sin \<theta>\<bar> \<le> 1 / 2 ^ 53 \<longrightarrow>
        near_orthonormal ((Fin r, Fin s), (Fin (- s), Fin r)))
   \<and> (mat_of h m = Some ((Fin a, Fin c), (Fin b, Fin d)) \<and>
    orthonormal ((Fin a, Fin c), (Fin b, Fin d)) \<and>
    is_double (Fin a) \<and> is_double (Fin b) \<and> is_double (Fin c) \<and> is_double (Fin d) \<and>
    vec_of h v = Some (Fin p, Fin q) \<and> is_double (Fin p) \<and> is_double (Fin q) \<longrightarrow>
      result_vec (thn (Mat22_mulT dbg h m v) (\<lambda>(w, h1). Mat22_mul vmul dbg h1 m w)) = Some (Fin p, Fin q))
   \<and> result_vec (thn (Mat22_new h0 (Num (Fin 0)) (Num (Fin 1)) (Num (Fin (- 1))) (Num (Fin 0)))
       (\<lambda>(m, h1). thn (Vec2_new h1 (Num (Fin 1)) (Num (Fin 0)))
       (\<lambda>(v, h2). Mat22_mul vmul dbg h2 m (Ref v)))) = Some (Fin 0, Fin (- 1))
   \<and> result_vec (thn (Mat22_new h0 (Num (Fin 0)) (Num (Fin 1)) (Num (Fin (- 1))) (Num (Fin 0)))
       (\<lambda>(m, h1). thn (Vec2_new h1 (Num (Fin 0)) (Num (Fin 1)))
       (\<lambda>(v, h2). Mat22_mulT dbg h2 m (Ref v)))) = Some (Fin (- 1), Fin 0)
   \<and> result_vec (thn (Mat22_new h0 (Num (Fin 0)) (Num (Fin (- 1))) (Num (Fin 1)) (Num (Fin 0)))
       (\<lambda>(m, h1). thn (Vec2_new h1 (Num (Fin 1)) (Num (Fin 0)))
       (\<lambda>(v, h2). Mat22_mul vmul dbg h2 m (Ref v)))) = Some (Fin 0, Fin 1)
   \<and> result_vec (thn (Mat22_new h0 (Num (Fin 0)) (Num (Fin (- 1))) (Num (Fin 1)) (Num (Fin 0)))
       (\<lambda>(m, h1). thn (Vec2_new h1 (Num (Fin 0)) (Num (Fin 1)))
       (\<lambda>(v, h2). Mat22_mulT dbg h2 m (Ref v)))) = Some (Fin 1, Fin 0)"
proof (intro conjI impI)
  assume A: "mat_of h m = Some ((Fin a, Fin c), (Fin b, Fin d)) \<and>
    near_orthonormal ((Fin a, Fin c), (Fin b, Fin d)) \<and>
    vec_of h v = Some (Fin p, Fin q) \<and> \<bar>p\<bar> \<le> 2 ^ 1000 \<and> \<bar>q\<bar> \<le> 2 ^ 1000"
  hence M: "mat_of h m = Some ((Fin a, Fin c), (Fin b, Fin d))"
    and N: "near_orthonormal ((Fin a, Fin c), (Fin b, Fin d))"
    and V: "vec_of h v = Some (Fin p, Fin q)"
    and P: "\<bar>p\<bar> \<le> 2 ^ 1000" "\<bar>q\<bar> \<le> 2 ^ 1000"
    by simp_all
  from N P obtain s t p' q' where
    S: "js_add (js_mul (Fin p) (Fin a)) (js_mul (Fin q) (Fin c)) = Fin s"
    and T: "js_add (js_mul (Fin p) (Fin b)) (js_mul (Fin q) (Fin d)) = Fin t"
    and R: "js_add (js_mul (Fin a) (Fin s)) (js_mul (Fin b) (Fin t)) = Fin p'"
      "js_add (js_mul (Fin c) (Fin s)) (js_mul (Fin d) (Fin t)) = Fin q'"
    and E: "\<bar>p' - p\<bar> \<le> (\<bar>p\<bar> + \<bar>q\<bar>) / 2 ^ 46 + 1 / 2 ^ 1070"
      "\<bar>q' - q\<bar> \<le> (\<bar>p\<bar> + \<bar>q\<bar>) / 2 ^ 46 + 1 / 2 ^ 1070"
    by (rule roundtrip_error)
  have "result_vec (thn (Mat22_mulT dbg h m v) (\<lambda>(w, h1). Mat22_mul vmul dbg h1 m w))
      = Some (Fin p', Fin q')"
    unfolding mulT_then_mul[OF M V S T] R ..
  with E show "\<exists>p' q'.
         result_vec (thn (Mat22_mulT dbg h m v) (\<lambda>(w, h1). Mat22_mul vmul dbg h1 m w))
           = Some (Fin p', Fin q') \<and>
         \<bar>p' - p\<bar> \<le> (\<bar>p\<bar> + \<bar>q\<bar>) / 2 ^ 46 + 1 / 2 ^ 1070 \<and>
         \<bar>q' - q\<bar> \<le> (\<bar>p\<bar> + \<bar>q\<bar>) / 2 ^ 46 + 1 / 2 ^ 1070"
    by blast
next
  assume "\<bar>real_of_rat r - cos \<theta>\<bar> \<le> 1 / 2 ^ 53 \<and> \<bar>real_of_rat s - sin \<theta>\<bar> \<le> 1 / 2 ^ 53"
  thus "near_orthonormal ((Fin r, Fin s), (Fin (- s), Fin r))"
    by (intro rounded_rotation[of r \<theta> s]) simp_all
next
  assume A: "mat_of h m = Some ((Fin a, Fin c), (Fin b, Fin d)) \<and>
    orthonormal ((Fin a, Fin c), (Fin b, Fin d)) \<and>
    is_double (Fin a) \<and> is_double (Fin b) \<and> is_double (Fin c) \<and> is_double (Fin d) \<and>
    vec_of h v = Some (Fin p, Fin q) \<and> is_double (Fin p) \<and> is_double (Fin q)"
  hence M: "mat_of h m = Some ((Fin a, Fin c), (Fin b, Fin d))"
    and O: "orthonormal ((Fin a, Fin c), (Fin b, Fin d))"
    and D: "round64 a = Fin a" "round64 b = Fin b" "round64 c = Fin c" "round64 d = Fin d"
    and V: "vec_of h v = Some (Fin p, Fin q)"
    and P: "round64 p = Fin p" "round64 q = Fin q"
    by (simp_all add: is_double_def)
  from orthonormal_roundtrip[OF O D P] obtain s t where
    S: "js_add (js_mul (Fin p) (Fin a)) (js_mul (Fin q) (Fin c)) = Fin s"
    and T: "js_add (js_mul (Fin p) (Fin b)) (js_mul (Fin q) (Fin d)) = Fin t"
    and R: "js_add (js_mul (Fin a) (Fin s)) (js_mul (Fin b) (Fin t)) = Fin p"
      "js_add (js_mul (Fin c) (Fin s)) (js_mul (Fin d) (Fin t)) = Fin q"
    by blast
  show "result_vec (thn (Mat22_mulT dbg h m v) (\<lambda>(w, h1). Mat22_mul vmul dbg h1 m w)) = Some (Fin p, Fin q)"
    unfolding mulT_then_mul[OF M V S T] R ..
qed (simp_all add: mul_of_new mulT_of_new js_Fin round64_small)

text \<open>
  The rotation by 45 degrees of above, which is orthonormal up to \<open>2\<^sup>-\<^sup>5\<^sup>0\<close> and not
  exactly, and the vector \<open>(3, 0.25)\<close>; the angle \<open>0\<close>, with cosine \<open>1\<close> and sine \<open>0\<close>;
  and the exactly orthonormal matrix with columns \<open>(0, -1)\<close> and \<open>(1, 0)\<close>, which returns
  \<open>(3, 0.25)\<close> itself.
\<close>

theorem mulT_mul_roundtrip_witness:
  "mat_of (heap_of [mat_obj 1 2,
             vec_obj (Fin (6369051672525773 / 9007199254740992))
                     (Fin (6369051672525773 / 9007199254740992)),
             vec_obj (Fin (- (6369051672525773 / 9007199254740992)))
                     (Fin (6369051672525773 / 9007199254740992)),
             vec_obj (Fin 3) (Fin (1 / 4))]) (Ref 0)
     = Some ((Fin (6369051672525773 / 9007199254740992), Fin (6369051672525773 / 9007199254740992)),
             (Fin (- (6369051672525773 / 9007199254740992)), Fin (6369051672525773 / 9007199254740992)))
   \<and> near_orthonormal
        ((Fin (6369051672525773 / 9007199254740992), Fin (6369051672525773 / 9007199254740992)),
         (Fin (- (6369051672525773 / 9007199254740992)), Fin (6369051672525773 / 9007199254740992)))
   \<and> \<not> orthonormal
        ((Fin (6369051672525773 / 9007199254740992), Fin (6369051672525773 / 9007199254740992)),
         (Fin (- (6369051672525773 / 9007199254740992)), Fin (6369051672525773 / 9007199254740992)))
   \<and> vec_of (heap_of [mat_obj 1 2,
             vec_obj (Fin (6369051672525773 / 9007199254740992))
                     (Fin (6369051672525773 / 9007199254740992)),
             vec_obj (Fin (- (6369051672525773 / 9007199254740992)))
                     (Fin (6369051672525773 / 9007199254740992)),
             vec_obj (Fin 3) (Fin (1 / 4))]) (Ref 3)
     = Some (Fin 3, Fin (1 / 4))
   \<and> (\<exists>p' q'.
         result_vec
           (thn (Mat22_mulT True
                   (heap_of [mat_obj 1 2,
                      vec_obj (Fin (6369051672525773 / 9007199254740992))
                              (Fin (6369051672525773 / 9007199254740992)),
                      vec_obj (Fin (- (6369051672525773 / 9007199254740992)))
                              (Fin (6369051672525773 / 9007199254740992)),
                      vec_obj (Fin 3) (Fin (1 / 4))]) (Ref 0) (Ref 3))
              (\<lambda>(w, h1). Mat22_mul vmul_checked True h1 (Ref 0) w))
           = Some (Fin p', Fin q') \<and>
         \<bar>p' - 3\<bar> \<le> (3 + 1 / 4) / 2 ^ 46 + 1 / 2 ^ 1070 \<and>
         \<bar>q' - 1 / 4\<bar> \<le> (3 + 1 / 4) / 2 ^ 46 + 1 / 2 ^ 1070)
   \<and> near_orthonormal ((Fin 1, Fin 0), (Fin (- 0), Fin 1))
   \<and> orthonormal ((Fin 0, Fin (- 1)), (Fin 1, Fin 0))
   \<and> result_vec
        (thn (Mat22_mulT True
                (heap_of [mat_obj 1 2, vec_obj (Fin 0) (Fin (- 1)), vec_obj (Fin 1) (Fin 0),
                          vec_obj (Fin 3) (Fin (1 / 4))]) (Ref 0) (Ref 3))
           (\<lambda>(w, h1). Mat22_mul vmul_checked True h1 (Ref 0) w))
     = Some (Fin 3, Fin (1 / 4))"
proof -
  let ?A = "6369051672525773 / 9007199254740992 :: rat"
  let ?hp = "heap_of [mat_obj 1 2, vec_obj (Fin ?A) (Fin ?A), vec_obj (Fin (- ?A)) (Fin ?A),
                      vec_obj (Fin 3) (Fin (1 / 4))]"
  have 1: "mat_of ?hp (Ref 0) = Some ((Fin ?A, Fin ?A), (Fin (- ?A), Fin ?A))"
    "vec_of ?hp (Ref 3) = Some (Fin 3, Fin (1 / 4))"
    by (simp_all add: example_defs mat_of_def vec_of_def empty_obj_def)
  have 2: "near_orthonormal ((Fin ?A, Fin ?A), (Fin (- ?A), Fin ?A))"
    by (simp add: near_orthonormal_def)
  have 3: "\<not> orthonormal ((Fin ?A, Fin ?A), (Fin (- ?A), Fin ?A))"
    by (simp add: orthonormal_def)
  have 4: "\<bar>3 :: rat\<bar> \<le> 2 ^ 1000" "\<bar>1 / 4 :: rat\<bar> \<le> 2 ^ 1000" by simp_all
  have 5: "\<bar>real_of_rat 1 - cos 0\<bar> \<le> 1 / 2 ^ 53" "\<bar>real_of_rat 0 - sin 0\<bar> \<le> 1 / 2 ^ 53"
    by simp_all
  note T = mulT_mul_roundtrip[where h = ?hp and m = "Ref 0" and a = ?A and c = ?A and b = "- ?A"
      and d = ?A and v = "Ref 3" and p = 3 and q = "1 / 4" and dbg = True and vmul = vmul_checked
      and r = 1 and s = 0 and \<theta> = 0]
  from T 1 2 4 have 6: "\<exists>p' q'.
         result_vec (thn (Mat22_mulT True ?hp (Ref 0) (Ref 3))
              (\<lambda>(w, h1). Mat22_mul vmul_checked True h1 (Ref 0) w))
           = Some (Fin p', Fin q') \<and>
         \<bar>p' - 3\<bar> \<le> (\<bar>3\<bar> + \<bar>1 / 4\<bar>) / 2 ^ 46 + 1 / 2 ^ 1070 \<and>
         \<bar>q' - 1 / 4\<bar> \<le> (\<bar>3\<bar> + \<bar>1 / 4\<bar>) / 2 ^ 46 + 1 / 2 ^ 1070"
    by blast
  have 7: "\<bar>3 :: rat\<bar> + \<bar>1 / 4\<bar> = 3 + 1 / 4" by simp
  from T 5 have 8: "near_orthonormal ((Fin 1, Fin 0), (Fin (- 0), Fin 1))" by blast
  let ?hq = "heap_of [mat_obj 1 2, vec_obj (Fin 0) (Fin (- 1)), vec_obj (Fin 1) (Fin 0),
                      vec_obj (Fin 3) (Fin (1 / 4))]"
  have 9: "mat_of ?hq (Ref 0) = Some ((Fin 0, Fin (- 1)), (Fin 1, Fin 0))"
    "vec_of ?hq (Ref 3) = Some (Fin 3, Fin (1 / 4))"
    by (simp_all add: example_defs mat_of_def vec_of_def empty_obj_def)
  have 10: "orthonormal ((Fin 0, Fin (- 1)), (Fin 1, Fin 0))"
    by (simp add: orthonormal_def)
  have 11: "is_double (Fin 0)" "is_double (Fin 1)" "is_double (Fin (- 1))"
    "is_double (Fin 3)" "is_double (Fin (1 / 4))"
    by (simp_all add: is_double_def round64_small)
  from mulT_mul_roundtrip[where h = ?hq and m = "Ref 0" and a = 0 and c = "- 1" and b = 1
      and d = 0 and v = "Ref 3" and p = 3 and q = "1 / 4" and dbg = True and vmul = vmul_checked]
    9 10 11
  have 12: "result_vec (thn (Mat22_mulT True ?hq (Ref 0) (Ref 3))
          (\<lambda>(w, h1). Mat22_mul vmul_checked True h1 (Ref 0) w)) = Some (Fin 3, Fin (1 / 4))"
    by blast
  from 1 2 3 6[unfolded 7] 8 10 12 show ?thesis by (intro conjI)
qed

text \<open>
  C8 (as it stands, refuted).  The matrix with columns \<open>(NaN, 0)\<close> and \<open>(0, 1)\<close> is
  invalid, and neither \<open>getInverse\<close> nor \<open>solve\<close> on it raises anything:
  \<open>getInverse\<close> returns a matrix and \<open>solve\<close>, given \<open>(0, 1)\<close>, a vector, all of
  whose components are \<open>NaN\<close>.
\<close>

theorem getInverse_invalid_receiver:
  "\<not> Mat22_isValid (heap_of [mat_obj 1 2, vec_obj NaN (Fin 0), vec_obj (Fin 0) (Fin 1)]) (Ref 0)
   \<and> result_mat
        (getInverse (heap_of [mat_obj 1 2, vec_obj NaN (Fin 0), vec_obj (Fin 0) (Fin 1)]) (Ref 0))
     = Some ((NaN, NaN), (NaN, NaN))
   \<and> result_vec
        (solve (heap_of [mat_obj 1 2, vec_obj NaN (Fin 0), vec_obj (Fin 0) (Fin 1)]) (Ref 0) (Ref 2))
     = Some (NaN, NaN)"
proof -
  let ?hp = "heap_of [mat_obj 1 2, vec_obj NaN (Fin 0), vec_obj (Fin 0) (Fin 1)]"
  have 1: "\<not> Mat22_isValid ?hp (Ref 0)"
    by (simp add: example_defs Mat22_isValid_def truthy_def prop_ref_def ref_val_def
        Vec2_isValid_def is_finite_def empty_obj_def)
  have 2: "mat_of ?hp (Ref 0) = Some ((NaN, Fin 0), (Fin 0, Fin 1))"
    by (simp add: example_defs mat_of_def vec_of_def empty_obj_def)
  have rd: "recip_det NaN (Fin 0) (Fin 0) (Fin 1) = NaN"
    by (simp add: recip_det_def js_mul_def js_sub_def js_add_def js_neq_def js_div_def)
  have 3: "result_mat (getInverse ?hp (Ref 0)) = Some ((NaN, NaN), (NaN, NaN))"
    unfolding getInverse_result[OF 2] rd
    by (simp add: result_mat_def mat_of_def vec_of_def empty_obj_def js_mul_def js_neg_def)
  have 4: "vec_of ?hp (Ref 2) = Some (Fin 0, Fin 1)"
    by (simp add: example_defs vec_of_def empty_obj_def)
  have 5: "result_vec (solve ?hp (Ref 0) (Ref 2)) = Some (NaN, NaN)"
    unfolding solve_vec[OF 2 4] rd by (simp add: js_mul_def)
  from 1 3 5 show ?thesis by blast
qed

text \<open>
  C8 (amended).  The assertions guard the operands that are passed in: an invalid matrix as
  the second operand of \<open>Mat22.mul\<close> or \<open>Mat22.mulT\<close>, as the argument of \<open>Mat22.abs\<close>
  or as an argument of \<open>Mat22.add\<close> raises \<open>Invalid Mat22!\<close>, and an invalid vector passed
  to \<open>solve\<close> raises \<open>Invalid Vec2!\<close>, before anything is computed.  The receiver of
  \<open>getInverse\<close> and of \<open>solve\<close> is not checked: with components that are numbers,
  finite or not, the call returns a result.
\<close>

theorem assertions_guard_operands:
  "(\<not> Mat22_isValid h v \<and> has_x_y h v = Inr False \<and> has_ex_ey h v = Inr True \<longrightarrow>
      Mat22_mul vmul dbg h mx v = Inl (Error ''Invalid Mat22!'') \<and>
      Mat22_mulT dbg h mx v = Inl (Error ''Invalid Mat22!''))
   \<and> (\<not> Mat22_isValid h v \<longrightarrow>
      Mat22_abs h v = Inl (Error ''Invalid Mat22!'') \<and>
      Mat22_add str h v mx = Inl (Error ''Invalid Mat22!'') \<and>
      Mat22_add str h mx v = Inl (Error ''Invalid Mat22!''))
   \<and> (\<not> Vec2_isValid h w \<longrightarrow> solve h this w = Inl (Error ''Invalid Vec2!''))
   \<and> (mat_of h this = Some u \<and> \<not> Mat22_isValid h this \<longrightarrow>
        (\<exists>r h'. getInverse h this = Inr (r, h')) \<and>
        (vec_of h w = Some (Fin p, Fin q) \<longrightarrow>
           (\<exists>r h'. solve h this w = Inr (r, h'))))"
proof (intro conjI impI)
  assume "\<not> Mat22_isValid h v \<and> has_x_y h v = Inr False \<and> has_ex_ey h v = Inr True"
  thus "Mat22_mul vmul dbg h mx v = Inl (Error ''Invalid Mat22!'')"
    "Mat22_mulT dbg h mx v = Inl (Error ''Invalid Mat22!'')"
    by (simp_all add: Mat22_mul_def Mat22_mulT_def Mat22_assert_def thn_def)
next
  assume A: "\<not> Mat22_isValid h v"
  thus "Mat22_abs h v = Inl (Error ''Invalid Mat22!'')"
    by (simp add: Mat22_abs_def Mat22_assert_def thn_def)
  from A show "Mat22_add str h v mx = Inl (Error ''Invalid Mat22!'')"
    by (simp add: Mat22_add_def Mat22_assert_def thn_def)
  from A show "Mat22_add str h mx v = Inl (Error ''Invalid Mat22!'')"
    by (simp add: Mat22_add_def Mat22_assert_def thn_def)
next
  assume "\<not> Vec2_isValid h w"
  thus "solve h this w = Inl (Error ''Invalid Vec2!'')"
    by (simp add: solve_def Vec2_assert_def thn_def)
next
  assume A: "mat_of h this = Some u \<and> \<not> Mat22_isValid h this"
  obtain a b c d where u: "u = ((a, c), (b, d))" by (metis surj_pair)
  from A have M: "mat_of h this = Some ((a, c), (b, d))" by (simp add: u)
  show "\<exists>r h'. getInverse h this = Inr (r, h')"
    unfolding getInverse_result[OF M] by blast
  assume V: "vec_of h w = Some (Fin p, Fin q)"
  show "\<exists>r h'. solve h this w = Inr (r, h')"
    unfolding solve_result[OF M V] by blast
qed

theorem assertions_guard_operands_witness:
  "\<not> Mat22_isValid (heap_of [mat_obj 1 2, vec_obj NaN (Fin 0), vec_obj (Fin 0) (Fin 1)]) (Ref 0)
   \<and> has_x_y (heap_of [mat_obj 1 2, vec_obj NaN (Fin 0), vec_obj (Fin 0) (Fin 1)]) (Ref 0)
     = Inr False
   \<and> has_ex_ey (heap_of [mat_obj 1 2, vec_obj NaN (Fin 0), vec_obj (Fin 0) (Fin 1)]) (Ref 0)
     = Inr True
   \<and> \<not> Vec2_isValid (heap_of [mat_obj 1 2, vec_obj NaN (Fin 0), vec_obj (Fin 0) (Fin 1)]) (Ref 1)
   \<and> mat_of (heap_of [mat_obj 1 2, vec_obj NaN (Fin 0), vec_obj (Fin 0) (Fin 1)]) (Ref 0)
     = Some ((NaN, Fin 0), (Fin 0, Fin 1))
   \<and> vec_of (heap_of [mat_obj 1 2, vec_obj NaN (Fin 0), vec_obj (Fin 0) (Fin 1)]) (Ref 2)
     = Some (Fin 0, Fin 1)
   \<and> Mat22_mul vmul_checked True (heap_of [mat_obj 1 2, vec_obj NaN (Fin 0), vec_obj (Fin 0) (Fin 1)])
        (Ref 0) (Ref 0)
     = Inl (Error ''Invalid Mat22!'')
   \<and> solve (heap_of [mat_obj 1 2, vec_obj NaN (Fin 0), vec_obj (Fin 0) (Fin 1)]) (Ref 0) (Ref 1)
     = Inl (Error ''Invalid Vec2!'')
   \<and> (\<exists>r h'. getInverse (heap_of [mat_obj 1 2, vec_obj NaN (Fin 0), vec_obj (Fin 0) (Fin 1)])
                 (Ref 0) = Inr (r, h'))
   \<and> (\<exists>r h'. solve (heap_of [mat_obj 1 2, vec_obj NaN (Fin 0), vec_obj (Fin 0) (Fin 1)])
                 (Ref 0) (Ref 2) = Inr (r, h'))"
proof -
  let ?hp = "heap_of [mat_obj 1 2, vec_obj NaN (Fin 0), vec_obj (Fin 0) (Fin 1)]"
  have 1: "\<not> Mat22_isValid ?hp (Ref 0)" "\<not> Vec2_isValid ?hp (Ref 1)"
    by (simp_all add: example_defs Mat22_isValid_def truthy_def prop_ref_def ref_val_def
        Vec2_isValid_def is_finite_def empty_obj_def)
  have 2: "has_x_y ?hp (Ref 0) = Inr False" "has_ex_ey ?hp (Ref 0) = Inr True"
    by (simp_all add: example_defs has_x_y_def has_ex_ey_def has_prop_def truthy_def thn_def
        empty_obj_def)
  have 3: "mat_of ?hp (Ref 0) = Some ((NaN, Fin 0), (Fin 0, Fin 1))"
    "vec_of ?hp (Ref 2) = Some (Fin 0, Fin 1)"
    by (simp_all add: example_defs mat_of_def vec_of_def empty_obj_def)
  note T = assertions_guard_operands[where h = ?hp and v = "Ref 0" and dbg = True and vmul = vmul_checked
      and mx = "Ref 0" and this = "Ref 0" and u = "((NaN, Fin 0), (Fin 0, Fin 1))"]
  from T[where w = "Ref 1"] 1 2
  have 4: "Mat22_mul vmul_checked True ?hp (Ref 0) (Ref 0) = Inl (Error ''Invalid Mat22!'')"
    "solve ?hp (Ref 0) (Ref 1) = Inl (Error ''Invalid Vec2!'')"
    by blast+
  from T[where w = "Ref 2" and p = 0 and q = 1] 1 3
  have 5: "\<exists>r h'. getInverse ?hp (Ref 0) = Inr (r, h')"
    "\<exists>r h'. solve ?hp (Ref 0) (Ref 2) = Inr (r, h')"
    by blast+
  from 1 2 3 4 5 show ?thesis by blast
qed

text \<open>
  C9.  \<open>getInverse\<close> and \<open>solve\<close> leave the receiver as it is.  For a matrix \<open>M\<close>
  (and a valid vector \<open>v\<close>) the call returns, every object of the heap before the call
  is unchanged after it, so the columns of \<open>M\<close> (and \<open>v\<close>) read as before, and the
  returned matrix with its two columns, or the returned vector, is newly allocated.  Whatever
  the receiver, a call that returns has changed no existing object and returns a new one.
\<close>

theorem getInverse_solve_frame:
  "(mat_of h this = Some M \<longrightarrow>
      (\<exists>r h'. getInverse h this = Inr (r, h') \<and> keeps h h' \<and> mat_of h' this = Some M \<and>
         is_new h h' r \<and>
         (\<exists>c1 c2. get_ref ex h' r = Inr c1 \<and> get_ref ey h' r = Inr c2 \<and>
            is_new h h' c1 \<and> is_new h h' c2 \<and> c1 \<noteq> c2)))
   \<and> (mat_of h this = Some M \<and> vec_of h v = Some (Fin p, Fin q) \<longrightarrow>
      (\<exists>r h'. solve h this v = Inr (r, h') \<and> keeps h h' \<and> mat_of h' this = Some M \<and>
         vec_of h' v = Some (Fin p, Fin q) \<and> is_new h h' r))
   \<and> (\<forall>r h'. getInverse h this = Inr (r, h') \<longrightarrow> keeps h h' \<and> is_new h h' r)
   \<and> (\<forall>r h'. solve h this v = Inr (r, h') \<longrightarrow> keeps h h' \<and> is_new h h' r)"
proof (intro conjI impI allI)
  assume M: "mat_of h this = Some M"
  obtain a b c d where M': "M = ((a, c), (b, d))" by (metis surj_pair)
  let ?h' = "snd (projr (getInverse h this))"
  have k: "keeps h ?h'"
    by (simp add: getInverse_result[OF M[unfolded M']] keeps_def)
  hence "mat_of ?h' this = Some M"
    using M by (auto simp: keeps_def intro: mat_of_mono)
  with k show "\<exists>r h'. getInverse h this = Inr (r, h') \<and> keeps h h' \<and> mat_of h' this = Some M \<and>
         is_new h h' r \<and>
         (\<exists>c1 c2. get_ref ex h' r = Inr c1 \<and> get_ref ey h' r = Inr c2 \<and>
            is_new h h' c1 \<and> is_new h h' c2 \<and> c1 \<noteq> c2)"
    by (simp add: getInverse_result[OF M[unfolded M']] is_new_def get_ref_def ref_val_def
        empty_obj_def)
next
  assume A: "mat_of h this = Some M \<and> vec_of h v = Some (Fin p, Fin q)"
  obtain a b c d where M': "M = ((a, c), (b, d))" by (metis surj_pair)
  from A have M: "mat_of h this = Some ((a, c), (b, d))" and V: "vec_of h v = Some (Fin p, Fin q)"
    by (simp_all add: M')
  let ?h' = "snd (projr (solve h this v))"
  have k: "keeps h ?h'"
    by (simp add: solve_result[OF M V] keeps_def)
  hence "mat_of ?h' this = Some M" "vec_of ?h' v = Some (Fin p, Fin q)"
    using M V by (auto simp: keeps_def M' intro: mat_of_mono vec_of_mono)
  with k show "\<exists>r h'. solve h this v = Inr (r, h') \<and> keeps h h' \<and> mat_of h' this = Some M \<and>
         vec_of h' v = Some (Fin p, Fin q) \<and> is_new h h' r"
    by (simp add: solve_result[OF M V] is_new_def)
next
  fix r h'
  assume "getInverse h this = Inr (r, h')"
  thus "keeps h h'" "is_new h h' r"
    by (auto simp: getInverse_def thn_def Mat22_new_default set_ex_x_def set_ex_y_def
        set_ey_x_def set_ey_y_def get_ref_def ref_val_def set_prop_def upd_def empty_obj_def
        keeps_def is_new_def Let_def split: sum.splits)
next
  fix r h'
  assume "solve h this v = Inr (r, h')"
  thus "keeps h h'" "is_new h h' r"
    by (auto simp: solve_def thn_def Vec2_new_def alloc_def set_prop_def upd_def
        keeps_def is_new_def Let_def split: sum.splits)
qed

theorem getInverse_solve_frame_witness:
  "mat_of (heap_of [mat_obj 1 2, vec_obj (Fin 2) (Fin 0), vec_obj (Fin 0) (Fin 2)]) (Ref 0)
     = Some ((Fin 2, Fin 0), (Fin 0, Fin 2))
   \<and> vec_of (heap_of [mat_obj 1 2, vec_obj (Fin 2) (Fin 0), vec_obj (Fin 0) (Fin 2)]) (Ref 1)
     = Some (Fin 2, Fin 0)
   \<and> (\<exists>r h'. getInverse (heap_of [mat_obj 1 2, vec_obj (Fin 2) (Fin 0), vec_obj (Fin 0) (Fin 2)])
                 (Ref 0) = Inr (r, h')
         \<and> is_new (heap_of [mat_obj 1 2, vec_obj (Fin 2) (Fin 0), vec_obj (Fin 0) (Fin 2)]) h' r
         \<and> mat_of h' (Ref 0) = Some ((Fin 2, Fin 0), (Fin 0, Fin 2)))
   \<and> (\<exists>r h'. solve (heap_of [mat_obj 1 2, vec_obj (Fin 2) (Fin 0), vec_obj (Fin 0) (Fin 2)])
                 (Ref 0) (Ref 1) = Inr (r, h')
         \<and> is_new (heap_of [mat_obj 1 2, vec_obj (Fin 2) (Fin 0), vec_obj (Fin 0) (Fin 2)]) h' r
         \<and> mat_of h' (Ref 0) = Some ((Fin 2, Fin 0), (Fin 0, Fin 2)))"
proof -
  let ?hp = "heap_of [mat_obj 1 2, vec_obj (Fin 2) (Fin 0), vec_obj (Fin 0) (Fin 2)]"
  have 1: "mat_of ?hp (Ref 0) = Some ((Fin 2, Fin 0), (Fin 0, Fin 2))"
    by (simp add: example_defs mat_of_def vec_of_def empty_obj_def)
  have 2: "vec_of ?hp (Ref 1) = Some (Fin 2, Fin 0)"
    by (simp add: example_defs vec_of_def empty_obj_def)
  from getInverse_solve_frame[of ?hp "Ref 0" "((Fin 2, Fin 0), (Fin 0, Fin 2))" "Ref 1" 2 0] 1 2
  show ?thesis by blast
qed

text \<open>
  C10.  \<open>Mat22.mul\<close> and \<open>Mat22.mulT\<close> test for a vector first.  A second operand with
  all of \<open>x\<close>, \<open>y\<close>, \<open>ex\<close> and \<open>ey\<close> is treated as a vector: with finite \<open>x\<close> and
  \<open>y\<close> the call returns the matrix-vector (transpose-vector) product, a vector and not a
  matrix; otherwise it fails the vector assertion.  The properties \<open>ex\<close> and \<open>ey\<close> of
  the operand are never looked at.
\<close>

theorem mul_vector_first:
  "(has_x_y h v = Inr True \<and> has_ex_ey h v = Inr True \<and> \<not> Vec2_isValid h v \<longrightarrow>
      Mat22_mul vmul dbg h mx v = Inl (Error ''Invalid Vec2!'') \<and>
      Mat22_mulT dbg h mx v = Inl (Error ''Invalid Vec2!''))
   \<and> (has_x_y h v = Inr True \<and> has_ex_ey h v = Inr True \<and>
       vec_of h v = Some (Fin p, Fin q) \<and> mat_of h mx = Some ((a, c), (b, d)) \<longrightarrow>
      result_vec (Mat22_mul vmul dbg h mx v) =
        Some (js_add (js_mul a (Fin p)) (js_mul b (Fin q)),
              js_add (js_mul c (Fin p)) (js_mul d (Fin q))) \<and>
      result_mat (Mat22_mul vmul dbg h mx v) = None \<and>
      result_vec (Mat22_mulT dbg h mx v) =
        Some (js_add (js_mul (Fin p) a) (js_mul (Fin q) c),
              js_add (js_mul (Fin p) b) (js_mul (Fin q) d)) \<and>
      result_mat (Mat22_mulT dbg h mx v) = None)"
proof (intro conjI impI)
  assume A: "has_x_y h v = Inr True \<and> has_ex_ey h v = Inr True \<and> \<not> Vec2_isValid h v"
  thus "Mat22_mul vmul dbg h mx v = Inl (Error ''Invalid Vec2!'')"
    by (simp add: Mat22_mul_def thn_def Vec2_assert_def)
  from A show "Mat22_mulT dbg h mx v = Inl (Error ''Invalid Vec2!'')"
    by (simp add: Mat22_mulT_def thn_def Vec2_assert_def)
next
  assume A: "has_x_y h v = Inr True \<and> has_ex_ey h v = Inr True \<and>
       vec_of h v = Some (Fin p, Fin q) \<and> mat_of h mx = Some ((a, c), (b, d))"
  hence V: "vec_of h v = Some (Fin p, Fin q)" and M: "mat_of h mx = Some ((a, c), (b, d))"
    by simp_all
  show "result_vec (Mat22_mul vmul dbg h mx v) =
        Some (js_add (js_mul a (Fin p)) (js_mul b (Fin q)),
              js_add (js_mul c (Fin p)) (js_mul d (Fin q)))"
    unfolding Mat22_mul_vec_result[OF M V] by (rule result_vec_alloc)
  show "result_mat (Mat22_mul vmul dbg h mx v) = None"
    unfolding Mat22_mul_vec_result[OF M V]
    by (simp add: result_mat_def mat_of_def empty_obj_def)
  show "result_vec (Mat22_mulT dbg h mx v) =
        Some (js_add (js_mul (Fin p) a) (js_mul (Fin q) c),
              js_add (js_mul (Fin p) b) (js_mul (Fin q) d))"
    unfolding Mat22_mulT_vec_result[OF M V] by (rule result_vec_alloc)
  show "result_mat (Mat22_mulT dbg h mx v) = None"
    unfolding Mat22_mulT_vec_result[OF M V]
    by (simp add: result_mat_def mat_of_def empty_obj_def)
qed

text \<open>
  An operand with all four properties: object \<open>3\<close> has \<open>x = 1\<close>, \<open>y = 0\<close> and the columns
  of the matrix at \<open>0\<close> as its \<open>ex\<close> and \<open>ey\<close>, so that it passes \<open>Mat22.isValid\<close> as well.
\<close>

theorem mul_vector_first_witness:
  "has_x_y (heap_of [mat_obj 1 2, vec_obj (Fin 2) (Fin 0), vec_obj (Fin 0) (Fin 2),
                     \<lparr>x = Some (Fin 1), y = Some (Fin 0), ex = Some 1, ey = Some 2\<rparr>]) (Ref 3)
     = Inr True
   \<and> has_ex_ey (heap_of [mat_obj 1 2, vec_obj (Fin 2) (Fin 0), vec_obj (Fin 0) (Fin 2),
                         \<lparr>x = Some (Fin 1), y = Some (Fin 0), ex = Some 1, ey = Some 2\<rparr>]) (Ref 3)
     = Inr True
   \<and> Mat22_isValid (heap_of [mat_obj 1 2, vec_obj (Fin 2) (Fin 0), vec_obj (Fin 0) (Fin 2),
                             \<lparr>x = Some (Fin 1), y = Some (Fin 0), ex = Some 1, ey = Some 2\<rparr>]) (Ref 3)
   \<and> result_vec
        (Mat22_mul vmul_checked True
           (heap_of [mat_obj 1 2, vec_obj (Fin 2) (Fin 0), vec_obj (Fin 0) (Fin 2),
                     \<lparr>x = Some (Fin 1), y = Some (Fin 0), ex = Some 1, ey = Some 2\<rparr>])
           (Ref 0) (Ref 3))
     = Some (Fin 2, Fin 0)
   \<and> result_mat
        (Mat22_mul vmul_checked True
           (heap_of [mat_obj 1 2, vec_obj (Fin 2) (Fin 0), vec_obj (Fin 0) (Fin 2),
                     \<lparr>x = Some (Fin 1), y = Some (Fin 0), ex = Some 1, ey = Some 2\<rparr>])
           (Ref 0) (Ref 3))
     = None"
proof -
  let ?hp = "heap_of [mat_obj 1 2, vec_obj (Fin 2) (Fin 0), vec_obj (Fin 0) (Fin 2),
                      \<lparr>x = Some (Fin 1), y = Some (Fin 0), ex = Some 1, ey = Some 2\<rparr>]"
  have 1: "has_x_y ?hp (Ref 3) = Inr True" "has_ex_ey ?hp (Ref 3) = Inr True"
    by (simp_all add: example_defs has_x_y_def has_ex_ey_def has_prop_def truthy_def thn_def)
  have 2: "Mat22_isValid ?hp (Ref 3)"
    by (simp add: example_defs Mat22_isValid_def truthy_def prop_ref_def ref_val_def
        Vec2_isValid_def is_finite_def empty_obj_def)
  have 3: "vec_of ?hp (Ref 3) = Some (Fin 1, Fin 0)"
    by (simp add: example_defs vec_of_def)
  have 4: "mat_of ?hp (Ref 0) = Some ((Fin 2, Fin 0), (Fin 0, Fin 2))"
    by (simp add: example_defs mat_of_def vec_of_def empty_obj_def)
  have 5: "js_add (js_mul (Fin 2) (Fin 1)) (js_mul (Fin 0) (Fin 0)) = Fin 2"
    "js_add (js_mul (Fin 0) (Fin 1)) (js_mul (Fin 2) (Fin 0)) = Fin 0"
    by (simp_all add: js_Fin round64_small)
  from mul_vector_first[where h = ?hp and v = "Ref 3" and dbg = True and vmul = vmul_checked and mx = "Ref 0"
      and p = 1 and q = 0 and a = "Fin 2" and c = "Fin 0" and b = "Fin 0" and d = "Fin 2"] 1 2 3 4
  show ?thesis unfolding 5 by blast
qed

end
